(* ===== verification/Prelude.thy ===== *)
theory Prelude
  imports Main "HOL-Library.Word" "HOL-Library.Multiset"
begin

section \<open>Shared vocabulary: bytes, results, machines with outputs\<close>

text \<open>
  The types and generic lemmas that every component shares.  A component with state is
  a function from a state and an event to the next state and the list of the effects it
  has on the outside world, in the order the code has them; \<open>run_machine\<close> iterates such
  a function over a list of events.  The locales at the end carry the two inductions
  that every state machine of the library needs (an invariant holds after any run, and
  all effects of any run are well-behaved); each machine interprets them with its own
  preservation lemma.
\<close>

named_theorems step_simps \<open>defining equations of the step functions of the components\<close>
named_theorems inv_intros \<open>preservation lemmas, one per operation\<close>

type_synonym byte = "8 word"
type_synonym bytes = "8 word list"
type_synonym u32 = "32 word"
type_synonym u64 = "64 word"

text \<open>Functions that report failure by an error code return the code on the left.\<close>

type_synonym ('e, 'a) result = "'e + 'a"

definition is_ok :: "'e + 'a \<Rightarrow> bool" where
  "is_ok r = (case r of Inl _ \<Rightarrow> False | Inr _ \<Rightarrow> True)"

lemma is_ok_simps [simp]: "is_ok (Inr x)" "\<not> is_ok (Inl e)"
  by (simp_all add: is_ok_def)

subsection \<open>Reading and updating a vector by index\<close>

text \<open>\<open>std::vector::at\<close>: \<open>None\<close> stands for the thrown \<open>std::out_of_range\<close>.\<close>

definition vec_at :: "'a list \<Rightarrow> nat \<Rightarrow> 'a option" where
  "vec_at xs i = (if i < length xs then Some (xs ! i) else None)"

definition vec_set :: "'a list \<Rightarrow> nat \<Rightarrow> 'a \<Rightarrow> 'a list option" where
  "vec_set xs i x = (if i < length xs then Some (xs[i := x]) else None)"

lemma vec_at_Some_iff: "vec_at xs i = Some x \<longleftrightarrow> i < length xs \<and> xs ! i = x"
  by (auto simp: vec_at_def)

lemma vec_at_Cons [simp]:
  "vec_at (x # xs) 0 = Some x"
  "vec_at (x # xs) (Suc i) = vec_at xs i"
  by (auto simp: vec_at_def)

lemma vec_at_Nil [simp]: "vec_at [] i = None"
  by (simp add: vec_at_def)

lemma vec_set_length: "vec_set xs i x = Some ys \<Longrightarrow> length ys = length xs"
  by (auto simp: vec_set_def split: if_splits)

lemma vec_at_vec_set:
  "vec_set xs i x = Some ys \<Longrightarrow> vec_at ys j = (if j = i then Some x else vec_at xs j)"
  by (auto simp: vec_set_def vec_at_def split: if_splits)

subsection \<open>Numbers in text\<close>

fun decimal :: "nat \<Rightarrow> string" where
  "decimal n = (if n < 10 then [char_of (48 + n)] else decimal (n div 10) @ [char_of (48 + n mod 10)])"

declare decimal.simps [simp del]

subsection \<open>Running a machine\<close>

fun run_machine :: "('s \<Rightarrow> 'e \<Rightarrow> 's \<times> 'o list) \<Rightarrow> 's \<Rightarrow> 'e list \<Rightarrow> 's \<times> 'o list" where
  "run_machine step s [] = (s, [])"
| "run_machine step s (e # es) =
     (let (s1, o1) = step s e; (s2, o2) = run_machine step s1 es in (s2, o1 @ o2))"

lemma run_machine_append:
  "run_machine step s (es @ fs) =
     (let (s1, o1) = run_machine step s es; (s2, o2) = run_machine step s1 fs in (s2, o1 @ o2))"
  by (induction es arbitrary: s) (auto simp: Let_def split: prod.splits)

lemma run_machine_Cons_fst:
  "fst (run_machine step s (e # es)) = fst (run_machine step (fst (step s e)) es)"
  by (auto split: prod.splits)

lemma run_machine_Cons_snd:
  "snd (run_machine step s (e # es)) =
     snd (step s e) @ snd (run_machine step (fst (step s e)) es)"
  by (auto split: prod.splits)

text \<open>An invariant that every step keeps holds after every run.\<close>

locale machine_invariant =
  fixes step :: "'s \<Rightarrow> 'e \<Rightarrow> 's \<times> 'o list"
    and inv :: "'s \<Rightarrow> bool"
  assumes step_inv: "inv s \<Longrightarrow> inv (fst (step s e))"
begin

lemma run_inv: "inv s \<Longrightarrow> inv (fst (run_machine step s es))"
proof (induction es arbitrary: s)
  case Nil
  then show ?case by simp
next
  case (Cons e es)
  then have "inv (fst (step s e))" by (blast intro: step_inv)
  then show ?case by (simp only: run_machine_Cons_fst Cons.IH)
qed

end

text \<open>Effects that every step produces under the invariant are all that a run produces.\<close>

locale machine_outputs = machine_invariant step inv
  for step :: "'s \<Rightarrow> 'e \<Rightarrow> 's \<times> 'o list" and inv :: "'s \<Rightarrow> bool" +
  fixes good :: "'o \<Rightarrow> bool"
  assumes step_good: "inv s \<Longrightarrow> x \<in> set (snd (step s e)) \<Longrightarrow> good x"
begin

lemma run_good: "inv s \<Longrightarrow> x \<in> set (snd (run_machine step s es)) \<Longrightarrow> good x"
proof (induction es arbitrary: s)
  case Nil
  then show ?case by simp
next
  case (Cons e es)
  from Cons.prems(2) consider
      "x \<in> set (snd (step s e))" | "x \<in> set (snd (run_machine step (fst (step s e)) es))"
    by (auto simp only: run_machine_Cons_snd set_append)
  then show ?case
  proof cases
    case 1
    with Cons.prems(1) show ?thesis by (rule step_good)
  next
    case 2
    with Cons.prems(1) show ?thesis by (blast intro: Cons.IH step_inv)
  qed
qed

end

text \<open>
  A quantity that every step accounts for: what the state holds before plus what the event
  brings in is what the state holds after plus what the effects carry away.
\<close>

locale machine_conservation =
  fixes step :: "'s \<Rightarrow> 'e \<Rightarrow> 's \<times> 'o list"
    and inv :: "'s \<Rightarrow> bool"
    and held :: "'s \<Rightarrow> 'h multiset"
    and brought :: "'s \<Rightarrow> 'e \<Rightarrow> 'h multiset"
    and released :: "'o list \<Rightarrow> 'h multiset"
  assumes keeps: "inv s \<Longrightarrow> inv (fst (step s e))"
    and released_Nil: "released [] = {#}"
    and released_append: "released (xs @ ys) = released xs + released ys"
    and step_conserves:
      "inv s \<Longrightarrow> held (fst (step s e)) + released (snd (step s e)) = held s + brought s e"
begin

fun brought_by_run :: "'s \<Rightarrow> 'e list \<Rightarrow> 'h multiset" where
  "brought_by_run s [] = {#}"
| "brought_by_run s (e # es) = brought s e + brought_by_run (fst (step s e)) es"

lemma run_conserves:
  "inv s \<Longrightarrow> held (fst (run_machine step s es)) + released (snd (run_machine step s es)) =
     held s + brought_by_run s es"
proof (induction es arbitrary: s)
  case Nil
  then show ?case by (simp add: released_Nil)
next
  case (Cons e es)
  let ?s1 = "fst (step s e)"
  from Cons.prems have "inv ?s1" by (rule keeps)
  then have IH: "held (fst (run_machine step ?s1 es)) + released (snd (run_machine step ?s1 es)) =
      held ?s1 + brought_by_run ?s1 es"
    by (rule Cons.IH)
  have "held (fst (run_machine step s (e # es))) + released (snd (run_machine step s (e # es))) =
      released (snd (step s e)) + (held ?s1 + brought_by_run ?s1 es)"
    using IH by (simp only: run_machine_Cons_fst run_machine_Cons_snd released_append
        union_assoc [symmetric]) (simp add: ac_simps)
  also have "\<dots> = (held ?s1 + released (snd (step s e))) + brought_by_run ?s1 es"
    by (simp add: ac_simps)
  also have "\<dots> = held s + brought s e + brought_by_run ?s1 es"
    by (simp only: step_conserves [OF Cons.prems])
  finally show ?case by (simp add: ac_simps)
qed

end

end
