(* ===== verification/Ordered_Map.thy ===== *)
theory Ordered_Map
  imports Prelude
begin

section \<open>\<open>std::map\<close> as a sorted association list\<close>

text \<open>
  The library keeps its tables (pending requests, subscriptions, registrations, options)
  in \<open>std::map\<close>, which iterates in key order.  The model is the list of the entries in
  that order.  The locale \<open>keyed_store\<close> is the contract the components rely on; it is
  interpreted at the end of the theory on the operations below.
\<close>

type_synonym ('k, 'v) omap = "('k \<times> 'v) list"

definition omap_empty :: "('k, 'v) omap" where
  "omap_empty = []"

definition omap_find :: "('k, 'v) omap \<Rightarrow> 'k \<Rightarrow> 'v option" where
  "omap_find m k = map_of m k"

text \<open>\<open>m[k] = v\<close>\<close>

fun omap_put :: "'k::linorder \<Rightarrow> 'v \<Rightarrow> ('k, 'v) omap \<Rightarrow> ('k, 'v) omap" where
  "omap_put k v [] = [(k, v)]"
| "omap_put k v ((k', v') # m) =
     (if k < k' then (k, v) # (k', v') # m
      else if k = k' then (k, v) # m
      else (k', v') # omap_put k v m)"

text \<open>\<open>m.emplace(k, v)\<close> does nothing when the key is present.\<close>

definition omap_emplace :: "'k::linorder \<Rightarrow> 'v \<Rightarrow> ('k, 'v) omap \<Rightarrow> ('k, 'v) omap" where
  "omap_emplace k v m = (if omap_find m k = None then omap_put k v m else m)"

definition omap_erase :: "'k \<Rightarrow> ('k, 'v) omap \<Rightarrow> ('k, 'v) omap" where
  "omap_erase k m = filter (\<lambda>e. fst e \<noteq> k) m"

definition omap_ok :: "('k::linorder, 'v) omap \<Rightarrow> bool" where
  "omap_ok m = sorted_wrt (<) (map fst m)"

abbreviation omap_values :: "('k, 'v) omap \<Rightarrow> 'v multiset" where
  "omap_values m \<equiv> mset (map snd m)"

lemma omap_ok_empty: "omap_ok omap_empty"
  by (simp add: omap_ok_def omap_empty_def)

lemma omap_find_empty [simp]: "omap_find omap_empty k = None"
  by (simp add: omap_find_def omap_empty_def)

lemma omap_find_Nil [simp]: "omap_find [] k = None"
  by (simp add: omap_find_def)

lemma omap_find_Cons [simp]:
  "omap_find ((k', v) # m) k = (if k = k' then Some v else omap_find m k)"
  by (simp add: omap_find_def)

lemma omap_ok_Cons: "omap_ok ((k, v) # m) \<longleftrightarrow> (\<forall>e \<in> set m. k < fst e) \<and> omap_ok m"
  by (auto simp: omap_ok_def)

lemma omap_find_None_iff: "omap_find m k = None \<longleftrightarrow> k \<notin> fst ` set m"
  by (simp add: omap_find_def map_of_eq_None_iff)

lemma omap_find_SomeD: "omap_find m k = Some v \<Longrightarrow> (k, v) \<in> set m"
  by (simp add: omap_find_def map_of_SomeD)

lemma set_omap_put: "set (map fst (omap_put k v m)) = insert k (set (map fst m))"
  by (induction k v m rule: omap_put.induct) (simp_all add: insert_commute)

lemma omap_ok_put:
  assumes "omap_ok m"
  shows "omap_ok (omap_put k v m)"
  using assms
proof (induction m)
  case Nil
  then show ?case by (simp add: omap_ok_def)
next
  case (Cons e m)
  obtain k' v' where e: "e = (k', v')" by force
  have keys: "fst ` set (omap_put k v m) = insert k (fst ` set m)"
    using set_omap_put [of k v m] by simp
  have "\<forall>x \<in> set (omap_put k v m). k' < fst x" if "k' < k"
  proof
    fix x assume "x \<in> set (omap_put k v m)"
    then have "fst x \<in> insert k (fst ` set m)" using keys by blast
    with that Cons.prems e show "k' < fst x" by (auto simp: omap_ok_Cons)
  qed
  with Cons e show ?case by (auto simp: omap_ok_Cons)
qed

lemma omap_find_put:
  "omap_find (omap_put k v m) k' = (if k' = k then Some v else omap_find m k')"
  by (induction m) auto

lemma set_omap_put_subset: "set (omap_put k v m) \<subseteq> insert (k, v) (set m)"
  by (induction k v m rule: omap_put.induct) auto

lemma set_omap_emplace: "set (omap_emplace k v m) \<subseteq> insert (k, v) (set m)"
  using set_omap_put_subset [of k v m] by (auto simp: omap_emplace_def)

lemma omap_erase_subset: "set (omap_erase k m) \<subseteq> set m"
  by (auto simp: omap_erase_def)

lemma omap_ok_erase: "omap_ok m \<Longrightarrow> omap_ok (omap_erase k m)"
  by (induction m) (auto simp: omap_erase_def omap_ok_def)

lemma omap_find_erase: "omap_find (omap_erase k m) k' = (if k' = k then None else omap_find m k')"
  by (induction m) (auto simp: omap_erase_def)

lemma omap_values_put:
  "omap_find m k = None \<Longrightarrow> omap_values (omap_put k v m) = add_mset v (omap_values m)"
  by (induction m) (auto split: if_splits)

lemma omap_erase_absent: "omap_find m k = None \<Longrightarrow> omap_erase k m = m"
  by (induction m) (auto simp: omap_erase_def split: if_splits)

lemma omap_values_erase:
  assumes "omap_ok m" and "omap_find m k = Some v"
  shows "add_mset v (omap_values (omap_erase k m)) = omap_values m"
  using assms
proof (induction m)
  case Nil
  then show ?case by simp
next
  case (Cons e m)
  obtain k' v' where e: "e = (k', v')" by force
  show ?case
  proof (cases "k' = k")
    case True
    with Cons.prems e have "omap_find m k = None"
      by (auto simp: omap_find_None_iff omap_ok_Cons)
    with True Cons.prems e show ?thesis
      using omap_erase_absent [of m k] by (simp add: omap_erase_def)
  next
    case False
    with Cons e show ?thesis by (simp add: omap_erase_def omap_ok_Cons add_mset_commute)
  qed
qed

subsection \<open>The interface the components use\<close>

locale keyed_store =
  fixes empty :: "'m"
    and find :: "'m \<Rightarrow> 'k \<Rightarrow> 'v option"
    and put :: "'k \<Rightarrow> 'v \<Rightarrow> 'm \<Rightarrow> 'm"
    and erase :: "'k \<Rightarrow> 'm \<Rightarrow> 'm"
    and vals :: "'m \<Rightarrow> 'v multiset"
    and ok :: "'m \<Rightarrow> bool"
  assumes ok_empty: "ok empty"
    and ok_put: "ok m \<Longrightarrow> ok (put k v m)"
    and ok_erase: "ok m \<Longrightarrow> ok (erase k m)"
    and find_empty: "find empty k = None"
    and find_put: "ok m \<Longrightarrow> find (put k v m) k' = (if k' = k then Some v else find m k')"
    and find_erase: "ok m \<Longrightarrow> find (erase k m) k' = (if k' = k then None else find m k')"
    and vals_empty: "vals empty = {#}"
    and vals_put: "ok m \<Longrightarrow> find m k = None \<Longrightarrow> vals (put k v m) = add_mset v (vals m)"
    and vals_erase: "ok m \<Longrightarrow> find m k = Some v \<Longrightarrow> add_mset v (vals (erase k m)) = vals m"
begin

lemma take_out:
  "ok m \<Longrightarrow> find m k = Some v \<Longrightarrow> ok (erase k m) \<and> find (erase k m) k = None \<and>
     vals m = add_mset v (vals (erase k m))"
  by (simp add: ok_erase find_erase vals_erase)

lemma replace:
  "ok m \<Longrightarrow> find m k = Some v \<Longrightarrow>
     add_mset v (vals (put k w (erase k m))) = add_mset w (vals m)"
  using take_out [of m k v] vals_put [of "erase k m" k w] by simp

lemma put_then_erase: "ok m \<Longrightarrow> find m k = None \<Longrightarrow> vals (erase k (put k v m)) = vals m"
proof -
  assume m: "ok m" "find m k = None"
  then have "add_mset v (vals (erase k (put k v m))) = vals (put k v m)"
    by (simp add: vals_erase ok_put find_put)
  with m show ?thesis by (simp add: vals_put)
qed

lemma find_commute:
  "ok m \<Longrightarrow> k \<noteq> k' \<Longrightarrow> find (put k v (put k' v' m)) j = find (put k' v' (put k v m)) j"
  by (simp add: find_put ok_put)

end

interpretation om: keyed_store "omap_empty :: ('k::linorder, 'v) omap" omap_find omap_put omap_erase
  omap_values omap_ok
proof unfold_locales
  show "omap_ok (omap_empty :: ('k, 'v) omap)" by (rule omap_ok_empty)
  show "omap_values (omap_empty :: ('k, 'v) omap) = {#}" by (simp add: omap_empty_def)
  show "omap_values (omap_put k v m) = add_mset v (omap_values m)" if "omap_find m k = None"
    for m :: "('k, 'v) omap" and k v
    using that by (rule omap_values_put)
  show "add_mset v (omap_values (omap_erase k m)) = omap_values m"
    if "omap_ok m" "omap_find m k = Some v" for m :: "('k, 'v) omap" and k v
    using that by (rule omap_values_erase)
qed (auto simp: omap_ok_put omap_ok_erase omap_find_put omap_find_erase)

lemma omap_emplace_find:
  "omap_find (omap_emplace k v m) k' =
     (if k' = k \<and> omap_find m k = None then Some v else omap_find m k')"
  by (auto simp: omap_emplace_def omap_find_put)

lemma omap_emplace_ok: "omap_ok m \<Longrightarrow> omap_ok (omap_emplace k v m)"
  by (simp add: omap_emplace_def omap_ok_put)

lemma omap_put_neq_Nil [simp]: "omap_put k v m \<noteq> []"
  by (cases m) (auto split: if_splits)

lemma omap_erase_Nil [simp]: "omap_erase k [] = []"
  by (simp add: omap_erase_def)

text \<open>Assignment through a reference or an iterator to the entry of a key.\<close>

fun omap_adjust :: "'k \<Rightarrow> ('v \<Rightarrow> 'v) \<Rightarrow> ('k, 'v) omap \<Rightarrow> ('k, 'v) omap" where
  "omap_adjust k f [] = []"
| "omap_adjust k f ((k', v) # m) = (if k = k' then (k', f v) # m else (k', v) # omap_adjust k f m)"

lemma omap_adjust_keys [simp]: "map fst (omap_adjust k f m) = map fst m"
  by (induction m rule: omap_adjust.induct) auto

lemma omap_ok_adjust [simp]: "omap_ok (omap_adjust k f m) = omap_ok m"
  by (simp add: omap_ok_def)

lemma omap_find_adjust:
  "omap_find (omap_adjust k f m) k' = (if k' = k then map_option f (omap_find m k) else omap_find m k')"
  by (induction k f m rule: omap_adjust.induct) auto

lemma omap_adjust_twice: "omap_adjust k f (omap_adjust k g m) = omap_adjust k (\<lambda>x. f (g x)) m"
  by (induction k g m rule: omap_adjust.induct) auto

lemma omap_adjust_cong:
  "omap_find m k = Some w \<Longrightarrow> f w = g w \<Longrightarrow> omap_adjust k f m = omap_adjust k g m"
  by (induction k g m rule: omap_adjust.induct) (auto split: if_splits)

lemma omap_adjust_self: "omap_find m k = Some w \<Longrightarrow> omap_adjust k (\<lambda>_. w) m = m"
  by (induction m) (auto split: if_splits)

lemma omap_adjust_put: "omap_adjust k f (omap_put k x m) = omap_put k (f x) m"
  by (induction m) auto

lemma omap_put_last: "\<forall>e \<in> set m. fst e < k \<Longrightarrow> omap_put k x m = m @ [(k, x)]"
  by (induction m) auto

end
