(* ===== verification/Errors.thy ===== *)
theory Errors
  imports Ordered_Map
begin

section \<open>Error codes (\<open>error.hpp\<close>, \<open>internal/error.ipp\<close>)\<close>

text \<open>
  The five error enumerations, the \<open>std::error_code\<close> values made of them, the categories'
  messages and equivalence relations, and the table that maps WAMP error URIs to
  \<open>SessionErrc\<close>.  An \<open>std::error_code\<close> is a category and an \<open>int\<close>; the categories of
  the standard library, of Asio and of the codec library are constructors too, so that the
  equivalences can tell them apart.
\<close>

subsection \<open>Enumerations\<close>

datatype session_errc =
    SE_success
  | SE_sessionEnded
  | SE_sessionEndedByPeer
  | SE_sessionAbortedByPeer
  | SE_allTransportsFailed
  | SE_joinError
  | SE_publishError
  | SE_subscribeError
  | SE_unsubscribeError
  | SE_registerError
  | SE_unregisterError
  | SE_callError
  | SE_invalidState
  | SE_invalidUri
  | SE_noSuchProcedure
  | SE_procedureAlreadyExists
  | SE_noSuchRegistration
  | SE_noSuchSubscription
  | SE_invalidArgument
  | SE_systemShutdown
  | SE_closeRealm
  | SE_goodbyeAndOut
  | SE_protocolViolation
  | SE_notAuthorized
  | SE_authorizationFailed
  | SE_noSuchRealm
  | SE_noSuchRole
  | SE_cancelled
  | SE_optionNotAllowed
  | SE_discloseMeDisallowed
  | SE_networkFailure
  | SE_unavailable
  | SE_noAvailableCallee
  | SE_featureNotSupported
  | SE_noEligibleCallee
  | SE_payloadSizeExceeded

primrec session_code :: "session_errc \<Rightarrow> int" where
    "session_code SE_success = 0"
  | "session_code SE_sessionEnded = 1"
  | "session_code SE_sessionEndedByPeer = 2"
  | "session_code SE_sessionAbortedByPeer = 3"
  | "session_code SE_allTransportsFailed = 4"
  | "session_code SE_joinError = 5"
  | "session_code SE_publishError = 6"
  | "session_code SE_subscribeError = 7"
  | "session_code SE_unsubscribeError = 8"
  | "session_code SE_registerError = 9"
  | "session_code SE_unregisterError = 10"
  | "session_code SE_callError = 11"
  | "session_code SE_invalidState = 12"
  | "session_code SE_invalidUri = 13"
  | "session_code SE_noSuchProcedure = 14"
  | "session_code SE_procedureAlreadyExists = 15"
  | "session_code SE_noSuchRegistration = 16"
  | "session_code SE_noSuchSubscription = 17"
  | "session_code SE_invalidArgument = 18"
  | "session_code SE_systemShutdown = 19"
  | "session_code SE_closeRealm = 20"
  | "session_code SE_goodbyeAndOut = 21"
  | "session_code SE_protocolViolation = 22"
  | "session_code SE_notAuthorized = 23"
  | "session_code SE_authorizationFailed = 24"
  | "session_code SE_noSuchRealm = 25"
  | "session_code SE_noSuchRole = 26"
  | "session_code SE_cancelled = 27"
  | "session_code SE_optionNotAllowed = 28"
  | "session_code SE_discloseMeDisallowed = 29"
  | "session_code SE_networkFailure = 30"
  | "session_code SE_unavailable = 31"
  | "session_code SE_noAvailableCallee = 32"
  | "session_code SE_featureNotSupported = 33"
  | "session_code SE_noEligibleCallee = 34"
  | "session_code SE_payloadSizeExceeded = 35"

datatype decoding_errc =
    DE_success
  | DE_failure
  | DE_emptyInput
  | DE_expectedStringKey
  | DE_badBase64Length
  | DE_badBase64Padding
  | DE_badBase64Char

primrec decoding_code :: "decoding_errc \<Rightarrow> int" where
    "decoding_code DE_success = 0"
  | "decoding_code DE_failure = 1"
  | "decoding_code DE_emptyInput = 2"
  | "decoding_code DE_expectedStringKey = 3"
  | "decoding_code DE_badBase64Length = 4"
  | "decoding_code DE_badBase64Padding = 5"
  | "decoding_code DE_badBase64Char = 6"

datatype protocol_errc =
    PE_success
  | PE_badDecode
  | PE_badSchema
  | PE_unsupportedMsg
  | PE_unexpectedMsg

primrec protocol_code :: "protocol_errc \<Rightarrow> int" where
    "protocol_code PE_success = 0"
  | "protocol_code PE_badDecode = 1"
  | "protocol_code PE_badSchema = 2"
  | "protocol_code PE_unsupportedMsg = 3"
  | "protocol_code PE_unexpectedMsg = 4"

datatype transport_errc =
    TE_success
  | TE_aborted
  | TE_failed
  | TE_badTxLength
  | TE_badRxLength

primrec transport_code :: "transport_errc \<Rightarrow> int" where
    "transport_code TE_success = 0"
  | "transport_code TE_aborted = 1"
  | "transport_code TE_failed = 2"
  | "transport_code TE_badTxLength = 3"
  | "transport_code TE_badRxLength = 4"

datatype rawsock_errc =
    RE_success
  | RE_badSerializer
  | RE_badMaxLength
  | RE_reservedBitsUsed
  | RE_maxConnectionsReached
  | RE_badHandshake
  | RE_badMessageType

primrec rawsock_code :: "rawsock_errc \<Rightarrow> int" where
    "rawsock_code RE_success = 0"
  | "rawsock_code RE_badSerializer = 1"
  | "rawsock_code RE_badMaxLength = 2"
  | "rawsock_code RE_reservedBitsUsed = 3"
  | "rawsock_code RE_maxConnectionsReached = 4"
  | "rawsock_code RE_badHandshake = 16"
  | "rawsock_code RE_badMessageType = 17"

subsection \<open>\<open>std::error_code\<close>\<close>

datatype error_category =
    Session_category
  | Decoding_category
  | Protocol_category
  | Transport_category
  | Rawsock_category
  | Generic_category
  | System_category
  | Json_category
  | Cbor_category
  | Msgpack_category

datatype error_code = Error_code (ec_category: error_category) (ec_value: int)

text \<open>\<open>explicit operator bool\<close> and the value-initialised code\<close>

definition ec_bool :: "error_code \<Rightarrow> bool" where
  "ec_bool ec \<longleftrightarrow> ec_value ec \<noteq> 0"

definition no_error :: error_code where
  "no_error = Error_code System_category 0"

definition session_ec :: "session_errc \<Rightarrow> error_code" where
  "session_ec e = Error_code Session_category (session_code e)"

definition decoding_ec :: "decoding_errc \<Rightarrow> error_code" where
  "decoding_ec e = Error_code Decoding_category (decoding_code e)"

definition protocol_ec :: "protocol_errc \<Rightarrow> error_code" where
  "protocol_ec e = Error_code Protocol_category (protocol_code e)"

definition transport_ec :: "transport_errc \<Rightarrow> error_code" where
  "transport_ec e = Error_code Transport_category (transport_code e)"

text \<open>\<open>RawsockErrc\<close> values read off the wire need not be enumerators, so the code is an \<open>int\<close>.\<close>

definition rawsock_value_ec :: "int \<Rightarrow> error_code" where
  "rawsock_value_ec n = Error_code Rawsock_category n"

definition rawsock_ec :: "rawsock_errc \<Rightarrow> error_code" where
  "rawsock_ec e = rawsock_value_ec (rawsock_code e)"

text \<open>\<open>std::errc::operation_canceled\<close> is \<open>ECANCELED\<close>, 125 on the platforms tested by the project.\<close>

definition operation_canceled :: int where
  "operation_canceled = 125"

text \<open>\<open>make_error_code(static_cast<std::errc>(asioEc.value()))\<close>\<close>

definition errc_of_asio :: "int \<Rightarrow> error_code" where
  "errc_of_asio n = Error_code Generic_category n"

subsection \<open>Messages\<close>

text \<open>
  A message lookup reads a static array of strings.  Reading past its end is undefined
  behaviour in the source, here the value \<open>Inl Array_overrun\<close>.
\<close>

datatype message_fault = Array_overrun

definition session_messages :: "string list" where
  "session_messages = [
     ''Operation successful'',
     ''Operation aborted; session ended by this peer'',
     ''Session ended by other peer'',
     ''Session aborted by other peer'',
     ''All transports failed during connection'',
     ''Join error reported by router'',
     ''Publish error reported by broker'',
     ''Subscribe error reported by broker'',
     ''Unsubscribe error reported by broker'',
     ''Register error reported by dealer'',
     ''Unregister error reported by dealer'',
     ''Call error reported by callee or dealer'',
     ''Invalid state for this operation'',
     ''An invalid WAMP URI was provided'',
     ''No procedure was registered under the given URI'',
     ''A procedure with the given URI is already registered'',
     ''Could not unregister; the given registration is not active'',
     ''Could not unsubscribe; the given subscription is not active'',
     ''The given argument types/values are not acceptable to the callee'',
     ''The other peer is shutting down'',
     ''The other peer is leaving the realm'',
     ''Session ended successfully'',
     ''Invalid WAMP message for current session state'',
     ''This peer is not authorized to perform the operation'',
     ''The authorization operation failed'',
     ''Attempt to join non-existent realm'',
     ''Attempt to authenticate under unsupported role'',
     ''A previously issued call was cancelled'',
     ''Option is disallowed by the router'',
     ''Router rejected client request to disclose its identity'',
     ''Router encountered a network failure'',
     ''Callee is unable to handle an invocation'',
     ''All registered callees are unable to handle an invocation'',
     ''Advanced feature is not supported'',
     ''Call options lead to the exclusion of all callees providing the procedure'',
     ''Serialized payload exceeds transport limits'']"

definition decoding_messages :: "string list" where
  "decoding_messages = [
     ''Operation succesful'',
     ''Decoding failed'',
     ''Input is empty or has no tokens'',
     ''Expected a string key'',
     ''Invalid Base64 string length'',
     ''Invalid Base64 padding'',
     ''Invalid Base64 character'']"

definition protocol_messages :: "string list" where
  "protocol_messages = [
     ''Operation successful'',
     ''Error decoding WAMP message payload'',
     ''Invalid WAMP message schema'',
     ''Received unsupported WAMP message'',
     ''Received unexpected WAMP message'']"

definition transport_messages :: "string list" where
  "transport_messages = [
     ''Operation successful'',
     ''Operation aborted'',
     ''Operation failed'',
     ''Outgoing message exceeds maximum length'',
     ''Incoming message exceeds maximum length'']"

definition rawsock_messages :: "string list" where
  "rawsock_messages = [
     ''Operation succesful'',
     ''Serializer unsupported'',
     ''Maximum message length unacceptable'',
     ''Use of reserved bits (unsupported feature)'',
     ''Maximum connection count reached'']"

definition rawsock_extra_messages :: "string list" where
  "rawsock_extra_messages = [
     ''Invalid handshake format from peer'',
     ''Invalid message type'']"

definition table_message :: "string list \<Rightarrow> int \<Rightarrow> string" where
  "table_message msg ev =
     (if 0 \<le> ev \<and> ev < int (length msg) then msg ! nat ev else ''Unknown error'')"

definition session_message :: "int \<Rightarrow> string" where
  "session_message ev = table_message session_messages ev"

definition decoding_message :: "int \<Rightarrow> string" where
  "decoding_message ev = table_message decoding_messages ev"

definition protocol_message :: "int \<Rightarrow> string" where
  "protocol_message ev = table_message protocol_messages ev"

definition transport_message :: "int \<Rightarrow> string" where
  "transport_message ev = table_message transport_messages ev"

definition rawsock_message :: "int \<Rightarrow> message_fault + string" where
  "rawsock_message ev =
     (if 0 \<le> ev \<and> ev < int (length rawsock_messages) then Inr (rawsock_messages ! nat ev)
      else if 16 \<le> ev \<and> ev < 16 + int (length rawsock_messages) then
        (case vec_at rawsock_extra_messages (nat (ev - 16)) of
           None \<Rightarrow> Inl Array_overrun
         | Some m \<Rightarrow> Inr m)
      else Inr ''Unknown error'')"

subsection \<open>Equivalence of codes and conditions\<close>

text \<open>\<open>SessionCategory::equivalent\<close>\<close>

definition session_equivalent :: "error_code \<Rightarrow> int \<Rightarrow> bool" where
  "session_equivalent code condition =
     (if ec_category code = Session_category then
        (if ec_value code = condition then True
         else if condition = session_code SE_joinError then
           ec_value code = session_code SE_noSuchRealm \<or>
           ec_value code = session_code SE_noSuchRole
         else if condition = session_code SE_sessionEndedByPeer then
           ec_value code = session_code SE_systemShutdown \<or>
           ec_value code = session_code SE_closeRealm
         else if condition = session_code SE_unsubscribeError then
           ec_value code = session_code SE_noSuchSubscription
         else if condition = session_code SE_registerError then
           ec_value code = session_code SE_procedureAlreadyExists
         else if condition = session_code SE_unregisterError then
           ec_value code = session_code SE_noSuchRegistration
         else if condition = session_code SE_callError then
           ec_value code = session_code SE_noSuchProcedure \<or>
           ec_value code = session_code SE_invalidArgument
         else False)
      else if condition = session_code SE_success then \<not> ec_bool code
      else False)"

text \<open>\<open>DecodingCategory::equivalent\<close>\<close>

definition decoding_equivalent :: "error_code \<Rightarrow> int \<Rightarrow> bool" where
  "decoding_equivalent code condition =
     (if \<not> ec_bool code then condition = decoding_code DE_success
      else if condition = decoding_code DE_failure then
        ec_category code = Decoding_category \<or> ec_category code = Json_category \<or>
        ec_category code = Cbor_category \<or> ec_category code = Msgpack_category
      else if ec_category code = Decoding_category then ec_value code = condition
      else False)"

text \<open>\<open>TransportCategory::equivalent\<close>\<close>

definition transport_equivalent :: "error_code \<Rightarrow> int \<Rightarrow> bool" where
  "transport_equivalent code condition =
     (if ec_category code = Transport_category then
        (if ec_value code = condition then True
         else if condition = transport_code TE_failed then
           ec_value code = transport_code TE_badTxLength \<or>
           ec_value code = transport_code TE_badRxLength
         else False)
      else if condition = transport_code TE_success then \<not> ec_bool code
      else if condition = transport_code TE_aborted then
        (ec_category code = Generic_category \<or> ec_category code = System_category) \<and>
        ec_value code = operation_canceled
      else if condition = transport_code TE_failed then
        (ec_category code = Generic_category \<or> ec_category code = System_category) \<and>
        ec_bool code
      else False)"

text \<open>\<open>RawsockCategory::equivalent\<close>\<close>

definition rawsock_equivalent :: "error_code \<Rightarrow> int \<Rightarrow> bool" where
  "rawsock_equivalent code condition =
     (if ec_category code = Rawsock_category then ec_value code = condition
      else \<not> ec_bool code \<and> condition = rawsock_code RE_success)"

text \<open>
  \<open>code == DecodingErrc::failure\<close> and its kin compare a code with a condition: the code's
  category is asked first (its default condition is the code itself, or the generic
  condition for a system code), then the condition's category.
\<close>

definition is_decoding :: "error_code \<Rightarrow> decoding_errc \<Rightarrow> bool" where
  "is_decoding code e =
     (code = decoding_ec e \<or> decoding_equivalent code (decoding_code e))"

definition is_transport :: "error_code \<Rightarrow> transport_errc \<Rightarrow> bool" where
  "is_transport code e =
     (code = transport_ec e \<or> transport_equivalent code (transport_code e))"

definition is_operation_canceled :: "error_code \<Rightarrow> bool" where
  "is_operation_canceled code =
     ((ec_category code = Generic_category \<or> ec_category code = System_category) \<and>
      ec_value code = operation_canceled)"

text \<open>\<open>ProtocolCategory::equivalent\<close>\<close>

definition protocol_equivalent :: "error_code \<Rightarrow> int \<Rightarrow> bool" where
  "protocol_equivalent code condition =
     (if ec_category code = Protocol_category then ec_value code = condition
      else if condition = protocol_code PE_success then \<not> ec_bool code
      else if ec_bool code \<and> condition = protocol_code PE_badDecode then
        is_decoding code DE_failure
      else False)"

subsection \<open>WAMP error URIs\<close>

definition wamp_error_table :: "(string \<times> session_errc) list" where
  "wamp_error_table = [
     (''wamp.error.invalid_uri'', SE_invalidUri),
     (''wamp.error.no_such_procedure'', SE_noSuchProcedure),
     (''wamp.error.procedure_already_exists'', SE_procedureAlreadyExists),
     (''wamp.error.no_such_registration'', SE_noSuchRegistration),
     (''wamp.error.no_such_subscription'', SE_noSuchSubscription),
     (''wamp.error.invalid_argument'', SE_invalidArgument),
     (''wamp.error.system_shutdown'', SE_systemShutdown),
     (''wamp.error.close_realm'', SE_closeRealm),
     (''wamp.error.goodbye_and_out'', SE_goodbyeAndOut),
     (''wamp.error.protocol_violation'', SE_protocolViolation),
     (''wamp.error.not_authorized'', SE_notAuthorized),
     (''wamp.error.authorization_failed'', SE_authorizationFailed),
     (''wamp.error.no_such_realm'', SE_noSuchRealm),
     (''wamp.error.no_such_role'', SE_noSuchRole),
     (''wamp.error.canceled'', SE_cancelled),
     (''wamp.error.option_not_allowed'', SE_optionNotAllowed),
     (''wamp.error.option_disallowed.disclose_me'', SE_discloseMeDisallowed),
     (''wamp.error.network_failure'', SE_networkFailure),
     (''wamp.error.unavailable'', SE_unavailable),
     (''wamp.error.no_available_callee'', SE_noAvailableCallee),
     (''wamp.error.feature_not_supported'', SE_featureNotSupported),
     (''wamp.error.no_eligible_callee'', SE_noEligibleCallee),
     (''wamp.error.payload_size_exceeded'', SE_payloadSizeExceeded)]"

definition lookup_wamp_error_uri :: "string \<Rightarrow> session_errc \<Rightarrow> bool \<times> session_errc" where
  "lookup_wamp_error_uri uri fallback =
     (case map_of wamp_error_table uri of
        Some e \<Rightarrow> (True, e)
      | None \<Rightarrow> (False, fallback))"

subsection \<open>Facts\<close>

lemma session_code_inj: "session_code a = session_code b \<longleftrightarrow> a = b"
  by (cases a; simp; cases b; simp)

lemma session_code_range: "0 \<le> session_code e \<and> session_code e < int (length session_messages)"
  by (cases e) (simp_all add: session_messages_def)

lemma session_ec_eq [simp]: "session_ec a = session_ec b \<longleftrightarrow> a = b"
  by (simp add: session_ec_def session_code_inj)

lemma session_ec_neq [simp]:
  "session_ec a \<noteq> errc_of_asio n" "errc_of_asio n \<noteq> session_ec a"
  "session_ec a \<noteq> decoding_ec d" "decoding_ec d \<noteq> session_ec a"
  "session_ec a \<noteq> transport_ec t" "transport_ec t \<noteq> session_ec a"
  "session_ec a \<noteq> rawsock_value_ec r" "rawsock_value_ec r \<noteq> session_ec a"
  by (simp_all add: session_ec_def errc_of_asio_def decoding_ec_def transport_ec_def
      rawsock_value_ec_def)

lemma wamp_error_table_keys: "distinct (map fst wamp_error_table)"
  by code_simp

lemma wamp_error_table_vals: "distinct (map snd wamp_error_table)"
  by code_simp

lemma wamp_error_table_codes:
  "map (session_code \<circ> snd) wamp_error_table = [13..35]"
  by code_simp

lemma lookup_found_iff:
  "fst (lookup_wamp_error_uri uri fb) \<longleftrightarrow> uri \<in> fst ` set wamp_error_table"
  by (auto simp: lookup_wamp_error_uri_def map_of_eq_None_iff split: option.splits
      dest: map_of_SomeD intro: rev_image_eqI)

lemma lookup_snd:
  "snd (lookup_wamp_error_uri uri fb) =
     (case map_of wamp_error_table uri of Some e \<Rightarrow> e | None \<Rightarrow> fb)"
  by (simp add: lookup_wamp_error_uri_def split: option.splits)

lemma map_of_vals_inj:
  "distinct (map snd ps) \<Longrightarrow> map_of ps k = Some v \<Longrightarrow> map_of ps k' = Some v \<Longrightarrow> k = k'"
  by (metis (no_types, lifting) distinct_map inj_onD map_of_SomeD prod.inject snd_conv)

text \<open>
  The table gives every enumerator from \<open>invalidUri\<close> to \<open>payloadSizeExceeded\<close> exactly
  one URI: two URIs that are found map to different enumerators, and an enumerator is the
  image of some URI exactly when its code is at least that of \<open>invalidUri\<close>.
\<close>

theorem uri_table_bijective:
  "\<exists>! uri. lookup_wamp_error_uri uri fallback = (True, e)"
  if "session_code SE_invalidUri \<le> session_code e"
proof -
  have "session_code e \<in> {13..35}"
    using that session_code_range [of e] by (simp add: session_messages_def)
  then have "session_code e \<in> set (map (session_code \<circ> snd) wamp_error_table)"
    by (simp only: wamp_error_table_codes set_upto)
  then obtain uri where "(uri, e) \<in> set wamp_error_table"
    by (auto simp: session_code_inj)
  then have "map_of wamp_error_table uri = Some e"
    by (simp add: map_of_is_SomeI wamp_error_table_keys)
  then show ?thesis
    by (auto simp: lookup_wamp_error_uri_def split: option.splits
        dest: map_of_vals_inj [OF wamp_error_table_vals])
qed

theorem uri_table_bijective_witness:
  "\<exists>! uri. lookup_wamp_error_uri uri SE_callError = (True, SE_cancelled)"
  by (rule uri_table_bijective) simp

text \<open>
  The message of a raw socket error code reads past the array of the extra messages
  for the codes 18, 19 and 20, and for no other code: the guard compares with the length
  of the wrong array.
\<close>

theorem rawsock_message_overrun:
  "rawsock_message ev = Inl Array_overrun \<longleftrightarrow> ev \<in> {18, 19, 20}"
proof (cases "16 \<le> ev \<and> ev < 21")
  case True
  then have "ev \<in> {16, 17, 18, 19, 20}" by auto
  then show ?thesis
    by (auto simp: rawsock_message_def rawsock_messages_def rawsock_extra_messages_def vec_at_def)
next
  case False
  then show ?thesis
    by (auto simp: rawsock_message_def rawsock_messages_def)
qed

end
