(* ===== verification/Rawsock_Header.thy ===== *)
theory Rawsock_Header
  imports Errors
begin

unbundle bit_operations_syntax

section \<open>Raw socket header and handshake words\<close>

text \<open>
  \<open>internal/endian.hpp\<close>, \<open>internal/rawsockheader.hpp\<close>, \<open>internal/rawsockhandshake.hpp\<close> and
  \<open>rawsockoptions.hpp\<close>: the 32-bit words that precede every message of a raw socket
  connection and that open the connection.  The byte order of the host is the parameter
  \<open>little\<close>; the words stay 32 bits wide, so that what the shifts and the \<open>|=\<close> of \<open>put\<close> do
  with oversized values is part of the model.
\<close>

subsection \<open>Byte order\<close>

definition flip :: "u32 \<Rightarrow> u32" where
  "flip n = (drop_bit 24 (n AND 0xFF000000)) OR (drop_bit 8 (n AND 0x00FF0000)) OR
            (push_bit 8 (n AND 0x0000FF00)) OR (push_bit 24 (n AND 0x000000FF))"

definition native_to_big32 :: "bool \<Rightarrow> u32 \<Rightarrow> u32" where
  "native_to_big32 little native = (if little then flip native else native)"

definition big_to_native32 :: "bool \<Rightarrow> u32 \<Rightarrow> u32" where
  "big_to_native32 little big = (if little then flip big else big)"

text \<open>What the header and the handshake rely on: the two conversions are mutually inverse.\<close>

locale wire_order =
  fixes to_wire :: "'w \<Rightarrow> 'w" and from_wire :: "'w \<Rightarrow> 'w"
  assumes from_to: "from_wire (to_wire x) = x"
    and to_from: "to_wire (from_wire y) = y"
begin

lemma to_wire_eq_iff: "to_wire x = to_wire y \<longleftrightarrow> x = y"
  by (metis from_to)

lemma to_wire_iff: "to_wire x = y \<longleftrightarrow> x = from_wire y"
  by (metis from_to to_from)

lemma read_back: "to_wire x = y \<Longrightarrow> from_wire y = x"
  by (simp add: to_wire_iff)

end

lemma word_masks:
  "(0x000000FF :: u32) = mask 8" "(0x0000FF00 :: u32) = push_bit 8 (mask 8)"
  "(0x00FF0000 :: u32) = push_bit 16 (mask 8)" "(0xFF000000 :: u32) = push_bit 24 (mask 8)"
  "(0x0000FFFF :: u32) = mask 16" "(0x000F0000 :: u32) = push_bit 16 (mask 4)"
  "(0x00F00000 :: u32) = push_bit 20 (mask 4)" "(0x7F000000 :: u32) = push_bit 24 (mask 7)"
  "(0x00FFFFFF :: u32) = mask 24"
  by (simp_all add: mask_eq_exp_minus_1 push_bit_eq_mult)

lemmas bit_fields = bit_or_iff bit_and_iff bit_push_bit_iff bit_mask_iff bit_drop_bit_eq
  bit_take_bit_iff

lemma bit_byte_down:
  fixes n :: u32
  shows "bit (drop_bit 24 (n AND push_bit 24 (mask 8))) i \<longleftrightarrow> i < 8 \<and> bit n (i + 24)"
    and "bit (drop_bit 8 (n AND push_bit 16 (mask 8))) i \<longleftrightarrow> 8 \<le> i \<and> i < 16 \<and> bit n (i + 8)"
  using bit_imp_le_length [of n "i + 24"] bit_imp_le_length [of n "i + 8"]
  by (auto simp: bit_fields ac_simps)

lemma bit_byte_up:
  fixes n :: u32
  shows "bit (push_bit 24 (n AND mask 8)) i \<longleftrightarrow> 24 \<le> i \<and> i < 32 \<and> bit n (i - 24)"
    and "bit (push_bit 8 (n AND push_bit 8 (mask 8))) i \<longleftrightarrow> 16 \<le> i \<and> i < 24 \<and> bit n (i - 8)"
  by (auto simp: bit_fields)

lemma bit_flip:
  "bit (flip n) i \<longleftrightarrow>
     (i < 8 \<and> bit n (i + 24)) \<or> (8 \<le> i \<and> i < 16 \<and> bit n (i + 8)) \<or>
     (16 \<le> i \<and> i < 24 \<and> bit n (i - 8)) \<or> (24 \<le> i \<and> i < 32 \<and> bit n (i - 24))"
  unfolding flip_def word_masks
  by (simp only: bit_or_iff bit_byte_down bit_byte_up disj_assoc)

lemma flip_flip: "flip (flip n) = n"
proof (rule bit_word_eqI)
  fix i assume "i < LENGTH(32)"
  then consider "i < 8" | j where "i = j + 8" "j < 8" | j where "i = j + 16" "j < 8"
    | j where "i = j + 24" "j < 8"
    using that by (atomize_elim) (simp, presburger)
  then show "bit (flip (flip n)) i = bit n i"
    by cases (simp_all add: bit_flip ac_simps)
qed

interpretation wire: wire_order "native_to_big32 little" "big_to_native32 little" for little
  by unfold_locales (simp_all add: native_to_big32_def big_to_native32_def flip_flip)

text \<open>
  The bytes of a \<open>uint32_t\<close> in the memory of a host, which is what the socket operations
  transmit, and the word that received bytes make.
\<close>

definition memory_of_word :: "bool \<Rightarrow> u32 \<Rightarrow> bytes" where
  "memory_of_word little w =
     (let bs = [ucast w, ucast (drop_bit 8 w), ucast (drop_bit 16 w), ucast (drop_bit 24 w)]
      in if little then bs else rev bs)"

definition word_of_memory :: "bool \<Rightarrow> bytes \<Rightarrow> u32" where
  "word_of_memory little bytes =
     (case (if little then bytes else rev bytes) of
        [a, b, c, d] \<Rightarrow>
          ucast a OR push_bit 8 (ucast b) OR push_bit 16 (ucast c) OR push_bit 24 (ucast d)
      | _ \<Rightarrow> 0)"

lemma word_of_memory_of_word [simp]: "word_of_memory little (memory_of_word little w) = w"
proof -
  have "ucast (ucast w :: byte) OR push_bit 8 (ucast (ucast (drop_bit 8 w) :: byte)) OR
      push_bit 16 (ucast (ucast (drop_bit 16 w) :: byte)) OR
      push_bit 24 (ucast (ucast (drop_bit 24 w) :: byte)) = w"
  proof (rule bit_word_eqI)
    fix i assume "i < LENGTH(32)"
    then consider "i < 8" | j where "i = j + 8" "j < 8" | j where "i = j + 16" "j < 8"
      | j where "i = j + 24" "j < 8"
      using that by (atomize_elim) (simp, presburger)
    then show "bit (ucast (ucast w :: byte) OR push_bit 8 (ucast (ucast (drop_bit 8 w) :: byte)) OR
      push_bit 16 (ucast (ucast (drop_bit 16 w) :: byte)) OR
      push_bit 24 (ucast (ucast (drop_bit 24 w) :: byte)) :: u32) i = bit w i"
      by cases (simp_all add: bit_fields bit_ucast_iff ac_simps)
  qed
  then show ?thesis by (simp add: word_of_memory_def memory_of_word_def)
qed

lemma memory_of_flip: "memory_of_word True (flip w) = memory_of_word False w"
  by (simp add: memory_of_word_def)
    (auto intro!: bit_word_eqI simp: bit_fields bit_ucast_iff bit_flip ac_simps)

lemma wire_bytes_big_endian:
  "memory_of_word little (native_to_big32 little w) = memory_of_word False w"
  by (cases little) (simp_all add: native_to_big32_def memory_of_flip)

lemma wire_word_roundtrip:
  "big_to_native32 l' (word_of_memory l' (memory_of_word l (native_to_big32 l w))) = w"
proof -
  have "word_of_memory l' (memory_of_word l (native_to_big32 l w)) = native_to_big32 l' w"
    using word_of_memory_of_word [of l' "native_to_big32 l' w"] by (simp only: wire_bytes_big_endian)
  then show ?thesis by (simp add: wire.from_to)
qed

subsection \<open>Message header\<close>

text \<open>
  \<open>RawsockMsgType\<close> has three enumerators; a value cast from the header byte may be any of
  256, the other ones being \<open>Msg_other\<close>.
\<close>

datatype rawsock_msg_type = Msg_wamp | Msg_ping | Msg_pong | Msg_other nat

fun rawsock_type_code :: "rawsock_msg_type \<Rightarrow> nat" where
  "rawsock_type_code Msg_wamp = 0"
| "rawsock_type_code Msg_ping = 1"
| "rawsock_type_code Msg_pong = 2"
| "rawsock_type_code (Msg_other n) = n"

definition rawsock_type_of_code :: "nat \<Rightarrow> rawsock_msg_type" where
  "rawsock_type_of_code n =
     (if n = 0 then Msg_wamp else if n = 1 then Msg_ping else if n = 2 then Msg_pong
      else Msg_other n)"

record rawsock_header =
  hdr :: u32

definition header_new :: rawsock_header where
  "header_new = \<lparr>hdr = 0\<rparr>"

definition header_from_big_endian :: "bool \<Rightarrow> u32 \<Rightarrow> rawsock_header" where
  "header_from_big_endian little big = \<lparr>hdr = big_to_native32 little big\<rparr>"

definition header_to_big_endian :: "bool \<Rightarrow> rawsock_header \<Rightarrow> u32" where
  "header_to_big_endian little h = native_to_big32 little (hdr h)"

definition header_msg_type :: "rawsock_header \<Rightarrow> rawsock_msg_type" where
  "header_msg_type h = rawsock_type_of_code (unat (drop_bit 24 (hdr h AND 0xFF000000)))"

definition header_msg_type_is_valid :: "rawsock_header \<Rightarrow> bool" where
  "header_msg_type_is_valid h \<longleftrightarrow>
     header_msg_type h = Msg_wamp \<or> header_msg_type h = Msg_ping \<or> header_msg_type h = Msg_pong"

definition header_length :: "rawsock_header \<Rightarrow> nat" where
  "header_length h = unat (hdr h AND 0x00FFFFFF)"

text \<open>\<open>put\<close> ors a value, cut to 32 bits and shifted into place, into the word.\<close>

definition header_set_msg_type :: "rawsock_msg_type \<Rightarrow> rawsock_header \<Rightarrow> rawsock_header" where
  "header_set_msg_type t h = h\<lparr>hdr := hdr h OR push_bit 24 (word_of_nat (rawsock_type_code t))\<rparr>"

definition header_set_length :: "nat \<Rightarrow> rawsock_header \<Rightarrow> rawsock_header" where
  "header_set_length n h = h\<lparr>hdr := hdr h OR word_of_nat n\<rparr>"

text \<open>\<open>RawsockFrame::computeHeader\<close> (\<open>internal/rawsocktransport.hpp\<close>)\<close>

definition compute_header :: "bool \<Rightarrow> rawsock_msg_type \<Rightarrow> bytes \<Rightarrow> u32" where
  "compute_header little t payload =
     header_to_big_endian little
       (header_set_length (length payload) (header_set_msg_type t header_new))"

lemma unat_low24: "unat ((word_of_nat n :: u32) AND 0x00FFFFFF) = n mod 2 ^ 24"
proof -
  have "unat (take_bit 24 (word_of_nat n :: u32)) = take_bit 24 (unat (word_of_nat n :: u32))"
    by (simp add: unsigned_take_bit_eq)
  also have "\<dots> = n mod 2 ^ 24"
    by (simp add: unsigned_of_nat take_bit_eq_mod mod_mod_cancel)
  finally show ?thesis by (simp add: word_masks take_bit_eq_mask)
qed

lemma low24_of_put:
  "(push_bit 24 t OR w) AND 0x00FFFFFF = w AND (0x00FFFFFF :: u32)"
  unfolding word_masks by (rule bit_word_eqI) (auto simp: bit_fields)

lemma high8_of_put:
  assumes "t < 256"
  shows "unat (drop_bit 24 ((push_bit 24 (word_of_nat t) OR (word_of_nat n :: u32)) AND 0xFF000000))
    = t OR (n div 2 ^ 24 mod 256)"
proof -
  have eq: "drop_bit 24 ((push_bit 24 (word_of_nat t) OR (word_of_nat n :: u32)) AND 0xFF000000) =
      take_bit 8 (word_of_nat t) OR take_bit 8 (drop_bit 24 (word_of_nat n :: u32))"
    unfolding word_masks by (rule bit_word_eqI) (auto simp: bit_fields)
  have 1: "unat (take_bit 8 (word_of_nat t :: u32)) = t"
    using assms by (simp add: unsigned_take_bit_eq unsigned_of_nat take_bit_nat_eq_self)
  have "n mod (16777216 * 256) div 16777216 = n div 16777216 mod (256 :: nat)"
    by (simp only: mod_mult2_eq)
  then have 2: "unat (take_bit 8 (drop_bit 24 (word_of_nat n :: u32))) = n div 2 ^ 24 mod 256"
    by (simp only: unsigned_take_bit_eq unsigned_drop_bit_eq unsigned_of_nat drop_bit_take_bit)
      (simp add: take_bit_eq_mod drop_bit_eq_div)
  show ?thesis unfolding eq unsigned_or_eq 1 2 ..
qed

subsection \<open>Handshake\<close>

text \<open>\<open>RawsockMaxLength\<close> numbers the sixteen sizes from \<open>B_512\<close> (0) to \<open>MB_16\<close> (15).\<close>

type_synonym rawsock_max_length = nat

record rawsock_handshake =
  hs :: u32

definition byte_length_of :: "rawsock_max_length \<Rightarrow> nat" where
  "byte_length_of len = unat (push_bit (len + 9) (1 :: u32))"

definition handshake_new :: rawsock_handshake where
  "handshake_new = \<lparr>hs = 0x7F000000\<rparr>"

definition handshake_from_big_endian :: "bool \<Rightarrow> u32 \<Rightarrow> rawsock_handshake" where
  "handshake_from_big_endian little big = \<lparr>hs = big_to_native32 little big\<rparr>"

definition handshake_to_big_endian :: "bool \<Rightarrow> rawsock_handshake \<Rightarrow> u32" where
  "handshake_to_big_endian little h = native_to_big32 little (hs h)"

definition e_unsupported_format :: rawsock_handshake where
  "e_unsupported_format = \<lparr>hs = 0x7F100000\<rparr>"

definition e_unacceptable_length :: rawsock_handshake where
  "e_unacceptable_length = \<lparr>hs = 0x7F200000\<rparr>"

definition e_reserved_bits_used :: rawsock_handshake where
  "e_reserved_bits_used = \<lparr>hs = 0x7F300000\<rparr>"

definition e_max_connections :: rawsock_handshake where
  "e_max_connections = \<lparr>hs = 0x7F400000\<rparr>"

definition handshake_reserved :: "rawsock_handshake \<Rightarrow> nat" where
  "handshake_reserved h = unat (hs h AND 0x0000FFFF)"

definition handshake_codec_id :: "rawsock_handshake \<Rightarrow> int" where
  "handshake_codec_id h = uint (drop_bit 16 (hs h AND 0x000F0000))"

definition handshake_max_length :: "rawsock_handshake \<Rightarrow> rawsock_max_length" where
  "handshake_max_length h = unat (drop_bit 20 (hs h AND 0x00F00000))"

definition handshake_max_length_in_bytes :: "rawsock_handshake \<Rightarrow> nat" where
  "handshake_max_length_in_bytes h = byte_length_of (handshake_max_length h)"

definition handshake_has_error :: "rawsock_handshake \<Rightarrow> bool" where
  "handshake_has_error h \<longleftrightarrow> hs h AND 0x000F0000 = 0"

definition handshake_error_code :: "rawsock_handshake \<Rightarrow> int" where
  "handshake_error_code h = uint (drop_bit 20 (hs h AND 0x00F00000))"

definition handshake_has_magic_octet :: "rawsock_handshake \<Rightarrow> bool" where
  "handshake_has_magic_octet h \<longleftrightarrow> hs h AND 0xFF000000 = 0x7F000000"

definition handshake_set_codec_id :: "int \<Rightarrow> rawsock_handshake \<Rightarrow> rawsock_handshake" where
  "handshake_set_codec_id c h = h\<lparr>hs := hs h OR push_bit 16 (word_of_int c)\<rparr>"

definition handshake_set_max_length :: "rawsock_max_length \<Rightarrow> rawsock_handshake \<Rightarrow> rawsock_handshake" where
  "handshake_set_max_length len h = h\<lparr>hs := hs h OR push_bit 20 (word_of_nat len)\<rparr>"

text \<open>\<open>hostOrderHandshakeBytes\<close> of the client's and of the server's default configuration\<close>

definition host_order_handshake_bytes :: "int \<Rightarrow> rawsock_max_length \<Rightarrow> u32" where
  "host_order_handshake_bytes codec_id max_rx_length =
     hs (handshake_set_max_length max_rx_length (handshake_set_codec_id codec_id handshake_new))"

lemma byte_length_of_eq: "len < 16 \<Longrightarrow> byte_length_of len = 2 ^ (len + 9)"
proof -
  assume "len < 16"
  then have "(2 :: nat) ^ (len + 9) < 2 ^ 32" by (intro power_strict_increasing) simp_all
  then show ?thesis
    unfolding byte_length_of_def
    by (simp only: unsigned_push_bit_eq) (simp add: push_bit_eq_mult take_bit_eq_mod)
qed

lemma bit_small_int:
  assumes "0 \<le> (c::int)" "c < 16" and "bit c m"
  shows "m < 4 \<and> m < 8 \<and> m < 11 \<and> m < 12 \<and> m < 16 \<and> m < 32"
proof -
  have "c = take_bit 4 c" using assms by (simp add: take_bit_int_eq_self)
  with assms(3) have "bit (take_bit 4 c) m" by simp
  then show ?thesis by (simp add: bit_take_bit_iff)
qed

lemma bit_small_nat:
  assumes "(c::nat) < 16" and "bit c m"
  shows "m < 4 \<and> m < 8 \<and> m < 11 \<and> m < 12 \<and> m < 16 \<and> m < 32"
proof -
  have "c = take_bit 4 c" using assms by (simp add: take_bit_nat_eq_self)
  with assms(2) have "bit (take_bit 4 c) m" by simp
  then show ?thesis by (simp add: bit_take_bit_iff)
qed

lemma bit_handshake_bytes:
  assumes "0 \<le> c" "c < 16" "l < 16"
  shows "bit (host_order_handshake_bytes c l) i \<longleftrightarrow>
    (24 \<le> i \<and> i < 31) \<or> (16 \<le> i \<and> i < 20 \<and> bit c (i - 16)) \<or>
    (20 \<le> i \<and> i < 24 \<and> bit l (i - 20))"
  using bit_small_int [OF assms(1,2), of "i - 16"] bit_small_nat [OF assms(3), of "i - 20"]
  unfolding host_order_handshake_bytes_def handshake_set_max_length_def
    handshake_set_codec_id_def handshake_new_def word_masks
  by (auto simp: bit_fields bit_word_of_int_iff bit_of_nat_iff possible_bit_word)

lemma handshake_fields:
  assumes "0 \<le> c" "c < 16" "l < 16"
  defines "h \<equiv> \<lparr>hs = host_order_handshake_bytes c l\<rparr>"
  shows "handshake_codec_id h = c" and "handshake_max_length h = l"
    and "handshake_has_magic_octet h" and "handshake_reserved h = 0"
    and "handshake_has_error h \<longleftrightarrow> c = 0"
proof -
  note b = bit_handshake_bytes [OF assms(1-3)]
  have codec: "drop_bit 16 (hs h AND 0x000F0000) = word_of_int c"
    using bit_small_int [OF assms(1,2)] unfolding word_masks h_def
    by (intro bit_word_eqI) (auto simp: bit_fields b bit_word_of_int_iff)
  then show "handshake_codec_id h = c"
    using assms(1,2) by (simp add: handshake_codec_id_def unsigned_of_int take_bit_int_eq_self)
  have "drop_bit 20 (hs h AND 0x00F00000) = word_of_nat l"
    using bit_small_nat [OF assms(3)] unfolding word_masks h_def
    by (intro bit_word_eqI) (auto simp: bit_fields b bit_of_nat_iff possible_bit_word)
  then show "handshake_max_length h = l"
    using assms(3) by (simp add: handshake_max_length_def unsigned_of_nat take_bit_nat_eq_self)
  have "hs h AND 0xFF000000 = 0x7F000000"
    unfolding word_masks h_def by (rule bit_word_eqI) (auto simp: bit_fields b)
  then show "handshake_has_magic_octet h" by (simp add: handshake_has_magic_octet_def)
  have "hs h AND 0x0000FFFF = 0"
    unfolding word_masks h_def by (rule bit_word_eqI) (auto simp: bit_fields b)
  then show "handshake_reserved h = 0" by (simp add: handshake_reserved_def)
  have "hs h AND 0x000F0000 = 0" if "c = 0"
  proof -
    have b0: "bit (host_order_handshake_bytes c l) i \<longleftrightarrow>
      (24 \<le> i \<and> i < 31) \<or> (20 \<le> i \<and> i < 24 \<and> bit l (i - 20))" for i
      using that b [of i] by simp
    show ?thesis
      unfolding word_masks h_def by (intro bit_word_eqI) (auto simp: bit_fields b0)
  qed
  moreover have "c = 0" if "hs h AND 0x000F0000 = 0"
    using that \<open>handshake_codec_id h = c\<close> by (simp add: handshake_codec_id_def)
  ultimately show "handshake_has_error h \<longleftrightarrow> c = 0"
    by (auto simp: handshake_has_error_def)
qed

lemma handshake_of_wire [simp]:
  "handshake_from_big_endian little (handshake_to_big_endian little h) = h"
  by (simp add: handshake_from_big_endian_def handshake_to_big_endian_def wire.from_to)

lemma error_handshakes:
  "handshake_has_error e_unsupported_format" "handshake_error_code e_unsupported_format = 1"
  "handshake_has_error e_unacceptable_length" "handshake_error_code e_unacceptable_length = 2"
  "handshake_has_error e_reserved_bits_used" "handshake_error_code e_reserved_bits_used = 3"
  "handshake_has_error e_max_connections" "handshake_error_code e_max_connections = 4"
  by (simp_all add: e_unsupported_format_def e_unacceptable_length_def e_reserved_bits_used_def
      e_max_connections_def handshake_has_error_def handshake_error_code_def)



subsection \<open>Frames on the wire\<close>

text \<open>The header that a host makes of the four bytes another host has sent.\<close>

definition received_header :: "bool \<Rightarrow> bytes \<Rightarrow> rawsock_header" where
  "received_header little bytes = header_from_big_endian little (word_of_memory little bytes)"

lemma received_compute_header:
  "received_header l' (memory_of_word l (compute_header l t payload)) =
     header_set_length (length payload) (header_set_msg_type t header_new)"
  by (simp add: received_header_def header_from_big_endian_def compute_header_def
      header_to_big_endian_def wire_word_roundtrip)

lemma received_header_length:
  "header_length (received_header l' (memory_of_word l (compute_header l t payload))) =
     length payload mod 2 ^ 24"
  unfolding received_compute_header header_length_def header_set_length_def
    header_set_msg_type_def header_new_def
  by (simp only: rawsock_header.simps or.left_neutral low24_of_put unat_low24)

lemma received_header_type:
  "rawsock_type_code t < 256 \<Longrightarrow>
   header_msg_type (received_header l' (memory_of_word l (compute_header l t payload))) =
     rawsock_type_of_code (rawsock_type_code t OR (length payload div 2 ^ 24 mod 256))"
  unfolding received_compute_header header_msg_type_def header_set_length_def
    header_set_msg_type_def header_new_def
  by (simp only: rawsock_header.simps or.left_neutral high8_of_put)

text \<open>
  C25: a frame shorter than \<open>2\<^sup>2\<^sup>4\<close> bytes has a header from which the receiver, whatever the
  byte orders of the two hosts, reads back its type and its length, and accepts the type.
\<close>

theorem frame_header_roundtrip:
  assumes "length payload < 2 ^ 24" and "t \<in> {Msg_wamp, Msg_ping, Msg_pong}"
  shows "let h = received_header l' (memory_of_word l (compute_header l t payload)) in
     header_msg_type h = t \<and> header_length h = length payload \<and> header_msg_type_is_valid h"
proof -
  have "header_msg_type (received_header l' (memory_of_word l (compute_header l t payload))) = t"
    using assms by (auto simp: received_header_type rawsock_type_of_code_def)
  then show ?thesis
    using assms by (auto simp: received_header_length header_msg_type_is_valid_def)
qed

theorem frame_header_roundtrip_witness:
  "let h = received_header True (memory_of_word False (compute_header False Msg_pong [1, 2, 3])) in
     header_msg_type h = Msg_pong \<and> header_length h = length [1 :: byte, 2, 3] \<and>
     header_msg_type_is_valid h"
  by (rule frame_header_roundtrip) simp_all

text \<open>
  A WAMP message of exactly \<open>2\<^sup>2\<^sup>4\<close> bytes, the length \<open>byteLengthOf(MB_16)\<close> that the
  handshake lets a peer announce and that the sender's check admits, is framed as an empty
  ping: the length overflows into the type byte.
\<close>

theorem frame_header_overflow:
  assumes "length payload = byte_length_of 15"
  shows "let h = received_header l' (memory_of_word l (compute_header l Msg_wamp payload)) in
     header_msg_type h = Msg_ping \<and> header_length h = 0"
  using assms
  by (simp add: received_header_length received_header_type rawsock_type_of_code_def
      byte_length_of_eq)

theorem frame_header_overflow_witness:
  "let h = received_header True (memory_of_word True (compute_header True Msg_wamp
       (replicate (byte_length_of 15) 0))) in
     header_msg_type h = Msg_ping \<and> header_length h = 0"
  by (rule frame_header_overflow) (rule length_replicate)

end
