(* ===== verification/Rawsock_Transport.thy ===== *)
theory Rawsock_Transport
  imports Rawsock_Header
begin

section \<open>Raw socket transport (\<open>internal/rawsocktransport.hpp\<close>)\<close>

text \<open>
  \<open>RawsockTransport\<close> as a state machine.  Its methods and the completion handlers it gives
  to Asio are events; what it asks of the socket and of its user are effects.  The handlers
  \<open>rxHandler_\<close>, \<open>txErrorHandler_\<close> and \<open>pingHandler_\<close> are only ever called or cleared, so the
  state records whether they are set.  \<open>rx_op\<close> and \<open>tx_op\<close> stand for the completion handlers
  that Asio holds: which read is outstanding, with what its lambda captured, and whether a
  write is outstanding.  A completion for which no handler is held does nothing.  An error
  code of Asio is an \<open>int\<close>, 0 meaning success.  A violated \<open>assert\<close> and an undefined
  operation are effects, so that a theorem can say that they do not occur.
\<close>

record frame =
  fr_header :: u32
  fr_payload :: bytes

datatype read_op = No_read | Reading_header | Reading_payload rawsock_msg_type nat

record transport_info =
  codec_id :: int
  max_tx_length :: nat
  max_rx_length :: nat

datatype socket_state = Socket_null | Socket_open | Socket_closed

record transport =
  little_endian :: bool
  socket :: socket_state
  info :: transport_info
  running :: bool
  rx_handler :: bool
  tx_error_handler :: bool
  ping_handler :: bool
  rx_frame :: frame
  tx_queue :: "frame list"
  tx_frame :: "frame option"
  ping_frame :: "frame option"
  rx_op :: read_op
  tx_op :: bool

datatype transport_effect =
    Async_read_header
  | Async_read_payload rawsock_msg_type nat
  | Async_write frame
  | Post_rx "error_code + bytes"
  | Call_tx_error error_code
  | Post_ping
  | Close_socket
  | Assert_failed string
  | Undefined_behaviour string

datatype transport_event =
    Start
  | Send bytes
  | Close
  | Ping bytes
  | Read_done int bytes
  | Write_done int

definition empty_frame :: frame where
  "empty_frame = \<lparr>fr_header = 0, fr_payload = []\<rparr>"

definition transport_create :: "bool \<Rightarrow> transport_info \<Rightarrow> transport" where
  "transport_create little i = \<lparr>little_endian = little, socket = Socket_open, info = i,
     running = False, rx_handler = False, tx_error_handler = False, ping_handler = False,
     rx_frame = empty_frame, tx_queue = [], tx_frame = None, ping_frame = None,
     rx_op = No_read, tx_op = False\<rparr>"

definition enframe :: "bool \<Rightarrow> rawsock_msg_type \<Rightarrow> bytes \<Rightarrow> frame" where
  "enframe little t payload = \<lparr>fr_header = compute_header little t payload, fr_payload = payload\<rparr>"

definition assert_that :: "bool \<Rightarrow> string \<Rightarrow> transport_effect list" where
  "assert_that b what = (if b then [] else [Assert_failed what])"

definition cleanup :: "transport \<Rightarrow> transport" where
  "cleanup t = t\<lparr>rx_handler := False, tx_error_handler := False, ping_handler := False,
     rx_frame := empty_frame, tx_queue := [], tx_frame := None, ping_frame := None,
     socket := Socket_null\<rparr>"

text \<open>The two overloads of \<open>check\<close>: the new state, the effects, and whether to go on.\<close>

definition check_ec :: "int \<Rightarrow> transport \<Rightarrow> transport \<times> transport_effect list \<times> bool" where
  "check_ec ec t =
     (if ec \<noteq> 0 then
        (cleanup t, (if rx_handler t then [Post_rx (Inl (errc_of_asio ec))] else []), False)
      else (t, [], True))"

definition check_cond :: "bool \<Rightarrow> error_code \<Rightarrow> transport \<Rightarrow> transport \<times> transport_effect list \<times> bool" where
  "check_cond b ec t =
     (if \<not> b then (cleanup t, (if rx_handler t then [Post_rx (Inl ec)] else []), False)
      else (t, [], True))"

definition is_ready_to_transmit :: "transport \<Rightarrow> bool" where
  "is_ready_to_transmit t \<longleftrightarrow> socket t \<noteq> Socket_null \<and> tx_frame t = None \<and> tx_queue t \<noteq> []"

definition transmit :: "transport \<Rightarrow> transport \<times> transport_effect list" where
  "transmit t =
     (if is_ready_to_transmit t then
        (t\<lparr>tx_frame := Some (hd (tx_queue t)), tx_queue := tl (tx_queue t), tx_op := True\<rparr>,
         [Async_write (hd (tx_queue t))])
      else (t, []))"

definition send_frame :: "frame \<Rightarrow> transport \<Rightarrow> transport \<times> transport_effect list" where
  "send_frame f t =
     (let asserts = assert_that (socket t \<noteq> Socket_null) ''Attempting to send on bad transport'' @
            assert_that (length (fr_payload f) \<le> max_tx_length (info t))
              ''Outgoing message is longer than allowed by peer'';
          (t', out) = transmit (t\<lparr>tx_queue := tx_queue t @ [f]\<rparr>)
      in (t', asserts @ out))"

definition receive :: "transport \<Rightarrow> transport \<times> transport_effect list" where
  "receive t =
     (if socket t \<noteq> Socket_null then
        (t\<lparr>rx_frame := empty_frame, rx_op := Reading_header\<rparr>, [Async_read_header])
      else (t, []))"

text \<open>\<open>payloadBuffer\<close> takes the address of \<open>payload_.front()\<close>, undefined for an empty payload.\<close>

definition receive_payload :: "rawsock_msg_type \<Rightarrow> nat \<Rightarrow> transport \<Rightarrow> transport \<times> transport_effect list" where
  "receive_payload ty len t =
     (t\<lparr>rx_frame := (rx_frame t)\<lparr>fr_payload := replicate len 0\<rparr>, rx_op := Reading_payload ty len\<rparr>,
      (if len = 0 then [Undefined_behaviour ''front() of an empty payload''] else []) @
      [Async_read_payload ty len])"

definition process_header :: "transport \<Rightarrow> transport \<times> transport_effect list" where
  "process_header t =
     (let h = header_from_big_endian (little_endian t) (fr_header (rx_frame t));
          len = header_length h;
          (t1, out1, ok1) =
            check_cond (len \<le> max_rx_length (info t)) (transport_ec TE_badRxLength) t
      in if \<not> ok1 then (t1, out1)
         else
           let (t2, out2, ok2) =
                 check_cond (header_msg_type_is_valid h) (rawsock_ec RE_badMessageType) t1
           in if \<not> ok2 then (t2, out1 @ out2)
              else let (t3, out3) = receive_payload (header_msg_type h) len t2
                   in (t3, out1 @ out2 @ out3))"

definition send_pong :: "transport \<Rightarrow> transport \<times> transport_effect list" where
  "send_pong t =
     (let f = enframe (little_endian t) Msg_pong (fr_payload (rx_frame t));
          (t1, out1) = send_frame f t;
          (t2, out2) = receive t1
      in (t2, out1 @ out2))"

definition can_process_pong :: "transport \<Rightarrow> bool" where
  "can_process_pong t \<longleftrightarrow> ping_handler t \<and>
     (case ping_frame t of None \<Rightarrow> False
      | Some f \<Rightarrow> fr_payload (rx_frame t) = fr_payload f)"

definition receive_pong :: "transport \<Rightarrow> transport \<times> transport_effect list" where
  "receive_pong t =
     (let (t1, out1) = (if can_process_pong t then (t\<lparr>ping_handler := False\<rparr>, [Post_ping])
                        else (t, []));
          (t2, out2) = receive (t1\<lparr>ping_frame := None\<rparr>)
      in (t2, out1 @ out2))"

text \<open>The completion handler of the payload read.\<close>

definition on_payload_read :: "rawsock_msg_type \<Rightarrow> int \<Rightarrow> transport \<Rightarrow> transport \<times> transport_effect list" where
  "on_payload_read ty ec t =
     (let t0 = (if ec \<noteq> 0 then t\<lparr>rx_frame := empty_frame\<rparr> else t);
          (t1, out1, ok) = check_ec ec t0
      in if ok \<and> running t1 then
           (case ty of
              Msg_wamp \<Rightarrow>
                (let (t2, out2) = receive t1
                 in (t2, out1 @ (if rx_handler t1 then [Post_rx (Inr (fr_payload (rx_frame t1)))]
                                 else []) @ out2))
            | Msg_ping \<Rightarrow> (let (t2, out2) = send_pong t1 in (t2, out1 @ out2))
            | Msg_pong \<Rightarrow> (let (t2, out2) = receive_pong t1 in (t2, out1 @ out2))
            | Msg_other _ \<Rightarrow> (t1, out1 @ [Assert_failed ''unexpected RawsockMsgType'']))
         else (t1, out1))"

definition on_header_read :: "int \<Rightarrow> transport \<Rightarrow> transport \<times> transport_effect list" where
  "on_header_read ec t =
     (let (t1, out1, ok) = check_ec ec t
      in if ok then let (t2, out2) = process_header t1 in (t2, out1 @ out2) else (t1, out1))"

text \<open>The completion handler of the write.\<close>

definition on_written :: "int \<Rightarrow> transport \<Rightarrow> transport \<times> transport_effect list" where
  "on_written ec t =
     (let t1 = t\<lparr>tx_frame := None\<rparr>
      in if ec \<noteq> 0 then
           (t1\<lparr>tx_queue := [], socket := Socket_null\<rparr>,
            (if tx_error_handler t1 then [Call_tx_error (errc_of_asio ec)] else []))
         else transmit t1)"

definition transport_start :: "transport \<Rightarrow> transport \<times> transport_effect list" where
  "transport_start t =
     (let (t1, out) = receive (t\<lparr>rx_handler := True, tx_error_handler := True\<rparr>)
      in (t1\<lparr>running := True\<rparr>, assert_that (\<not> running t) ''not started'' @ out))"

definition transport_send :: "bytes \<Rightarrow> transport \<Rightarrow> transport \<times> transport_effect list" where
  "transport_send message t =
     (let (t1, out) = send_frame (enframe (little_endian t) Msg_wamp message) t
      in (t1, assert_that (running t) ''running'' @ out))"

definition transport_close :: "transport \<Rightarrow> transport \<times> transport_effect list" where
  "transport_close t =
     (t\<lparr>rx_handler := False, tx_error_handler := False, tx_queue := [], running := False,
        socket := (if socket t = Socket_null then Socket_null else Socket_closed)\<rparr>,
      (if socket t = Socket_null then [] else [Close_socket]))"

definition transport_ping :: "bytes \<Rightarrow> transport \<Rightarrow> transport \<times> transport_effect list" where
  "transport_ping message t =
     (let f = enframe (little_endian t) Msg_ping message;
          (t1, out) = send_frame f (t\<lparr>ping_handler := True, ping_frame := Some f\<rparr>)
      in (t1, assert_that (running t) ''running'' @ out))"

fun transport_step :: "transport \<Rightarrow> transport_event \<Rightarrow> transport \<times> transport_effect list" where
  "transport_step t Start = transport_start t"
| "transport_step t (Send m) = transport_send m t"
| "transport_step t Close = transport_close t"
| "transport_step t (Ping m) = transport_ping m t"
| "transport_step t (Read_done ec data) =
     (case rx_op t of
        No_read \<Rightarrow> (t, [])
      | Reading_header \<Rightarrow>
          on_header_read ec
            (t\<lparr>rx_op := No_read,
               rx_frame := (rx_frame t)\<lparr>fr_header := word_of_memory (little_endian t) data\<rparr>\<rparr>)
      | Reading_payload ty len \<Rightarrow>
          on_payload_read ty ec
            (t\<lparr>rx_op := No_read, rx_frame := (rx_frame t)\<lparr>fr_payload := data\<rparr>\<rparr>))"
| "transport_step t (Write_done ec) =
     (if tx_op t then on_written ec (t\<lparr>tx_op := False\<rparr>) else (t, []))"

lemmas transport_ops [step_simps] = transport_start_def transport_send_def transport_close_def
  transport_ping_def on_written_def on_header_read_def on_payload_read_def receive_pong_def
  send_pong_def process_header_def receive_payload_def receive_def send_frame_def transmit_def
  check_cond_def check_ec_def cleanup_def assert_that_def

subsection \<open>What the transport keeps true\<close>

text \<open>
  At most one write is outstanding, nothing waits in the queue while the line is idle, and an
  outstanding payload read is for a valid frame type within the receive limit.
\<close>

definition valid_types :: "rawsock_msg_type set" where
  "valid_types = {Msg_wamp, Msg_ping, Msg_pong}"

lemma header_type_valid_iff: "header_msg_type_is_valid h \<longleftrightarrow> header_msg_type h \<in> valid_types"
  by (simp add: header_msg_type_is_valid_def valid_types_def)

definition transport_ok :: "transport_info \<Rightarrow> transport \<Rightarrow> bool" where
  "transport_ok i t \<longleftrightarrow> info t = i \<and>
     (tx_frame t \<noteq> None \<longrightarrow> tx_op t) \<and>
     (tx_op t \<longrightarrow> tx_frame t \<noteq> None \<or> socket t = Socket_null) \<and>
     (socket t \<noteq> Socket_null \<and> tx_frame t = None \<longrightarrow> tx_queue t = []) \<and>
     (\<forall>ty n. rx_op t = Reading_payload ty n \<longrightarrow> ty \<in> valid_types \<and> n \<le> max_rx_length i)"

definition effect_ok :: "transport_info \<Rightarrow> transport_effect \<Rightarrow> bool" where
  "effect_ok i x =
     (case x of
        Async_read_payload ty n \<Rightarrow> ty \<in> valid_types \<and> n \<le> max_rx_length i
      | Assert_failed s \<Rightarrow> s \<noteq> ''unexpected RawsockMsgType''
      | _ \<Rightarrow> True)"

definition outcome_ok :: "transport_info \<Rightarrow> transport \<times> transport_effect list \<Rightarrow> bool" where
  "outcome_ok i r \<longleftrightarrow> transport_ok i (fst r) \<and> (\<forall>x \<in> set (snd r). effect_ok i x)"

lemma effect_ok_simps [simp]:
  "effect_ok i (Async_read_payload ty n) \<longleftrightarrow> ty \<in> valid_types \<and> n \<le> max_rx_length i"
  "effect_ok i (Assert_failed s) \<longleftrightarrow> s \<noteq> ''unexpected RawsockMsgType''"
  "effect_ok i Async_read_header" "effect_ok i (Async_write f)" "effect_ok i (Post_rx r)"
  "effect_ok i (Call_tx_error ec)" "effect_ok i Post_ping" "effect_ok i Close_socket"
  "effect_ok i (Undefined_behaviour s)"
  by (simp_all add: effect_ok_def)

lemma transport_ok_handlers:
  assumes "transport_ok i t"
  shows "transport_ok i (t\<lparr>rx_frame := f\<rparr>)" "transport_ok i (t\<lparr>ping_frame := g\<rparr>)"
    "transport_ok i (t\<lparr>ping_handler := b\<rparr>)" "transport_ok i (t\<lparr>rx_op := No_read\<rparr>)"
    "transport_ok i (t\<lparr>rx_handler := b, tx_error_handler := c\<rparr>)"
    "transport_ok i (t\<lparr>running := b\<rparr>)" "transport_ok i (cleanup t)"
  using assms by (auto simp: transport_ok_def cleanup_def)

lemma send_frame_ok: "transport_ok i t \<Longrightarrow> outcome_ok i (send_frame f t)"
  by (auto simp: outcome_ok_def transport_ok_def send_frame_def transmit_def assert_that_def
      is_ready_to_transmit_def Let_def)

lemma receive_ok: "transport_ok i t \<Longrightarrow> outcome_ok i (receive t)"
  by (auto simp: outcome_ok_def transport_ok_def receive_def)

lemma process_header_ok: "transport_ok i t \<Longrightarrow> outcome_ok i (process_header t)"
  using transport_ok_handlers [of i t]
  by (auto simp: outcome_ok_def process_header_def check_cond_def receive_payload_def
      header_type_valid_iff transport_ok_def Let_def)

lemma send_pong_ok: "transport_ok i t \<Longrightarrow> outcome_ok i (send_pong t)"
  using send_frame_ok [of i t "enframe (little_endian t) Msg_pong (fr_payload (rx_frame t))"]
    receive_ok [of i "fst (send_frame (enframe (little_endian t) Msg_pong
      (fr_payload (rx_frame t))) t)"]
  by (auto simp: outcome_ok_def send_pong_def Let_def case_prod_beta)

lemma receive_pong_ok:
  assumes t: "transport_ok i t"
  shows "outcome_ok i (receive_pong t)"
proof -
  have "outcome_ok i (receive (t\<lparr>ping_handler := False, ping_frame := None\<rparr>))"
    "outcome_ok i (receive (t\<lparr>ping_frame := None\<rparr>))"
    by (intro receive_ok transport_ok_handlers t)+
  then show ?thesis by (auto simp: outcome_ok_def receive_pong_def case_prod_beta Let_def)
qed

lemma check_ec_ok:
  "transport_ok i t \<Longrightarrow> transport_ok i (fst (check_ec ec t)) \<and>
     (\<forall>x \<in> set (fst (snd (check_ec ec t))). effect_ok i x)"
  by (simp add: check_ec_def transport_ok_handlers)

lemma on_payload_read_ok:
  assumes t: "transport_ok i t" and ty: "ty \<in> valid_types"
  shows "outcome_ok i (on_payload_read ty ec t)"
proof (cases "ec = 0 \<and> running t")
  case True
  with ty receive_ok [OF t] send_pong_ok [OF t] receive_pong_ok [OF t] show ?thesis
    by (auto simp: outcome_ok_def on_payload_read_def check_ec_def valid_types_def case_prod_beta
        Let_def)
next
  case False
  with t show ?thesis
    by (auto simp: outcome_ok_def on_payload_read_def check_ec_def Let_def
        intro: transport_ok_handlers)
qed

lemma on_header_read_ok: "transport_ok i t \<Longrightarrow> outcome_ok i (on_header_read ec t)"
  using process_header_ok [of i t]
  by (auto simp: outcome_ok_def on_header_read_def check_ec_def case_prod_beta
      intro: transport_ok_handlers)

lemma transport_step_ok:
  assumes t: "transport_ok i t"
  shows "outcome_ok i (transport_step t e)"
proof (cases e)
  case Start
  have "outcome_ok i (receive (t\<lparr>rx_handler := True, tx_error_handler := True\<rparr>))"
    by (intro receive_ok transport_ok_handlers t)
  with Start show ?thesis
    by (auto simp: outcome_ok_def transport_start_def assert_that_def case_prod_beta
        intro: transport_ok_handlers)
next
  case (Send m)
  with send_frame_ok [OF t, of "enframe (little_endian t) Msg_wamp m"] show ?thesis
    by (auto simp: outcome_ok_def transport_send_def assert_that_def case_prod_beta)
next
  case Close
  with t show ?thesis by (auto simp: outcome_ok_def transport_close_def transport_ok_def)
next
  case (Ping m)
  let ?f = "enframe (little_endian t) Msg_ping m"
  have "outcome_ok i (send_frame ?f (t\<lparr>ping_handler := True, ping_frame := Some ?f\<rparr>))"
    by (intro send_frame_ok transport_ok_handlers t)
  with Ping show ?thesis
    by (auto simp: outcome_ok_def transport_ping_def assert_that_def Let_def case_prod_beta)
next
  case (Read_done ec data)
  have ok: "transport_ok i (t\<lparr>rx_op := No_read, rx_frame := f\<rparr>)" for f
    by (intro transport_ok_handlers t)
  show ?thesis
  proof (cases "rx_op t")
    case (Reading_payload ty n)
    with t have "ty \<in> valid_types" by (simp add: transport_ok_def)
    with Read_done Reading_payload on_payload_read_ok [OF ok] show ?thesis by simp
  qed (use Read_done t on_header_read_ok [OF ok] in \<open>simp_all add: outcome_ok_def\<close>)
next
  case (Write_done ec)
  with t show ?thesis
    by (auto simp: outcome_ok_def on_written_def transmit_def is_ready_to_transmit_def
        transport_ok_def Let_def)
qed

interpretation tp: machine_outputs transport_step "transport_ok i" "effect_ok i" for i
  using transport_step_ok by unfold_locales (auto simp: outcome_ok_def)

lemma transport_ok_create: "transport_ok i (transport_create little i)"
  by (simp add: transport_ok_def transport_create_def)

text \<open>
  C37: whatever the peer sends and whatever the user does, a transport that starts with the
  negotiated limits never starts a payload read for an unknown frame type or for more bytes
  than the negotiated maximum receive length.
\<close>

theorem payload_reads_bounded:
  assumes "Async_read_payload ty n \<in> set (snd (run_machine transport_step (transport_create little i) es))"
  shows "ty \<in> {Msg_wamp, Msg_ping, Msg_pong} \<and> n \<le> max_rx_length i"
  using tp.run_good [OF transport_ok_create assms]
  by (simp add: effect_ok_def valid_types_def)

subsection \<open>What the user observes\<close>

text \<open>The calls of the receive handler among a list of effects.\<close>

definition posts :: "transport_effect list \<Rightarrow> (error_code + bytes) list" where
  "posts xs = concat (map (\<lambda>x. case x of Post_rx r \<Rightarrow> [r] | _ \<Rightarrow> []) xs)"

lemma posts_simps [simp]:
  "posts [] = []" "posts (Post_rx r # xs) = r # posts xs" "posts (xs @ ys) = posts xs @ posts ys"
  "posts (Async_read_header # xs) = posts xs" "posts (Async_read_payload ty n # xs) = posts xs"
  "posts (Async_write f # xs) = posts xs" "posts (Call_tx_error ec # xs) = posts xs"
  "posts (Post_ping # xs) = posts xs" "posts (Close_socket # xs) = posts xs"
  "posts (Assert_failed s # xs) = posts xs" "posts (Undefined_behaviour s # xs) = posts xs"
  by (simp_all add: posts_def)

text \<open>The two completions that one frame of another host causes at this one.\<close>

definition frame_events :: "bool \<Rightarrow> rawsock_msg_type \<Rightarrow> bytes \<Rightarrow> transport_event list" where
  "frame_events l ty m = [Read_done 0 (memory_of_word l (compute_header l ty m)), Read_done 0 m]"

definition listening :: "transport \<Rightarrow> bool" where
  "listening t \<longleftrightarrow> running t \<and> rx_handler t \<and> socket t = Socket_open \<and> rx_op t = Reading_header"

lemma run_frame_events:
  assumes t: "listening t" and m: "0 < length m" "length m < 2 ^ 24" "length m \<le> max_rx_length (info t)"
    and ty: "ty \<in> valid_types"
  shows "run_machine transport_step t (frame_events l ty m) =
    (let t1 = t\<lparr>rx_op := No_read, rx_frame := (rx_frame t)\<lparr>
          fr_header := word_of_memory (little_endian t) (memory_of_word l (compute_header l ty m)),
          fr_payload := m\<rparr>\<rparr>; (t2, out) = on_payload_read ty 0 t1
     in (t2, Async_read_payload ty (length m) # out))"
proof -
  have hdr: "header_msg_type (header_from_big_endian (little_endian t)
        (word_of_memory (little_endian t) (memory_of_word l (compute_header l ty m)))) = ty"
      "header_length (header_from_big_endian (little_endian t)
        (word_of_memory (little_endian t) (memory_of_word l (compute_header l ty m)))) = length m"
    using m ty received_header_type [of ty "little_endian t" l m] received_header_length [of "little_endian t" l ty m]
    by (auto simp: received_header_def valid_types_def rawsock_type_of_code_def)
  then show ?thesis
    using t m ty
    by (simp add: frame_events_def listening_def on_header_read_def check_ec_def process_header_def
        check_cond_def header_type_valid_iff receive_payload_def Let_def case_prod_beta)
qed

lemma deliver_one:
  assumes "listening t" and "0 < length m" "length m < 2 ^ 24" "length m \<le> max_rx_length (info t)"
  shows "let r = run_machine transport_step t (frame_events l Msg_wamp m) in
    listening (fst r) \<and> info (fst r) = info t \<and> posts (snd r) = [Inr m]"
  using assms
  by (simp add: run_frame_events valid_types_def on_payload_read_def check_ec_def receive_def
      listening_def Let_def)

text \<open>
  C8: when the peer's frames arrive on a listening transport, the receive handler gets exactly
  the messages the peer enframed, in order, whatever the byte orders of the two hosts.
\<close>

theorem messages_delivered:
  assumes "listening t"
    and "\<forall>m \<in> set ms. 0 < length m \<and> length m < 2 ^ 24 \<and> length m \<le> max_rx_length (info t)"
  shows "posts (snd (run_machine transport_step t (concat (map (frame_events l Msg_wamp) ms)))) =
    map Inr ms"
  using assms
proof (induction ms arbitrary: t)
  case Nil
  then show ?case by simp
next
  case (Cons m ms)
  let ?r = "run_machine transport_step t (frame_events l Msg_wamp m)"
  have "listening (fst ?r)" "info (fst ?r) = info t" "posts (snd ?r) = [Inr m]"
    using deliver_one [of t m l] Cons.prems by (simp_all add: Let_def)
  with Cons.IH [of "fst ?r"] Cons.prems show ?case
    by (simp add: run_machine_append Let_def case_prod_beta)
qed

text \<open>The messages the user sends, and those handed to the socket.\<close>

fun sent :: "transport_event list \<Rightarrow> bytes list" where
  "sent [] = []"
| "sent (Send m # es) = m # sent es"
| "sent (_ # es) = sent es"

definition written :: "transport_effect list \<Rightarrow> bytes list" where
  "written xs = concat (map (\<lambda>x. case x of Async_write f \<Rightarrow> [fr_payload f] | _ \<Rightarrow> []) xs)"

lemma written_simps [simp]:
  "written [] = []" "written (Post_rx r # xs) = written xs" "written (xs @ ys) = written xs @ written ys"
  "written (Async_write f # xs) = fr_payload f # written xs" "written (Assert_failed s # xs) = written xs"
  by (simp_all add: written_def)

definition sending :: "transport \<Rightarrow> bool" where
  "sending t \<longleftrightarrow> socket t = Socket_open \<and> running t \<and> (tx_op t \<longleftrightarrow> tx_frame t \<noteq> None) \<and>
     (tx_frame t = None \<longrightarrow> tx_queue t = [])"

lemma send_step:
  assumes "sending t" and "e = Send m \<or> e = Write_done 0"
  shows "let r = transport_step t e in sending (fst r) \<and>
     written (snd r) @ map fr_payload (tx_queue (fst r)) = map fr_payload (tx_queue t) @ sent [e]"
  using assms
  by (cases "tx_queue t")
    (auto simp: sending_def transport_send_def send_frame_def transmit_def is_ready_to_transmit_def
      on_written_def assert_that_def enframe_def Let_def)


text \<open>What an operation may report to the receive handler.\<close>

definition reports :: "transport \<Rightarrow> transport \<times> transport_effect list \<Rightarrow> bool" where
  "reports t r \<longleftrightarrow>
     (posts (snd r) = [] \<and> (rx_handler (fst r) \<longrightarrow> rx_handler t)) \<or>
     (rx_handler t \<and> (\<exists>m. posts (snd r) = [Inr m])) \<or>
     (rx_handler t \<and> \<not> rx_handler (fst r) \<and> (\<exists>ec. posts (snd r) = [Inl ec]))"

lemma send_frame_silent [simp]:
  "rx_handler (fst (send_frame f t)) = rx_handler t" "posts (snd (send_frame f t)) = []"
  by (auto simp: send_frame_def transmit_def assert_that_def Let_def)

lemma receive_silent [simp]:
  "rx_handler (fst (receive t)) = rx_handler t" "posts (snd (receive t)) = []"
  by (auto simp: receive_def)

lemma send_pong_silent [simp]:
  "rx_handler (fst (send_pong t)) = rx_handler t" "posts (snd (send_pong t)) = []"
  by (auto simp: send_pong_def Let_def case_prod_beta)

lemma receive_pong_silent [simp]:
  "rx_handler (fst (receive_pong t)) = rx_handler t" "posts (snd (receive_pong t)) = []"
  by (auto simp: receive_pong_def Let_def case_prod_beta)

lemma header_read_reports: "reports t (on_header_read ec t)"
  by (auto simp: reports_def on_header_read_def check_ec_def cleanup_def process_header_def
      check_cond_def receive_payload_def Let_def case_prod_beta)

lemma payload_read_reports: "reports t (on_payload_read ty ec t)"
proof (cases "ec = 0 \<and> running t")
  case True
  then show ?thesis
    by (cases ty) (auto simp: reports_def on_payload_read_def check_ec_def Let_def case_prod_beta)
next
  case False
  then show ?thesis
    by (auto simp: reports_def on_payload_read_def check_ec_def cleanup_def Let_def)
qed

lemma reports_cong: "reports t r \<Longrightarrow> rx_handler t = rx_handler u \<Longrightarrow> reports u r"
  by (auto simp: reports_def)

lemma step_reports:
  assumes "e \<noteq> Start"
  shows "reports t (transport_step t e)"
proof (cases e)
  case (Send m)
  then show ?thesis
    by (auto simp: reports_def transport_send_def assert_that_def case_prod_beta)
next
  case (Ping m)
  then show ?thesis
    by (auto simp: reports_def transport_ping_def assert_that_def case_prod_beta Let_def)
next
  case (Read_done ec data)
  then show ?thesis
    by (cases "rx_op t")
      (auto simp: reports_def [of t "(t, [])"]
        intro: reports_cong [OF header_read_reports] reports_cong [OF payload_read_reports])
next
  case (Write_done ec)
  then show ?thesis
    by (auto simp: reports_def on_written_def transmit_def Let_def)
qed (use assms in \<open>auto simp: reports_def transport_close_def\<close>)

lemma run_without_handler:
  "Start \<notin> set es \<Longrightarrow> \<not> rx_handler t \<Longrightarrow> posts (snd (run_machine transport_step t es)) = []"
proof (induction es arbitrary: t)
  case (Cons e es)
  with step_reports [of e t] show ?case
    by (auto simp: reports_def run_machine_Cons_snd simp del: run_machine.simps)
qed simp

text \<open>
  After start, in every run, the receive handler is given messages and then at most one
  error, after which it is never called again.
\<close>

theorem error_reported_last:
  assumes "Start \<notin> set es"
  shows "\<exists>ms. posts (snd (run_machine transport_step t es)) = map Inr ms \<or>
    (\<exists>ec. posts (snd (run_machine transport_step t es)) = map Inr ms @ [Inl ec])"
  using assms
proof (induction es arbitrary: t)
  case Nil
  then show ?case by simp
next
  case (Cons e es)
  let ?t = "fst (transport_step t e)" and ?ps = "posts (snd (transport_step t e))"
  have e: "e \<noteq> Start" and es: "Start \<notin> set es" using Cons.prems by auto
  have split: "posts (snd (run_machine transport_step t (e # es))) =
      ?ps @ posts (snd (run_machine transport_step ?t es))"
    by (simp only: run_machine_Cons_snd posts_simps)
  from step_reports [OF e, of t] consider (none) "?ps = []" | (msg) m where "?ps = [Inr m]"
    | (err) ec where "?ps = [Inl ec]" "\<not> rx_handler ?t"
    by (auto simp: reports_def)
  then show ?case
  proof cases
    case none
    with Cons.IH [OF es, of ?t] show ?thesis by (simp only: split append_Nil)
  next
    case msg
    from Cons.IH [OF es, of ?t] obtain ms where
      "posts (snd (run_machine transport_step ?t es)) = map Inr ms \<or>
       (\<exists>ec. posts (snd (run_machine transport_step ?t es)) = map Inr ms @ [Inl ec])" by blast
    with msg have "posts (snd (run_machine transport_step t (e # es))) = map Inr (m # ms) \<or>
       (\<exists>ec. posts (snd (run_machine transport_step t (e # es))) = map Inr (m # ms) @ [Inl ec])"
      by (auto simp only: split append.simps list.map)
    then show ?thesis by blast
  next
    case err
    then have "posts (snd (run_machine transport_step t (e # es))) = map Inr [] @ [Inl ec]"
      using run_without_handler [OF es, of ?t] by (simp only: split) simp
    then show ?thesis by blast
  qed
qed

text \<open>
  A ping frame on an idle listening transport is answered by a pong with the same payload
  and the transport listens again.  The limit on incoming pings is the receive limit, so a ping
  longer than the peer accepts trips the assertion of \<open>sendFrame\<close>.
\<close>

theorem ping_answered:
  assumes "listening t" and "tx_frame t = None" and "tx_queue t = []"
    and "0 < length p" "length p < 2 ^ 24" "length p \<le> max_rx_length (info t)"
  shows "snd (run_machine transport_step t (frame_events l Msg_ping p)) =
     [Async_read_payload Msg_ping (length p)] @
     (if length p \<le> max_tx_length (info t) then []
      else [Assert_failed ''Outgoing message is longer than allowed by peer'']) @
     [Async_write (enframe (little_endian t) Msg_pong p), Async_read_header]"
  using assms
  by (simp add: run_frame_events valid_types_def on_payload_read_def check_ec_def send_pong_def
      send_frame_def transmit_def is_ready_to_transmit_def receive_def listening_def assert_that_def
      enframe_def Let_def)

subsection \<open>Witnesses\<close>

definition quiet_listener :: transport where
  "quiet_listener = fst (transport_start (transport_create True
     \<lparr>codec_id = 1, max_tx_length = 512, max_rx_length = 512\<rparr>))"

lemma quiet_listener_eq:
  "listening quiet_listener" "sending quiet_listener" "info quiet_listener =
     \<lparr>codec_id = 1, max_tx_length = 512, max_rx_length = 512\<rparr>"
  "tx_frame quiet_listener = None" "tx_queue quiet_listener = []" "little_endian quiet_listener"
  by (simp_all add: quiet_listener_def listening_def sending_def transport_start_def
      transport_create_def receive_def)

theorem messages_delivered_witness:
  "posts (snd (run_machine transport_step quiet_listener
     (concat (map (frame_events False Msg_wamp) [[1, 2], [3]])))) = map Inr [[1, 2], [3]]"
  by (rule messages_delivered) (simp_all add: quiet_listener_eq)


theorem error_reported_last_witness:
  "\<exists>ms. posts (snd (run_machine transport_step quiet_listener [Read_done 104 [], Close])) = map Inr ms \<or>
    (\<exists>ec. posts (snd (run_machine transport_step quiet_listener [Read_done 104 [], Close])) =
      map Inr ms @ [Inl ec])"
  by (rule error_reported_last) simp

theorem ping_answered_witness:
  "snd (run_machine transport_step quiet_listener (frame_events True Msg_ping [7])) =
     [Async_read_payload Msg_ping (length [7::byte])] @
     (if length [7::byte] \<le> max_tx_length (info quiet_listener) then []
      else [Assert_failed ''Outgoing message is longer than allowed by peer'']) @
     [Async_write (enframe (little_endian quiet_listener) Msg_pong [7]), Async_read_header]"
  by (rule ping_answered) (simp_all add: quiet_listener_eq)

theorem payload_reads_bounded_witness:
  "Msg_wamp \<in> {Msg_wamp, Msg_ping, Msg_pong} \<and>
     (2::nat) \<le> max_rx_length \<lparr>codec_id = 1, max_tx_length = 512, max_rx_length = 512\<rparr>"
proof (rule payload_reads_bounded)
  show "Async_read_payload Msg_wamp 2 \<in> set (snd (run_machine transport_step
      (transport_create True \<lparr>codec_id = 1, max_tx_length = 512, max_rx_length = 512\<rparr>)
      [Start, Read_done 0 (memory_of_word True (compute_header True Msg_wamp [1, 2]))]))"
    using received_header_type [of Msg_wamp True True "[1, 2]"]
      received_header_length [of True True Msg_wamp "[1, 2]"]
    by (simp add: transport_start_def transport_create_def receive_def on_header_read_def
        check_ec_def process_header_def check_cond_def header_type_valid_iff valid_types_def
        receive_payload_def received_header_def rawsock_type_of_code_def Let_def case_prod_beta)
qed

end
