(* ===== verification/Rawsock_Connect.thy ===== *)
theory Rawsock_Connect
  imports Rawsock_Transport
begin

section \<open>Connection establishment (\<open>internal/rawsockconnector.hpp\<close>, \<open>internal/rawsocklistener.hpp\<close>)\<close>

text \<open>
  \<open>RawsockConnector\<close> and \<open>RawsockListener\<close> as state machines over the same effects.  The
  opener and the acceptor are the outside world: \<open>Open_done\<close> is the callback they are given.
  The handler is a value of a type parameter, so that the theorems can follow each handler.
  \<open>cn_op\<close> and \<open>ls_op\<close> are the outstanding asynchronous operation.  Calling an empty
  \<open>std::function\<close> throws \<open>bad_function_call\<close>.
\<close>

datatype 'h connect_effect =
    Begin_opening
  | Cancel_opening
  | Close_connecting
  | Write_handshake bytes
  | Read_handshake
  | Call_handler 'h "error_code + transport"
  | Bad_function_call
  | Establishment_in_progress

datatype 'h connect_event =
    Establish 'h
  | Cancel
  | Open_done "error_code + unit"
  | Handshake_written int
  | Handshake_read int bytes

text \<open>The call that \<open>dispatchHandler\<close> makes.\<close>

definition dispatch_call :: "'h option \<Rightarrow> error_code + transport \<Rightarrow> 'h connect_effect list" where
  "dispatch_call h arg = (case h of Some f \<Rightarrow> [Call_handler f arg] | None \<Rightarrow> [Bad_function_call])"

text \<open>The conversion of cancellations, in the opener callback and in \<open>check\<close>.\<close>

definition aborted_if_canceled :: "error_code \<Rightarrow> error_code" where
  "aborted_if_canceled ec = (if is_operation_canceled ec then transport_ec TE_aborted else ec)"

subsection \<open>The connector\<close>

datatype connector_op = Cn_idle | Cn_opening | Cn_writing | Cn_reading

record 'h connector =
  cn_little :: bool
  cn_socket :: bool
  cn_handler :: "'h option"
  cn_codec_id :: int
  cn_max_rx_length :: rawsock_max_length
  cn_handshake :: u32
  cn_op :: connector_op

definition connector_create :: "bool \<Rightarrow> int \<Rightarrow> rawsock_max_length \<Rightarrow> 'h connector" where
  "connector_create little codec len = \<lparr>cn_little = little, cn_socket = False, cn_handler = None,
     cn_codec_id = codec, cn_max_rx_length = len, cn_handshake = 0, cn_op = Cn_idle\<rparr>"

definition connector_dispatch ::
    "error_code + transport \<Rightarrow> 'h connector \<Rightarrow> 'h connector \<times> 'h connect_effect list" where
  "connector_dispatch arg c = (c\<lparr>cn_handler := None\<rparr>, dispatch_call (cn_handler c) arg)"

definition connector_fail :: "int \<Rightarrow> 'h connector \<Rightarrow> 'h connector \<times> 'h connect_effect list" where
  "connector_fail errc c = connector_dispatch (Inl (rawsock_value_ec errc)) (c\<lparr>cn_socket := False\<rparr>)"

definition connector_complete ::
    "rawsock_handshake \<Rightarrow> 'h connector \<Rightarrow> 'h connector \<times> 'h connect_effect list" where
  "connector_complete h c =
     (let i = \<lparr>codec_id = cn_codec_id c, max_tx_length = handshake_max_length_in_bytes h,
               max_rx_length = byte_length_of (cn_max_rx_length c)\<rparr>;
          t = transport_create (cn_little c) i
      in connector_dispatch (Inr t) (c\<lparr>cn_socket := False\<rparr>))"

definition connector_check ::
    "int \<Rightarrow> 'h connector \<Rightarrow> 'h connector \<times> 'h connect_effect list \<times> bool" where
  "connector_check ec c =
     (if ec \<noteq> 0 then
        let (c1, out) = connector_dispatch (Inl (aborted_if_canceled (errc_of_asio ec)))
                          (c\<lparr>cn_socket := False\<rparr>)
        in (c1, out, False)
      else (c, [], True))"

definition connector_on_handshake ::
    "rawsock_handshake \<Rightarrow> 'h connector \<Rightarrow> 'h connector \<times> 'h connect_effect list" where
  "connector_on_handshake h c =
     (if \<not> handshake_has_magic_octet h then connector_fail (rawsock_code RE_badHandshake) c
      else if handshake_reserved h \<noteq> 0 then connector_fail (rawsock_code RE_reservedBitsUsed) c
      else if handshake_codec_id h = cn_codec_id c then connector_complete h c
      else if handshake_has_error h then connector_fail (handshake_error_code h) c
      else connector_fail (rawsock_code RE_badHandshake) c)"

definition connector_receive_handshake ::
    "'h connector \<Rightarrow> 'h connector \<times> 'h connect_effect list" where
  "connector_receive_handshake c = (c\<lparr>cn_handshake := 0, cn_op := Cn_reading\<rparr>, [Read_handshake])"

definition connector_send_handshake ::
    "'h connector \<Rightarrow> 'h connector \<times> 'h connect_effect list" where
  "connector_send_handshake c =
     (let w = native_to_big32 (cn_little c)
                (host_order_handshake_bytes (cn_codec_id c) (cn_max_rx_length c))
      in (c\<lparr>cn_handshake := w, cn_op := Cn_writing\<rparr>,
          [Write_handshake (memory_of_word (cn_little c) w)]))"

definition connector_on_open ::
    "error_code + unit \<Rightarrow> 'h connector \<Rightarrow> 'h connector \<times> 'h connect_effect list" where
  "connector_on_open r c =
     (case r of
        Inr _ \<Rightarrow> connector_send_handshake (c\<lparr>cn_socket := True\<rparr>)
      | Inl ec \<Rightarrow> connector_dispatch (Inl (aborted_if_canceled ec)) c)"

definition connector_establish ::
    "'h \<Rightarrow> 'h connector \<Rightarrow> 'h connector \<times> 'h connect_effect list" where
  "connector_establish h c =
     (c\<lparr>cn_handler := Some h, cn_op := Cn_opening\<rparr>,
      (if cn_handler c \<noteq> None then [Establishment_in_progress] else []) @ [Begin_opening])"

definition connector_cancel :: "'h connector \<Rightarrow> 'h connector \<times> 'h connect_effect list" where
  "connector_cancel c = (c, [if cn_socket c then Close_connecting else Cancel_opening])"

fun connector_step ::
    "'h connector \<Rightarrow> 'h connect_event \<Rightarrow> 'h connector \<times> 'h connect_effect list" where
  "connector_step c (Establish h) = connector_establish h c"
| "connector_step c Cancel = connector_cancel c"
| "connector_step c (Open_done r) =
     (if cn_op c = Cn_opening then connector_on_open r (c\<lparr>cn_op := Cn_idle\<rparr>) else (c, []))"
| "connector_step c (Handshake_written ec) =
     (if cn_op c = Cn_writing then
        let (c1, out1, ok) = connector_check ec (c\<lparr>cn_op := Cn_idle\<rparr>)
        in if ok then let (c2, out2) = connector_receive_handshake c1 in (c2, out1 @ out2)
           else (c1, out1)
      else (c, []))"
| "connector_step c (Handshake_read ec data) =
     (if cn_op c = Cn_reading then
        let (c1, out1, ok) = connector_check ec
              (c\<lparr>cn_op := Cn_idle, cn_handshake := word_of_memory (cn_little c) data\<rparr>)
        in if ok then
             let (c2, out2) = connector_on_handshake
                   (handshake_from_big_endian (cn_little c1) (cn_handshake c1)) c1
             in (c2, out1 @ out2)
           else (c1, out1)
      else (c, []))"

subsection \<open>The listener\<close>

datatype listener_op = Ls_idle | Ls_opening | Ls_reading | Ls_writing rawsock_handshake

record 'h listener =
  ls_little :: bool
  ls_socket :: bool
  ls_handler :: "'h option"
  ls_codec_ids :: "int list"
  ls_max_tx_length :: rawsock_max_length
  ls_max_rx_length :: rawsock_max_length
  ls_handshake :: u32
  ls_op :: listener_op

definition listener_create :: "bool \<Rightarrow> int list \<Rightarrow> rawsock_max_length \<Rightarrow> 'h listener" where
  "listener_create little codecs len = \<lparr>ls_little = little, ls_socket = False, ls_handler = None,
     ls_codec_ids = codecs, ls_max_tx_length = 0, ls_max_rx_length = len, ls_handshake = 0,
     ls_op = Ls_idle\<rparr>"

definition listener_dispatch ::
    "error_code + transport \<Rightarrow> 'h listener \<Rightarrow> 'h listener \<times> 'h connect_effect list" where
  "listener_dispatch arg l = (l\<lparr>ls_handler := None\<rparr>, dispatch_call (ls_handler l) arg)"

definition listener_fail :: "int \<Rightarrow> 'h listener \<Rightarrow> 'h listener \<times> 'h connect_effect list" where
  "listener_fail errc l = listener_dispatch (Inl (rawsock_value_ec errc)) (l\<lparr>ls_socket := False\<rparr>)"

definition listener_complete ::
    "rawsock_handshake \<Rightarrow> 'h listener \<Rightarrow> 'h listener \<times> 'h connect_effect list" where
  "listener_complete h l =
     (let i = \<lparr>codec_id = handshake_codec_id h, max_tx_length = byte_length_of (ls_max_tx_length l),
               max_rx_length = byte_length_of (ls_max_rx_length l)\<rparr>;
          t = transport_create (ls_little l) i
      in listener_dispatch (Inr t) (l\<lparr>ls_socket := False\<rparr>))"

definition listener_check ::
    "int \<Rightarrow> 'h listener \<Rightarrow> 'h listener \<times> 'h connect_effect list \<times> bool" where
  "listener_check ec l =
     (if ec \<noteq> 0 then
        let (l1, out) = listener_dispatch (Inl (aborted_if_canceled (errc_of_asio ec)))
                          (l\<lparr>ls_socket := False\<rparr>)
        in (l1, out, False)
      else (l, [], True))"

definition listener_send_handshake ::
    "rawsock_handshake \<Rightarrow> 'h listener \<Rightarrow> 'h listener \<times> 'h connect_effect list" where
  "listener_send_handshake h l =
     (let w = handshake_to_big_endian (ls_little l) h
      in (l\<lparr>ls_handshake := w, ls_op := Ls_writing h\<rparr>,
          [Write_handshake (memory_of_word (ls_little l) w)]))"

definition listener_on_handshake ::
    "rawsock_handshake \<Rightarrow> 'h listener \<Rightarrow> 'h listener \<times> 'h connect_effect list" where
  "listener_on_handshake h l =
     (let peer_codec = handshake_codec_id h
      in if \<not> handshake_has_magic_octet h then listener_fail (rawsock_code RE_badHandshake) l
         else if handshake_reserved h \<noteq> 0 then listener_send_handshake e_reserved_bits_used l
         else if peer_codec \<in> set (ls_codec_ids l) then
           listener_send_handshake
             \<lparr>hs = host_order_handshake_bytes peer_codec (ls_max_rx_length l)\<rparr>
             (l\<lparr>ls_max_tx_length := handshake_max_length h\<rparr>)
         else listener_send_handshake e_unsupported_format l)"

definition listener_receive_handshake ::
    "'h listener \<Rightarrow> 'h listener \<times> 'h connect_effect list" where
  "listener_receive_handshake l = (l\<lparr>ls_handshake := 0, ls_op := Ls_reading\<rparr>, [Read_handshake])"

definition listener_on_open ::
    "error_code + unit \<Rightarrow> 'h listener \<Rightarrow> 'h listener \<times> 'h connect_effect list" where
  "listener_on_open r l =
     (case r of
        Inr _ \<Rightarrow> listener_receive_handshake (l\<lparr>ls_socket := True\<rparr>)
      | Inl ec \<Rightarrow> listener_dispatch (Inl (aborted_if_canceled ec)) l)"

definition listener_establish ::
    "'h \<Rightarrow> 'h listener \<Rightarrow> 'h listener \<times> 'h connect_effect list" where
  "listener_establish h l =
     (l\<lparr>ls_handler := Some h, ls_op := Ls_opening\<rparr>,
      (if ls_handler l \<noteq> None then [Establishment_in_progress] else []) @ [Begin_opening])"

definition listener_cancel :: "'h listener \<Rightarrow> 'h listener \<times> 'h connect_effect list" where
  "listener_cancel l = (l, [if ls_socket l then Close_connecting else Cancel_opening])"

fun listener_step ::
    "'h listener \<Rightarrow> 'h connect_event \<Rightarrow> 'h listener \<times> 'h connect_effect list" where
  "listener_step l (Establish h) = listener_establish h l"
| "listener_step l Cancel = listener_cancel l"
| "listener_step l (Open_done r) =
     (if ls_op l = Ls_opening then listener_on_open r (l\<lparr>ls_op := Ls_idle\<rparr>) else (l, []))"
| "listener_step l (Handshake_read ec data) =
     (if ls_op l = Ls_reading then
        let (l1, out1, ok) = listener_check ec
              (l\<lparr>ls_op := Ls_idle, ls_handshake := word_of_memory (ls_little l) data\<rparr>)
        in if ok then
             let (l2, out2) = listener_on_handshake
                   (handshake_from_big_endian (ls_little l1) (ls_handshake l1)) l1
             in (l2, out1 @ out2)
           else (l1, out1)
      else (l, []))"
| "listener_step l (Handshake_written ec) =
     (case ls_op l of
        Ls_writing h \<Rightarrow>
          (let (l1, out1, ok) = listener_check ec (l\<lparr>ls_op := Ls_idle\<rparr>)
           in if ok then
                let (l2, out2) = (if \<not> handshake_has_error h then listener_complete h l1
                                  else listener_fail (handshake_error_code h) l1)
                in (l2, out1 @ out2)
              else (l1, out1))
      | _ \<Rightarrow> (l, []))"

subsection \<open>Each handler is called once\<close>

definition handler_calls :: "'h connect_effect list \<Rightarrow> 'h list" where
  "handler_calls xs = concat (map (\<lambda>x. case x of Call_handler h r \<Rightarrow> [h] | _ \<Rightarrow> []) xs)"

lemma handler_calls_simps [simp]:
  "handler_calls [] = []" "handler_calls (xs @ ys) = handler_calls xs @ handler_calls ys"
  "handler_calls (Call_handler h r # xs) = h # handler_calls xs"
  "handler_calls (Begin_opening # xs) = handler_calls xs"
  "handler_calls (Cancel_opening # xs) = handler_calls xs"
  "handler_calls (Close_connecting # xs) = handler_calls xs"
  "handler_calls (Write_handshake b # xs) = handler_calls xs"
  "handler_calls (Read_handshake # xs) = handler_calls xs"
  "handler_calls (Bad_function_call # xs) = handler_calls xs"
  "handler_calls (Establishment_in_progress # xs) = handler_calls xs"
  by (simp_all add: handler_calls_def)

fun established :: "'h connect_event list \<Rightarrow> 'h list" where
  "established [] = []"
| "established (Establish h # es) = h # established es"
| "established (_ # es) = established es"

text \<open>
  The contract of one establishment attempt: while the user respects the assertion of
  \<open>establish\<close>, the handler waits for exactly as long as an operation is outstanding, and a
  step calls it or goes on holding it.
\<close>

locale establishment =
  fixes step :: "'s \<Rightarrow> 'h connect_event \<Rightarrow> 's \<times> 'h connect_effect list"
    and waiting :: "'s \<Rightarrow> 'h option"
    and pending :: "'s \<Rightarrow> bool"
  assumes waiting_iff_pending:
      "\<lbrakk>waiting s \<noteq> None \<longleftrightarrow> pending s; Establishment_in_progress \<notin> set (snd (step s e))\<rbrakk> \<Longrightarrow>
        waiting (fst (step s e)) \<noteq> None \<longleftrightarrow> pending (fst (step s e))"
    and step_accounts:
      "\<lbrakk>waiting s \<noteq> None \<longleftrightarrow> pending s; Establishment_in_progress \<notin> set (snd (step s e))\<rbrakk> \<Longrightarrow>
        handler_calls (snd (step s e)) @ (case waiting (fst (step s e)) of None \<Rightarrow> [] | Some h \<Rightarrow> [h]) =
        (case waiting s of None \<Rightarrow> [] | Some h \<Rightarrow> [h]) @ established [e]"
    and step_throws:
      "\<lbrakk>waiting s \<noteq> None \<longleftrightarrow> pending s\<rbrakk> \<Longrightarrow> Bad_function_call \<notin> set (snd (step s e))"
begin

definition idle :: "'s \<Rightarrow> bool" where
  "idle s \<longleftrightarrow> waiting s = None \<and> \<not> pending s"

lemma run_accounts:
  "\<lbrakk>waiting s \<noteq> None \<longleftrightarrow> pending s; Establishment_in_progress \<notin> set (snd (run_machine step s es))\<rbrakk> \<Longrightarrow>
   handler_calls (snd (run_machine step s es)) @
     (case waiting (fst (run_machine step s es)) of None \<Rightarrow> [] | Some h \<Rightarrow> [h]) =
   (case waiting s of None \<Rightarrow> [] | Some h \<Rightarrow> [h]) @ established es \<and>
   (waiting (fst (run_machine step s es)) \<noteq> None \<longleftrightarrow> pending (fst (run_machine step s es))) \<and>
   Bad_function_call \<notin> set (snd (run_machine step s es))"
proof (induction es arbitrary: s)
  case Nil
  then show ?case by simp
next
  case (Cons e es)
  have out: "Establishment_in_progress \<notin> set (snd (step s e))"
      "Establishment_in_progress \<notin> set (snd (run_machine step (fst (step s e)) es))"
    using Cons.prems(2) by (auto simp only: run_machine_Cons_snd set_append Un_iff)
  note one = waiting_iff_pending [OF Cons.prems(1) out(1)] step_accounts [OF Cons.prems(1) out(1)]
    step_throws [OF Cons.prems(1), of e]
  have es: "established (e # es) = established [e] @ established es" by (cases e) simp_all
  from Cons.IH [OF one(1) out(2)] one(2,3) show ?case
    unfolding run_machine_Cons_fst run_machine_Cons_snd es handler_calls_simps set_append Un_iff
    by (metis append.assoc)
qed

end

lemmas connector_ops [step_simps] = connector_establish_def connector_cancel_def connector_on_open_def
  connector_send_handshake_def connector_receive_handshake_def connector_check_def
  connector_dispatch_def connector_fail_def connector_complete_def connector_on_handshake_def

lemmas listener_ops [step_simps] = listener_establish_def listener_cancel_def listener_on_open_def
  listener_send_handshake_def listener_receive_handshake_def listener_check_def
  listener_dispatch_def listener_fail_def listener_complete_def listener_on_handshake_def

interpretation cn: establishment connector_step cn_handler "\<lambda>c. cn_op c \<noteq> Cn_idle"
proof
  fix s :: "'a connector" and e
  assume w: "cn_handler s \<noteq> None \<longleftrightarrow> cn_op s \<noteq> Cn_idle"
  show "Bad_function_call \<notin> set (snd (connector_step s e))"
    using w by (cases e) (auto simp: connector_ops Let_def dispatch_call_def split: sum.splits)
  assume "Establishment_in_progress \<notin> set (snd (connector_step s e))"
  then show "(cn_handler (fst (connector_step s e)) \<noteq> None) =
      (cn_op (fst (connector_step s e)) \<noteq> Cn_idle)"
    using w by (cases e) (auto simp: connector_ops Let_def split: sum.splits if_splits)
  show "handler_calls (snd (connector_step s e)) @
      (case cn_handler (fst (connector_step s e)) of None \<Rightarrow> [] | Some h \<Rightarrow> [h]) =
      (case cn_handler s of None \<Rightarrow> [] | Some h \<Rightarrow> [h]) @ established [e]"
    using w \<open>Establishment_in_progress \<notin> _\<close>
    by (cases e) (auto simp: connector_ops Let_def dispatch_call_def split: sum.splits if_splits)
qed

interpretation ls: establishment listener_step ls_handler "\<lambda>l. ls_op l \<noteq> Ls_idle"
proof
  fix s :: "'a listener" and e
  assume w: "ls_handler s \<noteq> None \<longleftrightarrow> ls_op s \<noteq> Ls_idle"
  show "Bad_function_call \<notin> set (snd (listener_step s e))"
    using w by (cases e) (auto simp: listener_ops Let_def dispatch_call_def split: sum.splits listener_op.splits)
  assume "Establishment_in_progress \<notin> set (snd (listener_step s e))"
  then show "(ls_handler (fst (listener_step s e)) \<noteq> None) =
      (ls_op (fst (listener_step s e)) \<noteq> Ls_idle)"
    using w by (cases e) (auto simp: listener_ops Let_def split: sum.splits if_splits listener_op.splits)
  show "handler_calls (snd (listener_step s e)) @
      (case ls_handler (fst (listener_step s e)) of None \<Rightarrow> [] | Some h \<Rightarrow> [h]) =
      (case ls_handler s of None \<Rightarrow> [] | Some h \<Rightarrow> [h]) @ established [e]"
    using w \<open>Establishment_in_progress \<notin> _\<close>
    by (cases e) (auto simp: listener_ops Let_def dispatch_call_def split: sum.splits if_splits listener_op.splits)
qed

text \<open>
  As long as no establishment is started while another is in progress, the handlers called
  so far, followed by the one that waits, are the handlers given to \<open>establish\<close>, in order;
  a handler waits exactly while an operation is outstanding, and no empty handler is called.
\<close>

theorem connector_calls_each_handler:
  assumes "Establishment_in_progress \<notin>
    set (snd (run_machine connector_step (connector_create little codec len) es))"
  shows "let (c, out) = run_machine connector_step (connector_create little codec len) es in
    handler_calls out @ (case cn_handler c of None \<Rightarrow> [] | Some h \<Rightarrow> [h]) = established es \<and>
    (cn_handler c = None \<longleftrightarrow> cn_op c = Cn_idle) \<and> Bad_function_call \<notin> set out"
proof -
  have "cn_handler (connector_create little codec len :: 'a connector) \<noteq> None \<longleftrightarrow>
      cn_op (connector_create little codec len :: 'a connector) \<noteq> Cn_idle"
    by (simp add: connector_create_def)
  from cn.run_accounts [OF this assms] show ?thesis
    by (auto simp: case_prod_beta connector_create_def)
qed

theorem connector_calls_each_handler_witness:
  "let (c, out) = run_machine connector_step (connector_create True 1 3)
       [Establish ''a'', Cancel, Open_done (Inl (errc_of_asio 125)), Establish ''b''] in
    handler_calls out @ (case cn_handler c of None \<Rightarrow> [] | Some h \<Rightarrow> [h]) =
      established [Establish ''a'', Cancel, Open_done (Inl (errc_of_asio 125)), Establish ''b''] \<and>
    (cn_handler c = None \<longleftrightarrow> cn_op c = Cn_idle) \<and> Bad_function_call \<notin> set out"
  by (rule connector_calls_each_handler)
    (simp add: connector_create_def connector_ops dispatch_call_def)

text \<open>The same for the listener.\<close>

lemma listener_calls_each_handler:
  assumes "Establishment_in_progress \<notin>
    set (snd (run_machine listener_step (listener_create little codecs len) es))"
  shows "let (l, out) = run_machine listener_step (listener_create little codecs len) es in
    handler_calls out @ (case ls_handler l of None \<Rightarrow> [] | Some h \<Rightarrow> [h]) = established es \<and>
    (ls_handler l = None \<longleftrightarrow> ls_op l = Ls_idle) \<and> Bad_function_call \<notin> set out"
proof -
  have "ls_handler (listener_create little codecs len :: 'a listener) \<noteq> None \<longleftrightarrow>
      ls_op (listener_create little codecs len :: 'a listener) \<noteq> Ls_idle"
    by (simp add: listener_create_def)
  from ls.run_accounts [OF this assms] show ?thesis
    by (auto simp: case_prod_beta listener_create_def)
qed

subsection \<open>Negotiation\<close>

text \<open>The bytes that an end writes, and the outcomes it reports.\<close>

definition handshake_bytes :: "'h connect_effect list \<Rightarrow> bytes" where
  "handshake_bytes xs = concat (map (\<lambda>x. case x of Write_handshake b \<Rightarrow> b | _ \<Rightarrow> []) xs)"

definition outcomes :: "'h connect_effect list \<Rightarrow> ('h \<times> (error_code + transport)) list" where
  "outcomes xs = concat (map (\<lambda>x. case x of Call_handler h r \<Rightarrow> [(h, r)] | _ \<Rightarrow> []) xs)"

text \<open>One connection over a link without faults: each end reads what the other has written.\<close>

definition negotiate ::
    "'h connector \<Rightarrow> 'h listener \<Rightarrow> 'h \<Rightarrow> 'h \<Rightarrow>
     ('h \<times> (error_code + transport)) list \<times> ('h \<times> (error_code + transport)) list" where
  "negotiate c l hc hl =
     (let (c1, out1) = run_machine connector_step c
            [Establish hc, Open_done (Inr ()), Handshake_written 0];
          (l1, out2) = run_machine listener_step l
            [Establish hl, Open_done (Inr ()), Handshake_read 0 (handshake_bytes out1),
             Handshake_written 0];
          (c2, out3) = connector_step c1 (Handshake_read 0 (handshake_bytes out2))
      in (outcomes (out1 @ out3), outcomes out2))"

lemma wire_handshake [simp]:
  "handshake_from_big_endian l' (word_of_memory l' (memory_of_word l (native_to_big32 l w))) = \<lparr>hs = w\<rparr>"
  by (simp add: handshake_from_big_endian_def wire_word_roundtrip)

text \<open>
  For a codec that the listener serves, both ends get a transport for that codec, and what
  each may send is exactly what the other has announced it receives.
\<close>

theorem negotiation_agrees:
  assumes "1 \<le> codec" "codec < 16" and "codec \<in> set codecs" and "lc < 16" "ll < 16"
  shows "negotiate (connector_create bc codec lc) (listener_create bl codecs ll) hc hl =
    ([(hc, Inr (transport_create bc
         \<lparr>codec_id = codec, max_tx_length = 2 ^ (ll + 9), max_rx_length = 2 ^ (lc + 9)\<rparr>))],
     [(hl, Inr (transport_create bl
         \<lparr>codec_id = codec, max_tx_length = 2 ^ (lc + 9), max_rx_length = 2 ^ (ll + 9)\<rparr>))])"
  using assms handshake_fields [of codec lc] handshake_fields [of codec ll]
  by (simp add: negotiate_def connector_create_def listener_create_def connector_ops listener_ops
      dispatch_call_def outcomes_def handshake_bytes_def handshake_to_big_endian_def
      handshake_max_length_in_bytes_def byte_length_of_eq Let_def)

lemma unsupported_format_fields [simp]:
  "handshake_has_magic_octet e_unsupported_format" "handshake_reserved e_unsupported_format = 0"
  "handshake_codec_id e_unsupported_format = 0"
  "\<lparr>hs = hs e_unsupported_format\<rparr> = e_unsupported_format"
  by (simp_all add: e_unsupported_format_def handshake_has_magic_octet_def handshake_reserved_def
      handshake_codec_id_def)

text \<open>
  For a codec that the listener does not serve, both ends report \<open>badSerializer\<close>.
\<close>

theorem negotiation_rejects:
  assumes "1 \<le> codec" "codec < 16" and "codec \<notin> set codecs" and "lc < 16"
  shows "negotiate (connector_create bc codec lc) (listener_create bl codecs ll) hc hl =
    ([(hc, Inl (rawsock_ec RE_badSerializer))], [(hl, Inl (rawsock_ec RE_badSerializer))])"
  using assms handshake_fields [of codec lc] error_handshakes
  by (simp add: negotiate_def connector_create_def listener_create_def connector_ops listener_ops
      dispatch_call_def outcomes_def handshake_bytes_def handshake_to_big_endian_def
      rawsock_value_ec_def rawsock_ec_def Let_def)

theorem negotiation_agrees_witness:
  "negotiate (connector_create True 2 15) (listener_create False [1, 2] 0) ''c'' ''l'' =
    ([(''c'', Inr (transport_create True
         \<lparr>codec_id = 2, max_tx_length = 2 ^ (0 + 9), max_rx_length = 2 ^ (15 + 9)\<rparr>))],
     [(''l'', Inr (transport_create False
         \<lparr>codec_id = 2, max_tx_length = 2 ^ (15 + 9), max_rx_length = 2 ^ (0 + 9)\<rparr>))])"
  by (rule negotiation_agrees) simp_all

theorem negotiation_rejects_witness:
  "negotiate (connector_create True 3 15) (listener_create False [1, 2] 0) ''c'' ''l'' =
    ([(''c'', Inl (rawsock_ec RE_badSerializer))], [(''l'', Inl (rawsock_ec RE_badSerializer))])"
  by (rule negotiation_rejects) simp_all

text \<open>
  Cancelling in any phase of the establishment, once Asio has cancelled the outstanding
  operation, gives the handler exactly one outcome, \<open>TransportErrc::aborted\<close>.
\<close>

theorem connector_cancel_reported:
  assumes "cn_op c \<noteq> Cn_idle" and "cn_handler c = Some h"
  shows "outcomes (snd (run_machine connector_step c
      [Cancel, (case cn_op c of Cn_opening \<Rightarrow> Open_done (Inl (errc_of_asio operation_canceled))
        | Cn_writing \<Rightarrow> Handshake_written operation_canceled
        | _ \<Rightarrow> Handshake_read operation_canceled [])])) =
    [(h, Inl (transport_ec TE_aborted))]"
  using assms
  by (cases "cn_op c") (simp_all add: connector_ops dispatch_call_def outcomes_def
      aborted_if_canceled_def is_operation_canceled_def errc_of_asio_def operation_canceled_def)

theorem connector_cancel_reported_witness:
  "outcomes (snd (run_machine connector_step (fst (connector_step (connector_create True 1 3) (Establish ''h'')))
      [Cancel, (case cn_op (fst (connector_step (connector_create True 1 3) (Establish ''h'')))
        of Cn_opening \<Rightarrow> Open_done (Inl (errc_of_asio operation_canceled))
        | Cn_writing \<Rightarrow> Handshake_written operation_canceled
        | _ \<Rightarrow> Handshake_read operation_canceled [])])) =
    [(''h'', Inl (transport_ec TE_aborted))]"
  by (rule connector_cancel_reported) (simp_all add: connector_create_def connector_ops)

end
