(* ===== verification/Variant_Model.thy ===== *)
theory Variant_Model
  imports Ordered_Map "HOL-Library.Char_ord" "HOL-Library.List_Lexorder"
begin

section \<open>Dynamic values (\<open>variantdefs.hpp\<close>, \<open>variant.hpp\<close>, \<open>internal/variant.ipp\<close>)\<close>

text \<open>
  \<open>Variant\<close> as a datatype with one constructor per bound type.  \<open>Int\<close> and \<open>UInt\<close> are 64-bit
  words, read with \<open>sint\<close> and \<open>uint\<close>.  \<open>Real\<close> is a double, modelled as NaN, an infinity or a
  sign, a magnitude and a binary exponent; conversions from integers round to the nearest
  double, ties to even, as the IEEE arithmetic of the C++ implementations does.  \<open>Object\<close>, a
  \<open>std::map\<close>, is a list of members in key order, keys being compared by unsigned characters.
\<close>

subsection \<open>Doubles\<close>

datatype double = NaN | Infinite bool | Finite bool nat int

definition signed_mantissa :: "bool \<Rightarrow> nat \<Rightarrow> int" where
  "signed_mantissa neg m = (if neg then - int m else int m)"

definition scaled :: "bool \<Rightarrow> nat \<Rightarrow> int \<Rightarrow> int \<Rightarrow> int" where
  "scaled neg m e e0 = signed_mantissa neg m * 2 ^ nat (e - e0)"

fun double_eq :: "double \<Rightarrow> double \<Rightarrow> bool" where
  "double_eq (Finite s m e) (Finite s' m' e') \<longleftrightarrow>
     scaled s m e (min e e') = scaled s' m' e' (min e e')"
| "double_eq (Infinite s) (Infinite s') \<longleftrightarrow> s = s'"
| "double_eq _ _ \<longleftrightarrow> False"

fun double_less :: "double \<Rightarrow> double \<Rightarrow> bool" where
  "double_less (Finite s m e) (Finite s' m' e') \<longleftrightarrow>
     scaled s m e (min e e') < scaled s' m' e' (min e e')"
| "double_less (Infinite s) (Infinite s') \<longleftrightarrow> s \<and> \<not> s'"
| "double_less (Infinite s) (Finite _ _ _) \<longleftrightarrow> s"
| "double_less (Finite _ _ _) (Infinite s) \<longleftrightarrow> \<not> s"
| "double_less _ _ \<longleftrightarrow> False"

definition double_zero :: double where
  "double_zero = Finite False 0 0"

text \<open>Dropping the low \<open>k\<close> bits, to nearest, ties to even; the smallest \<open>k\<close> that leaves 53 bits.\<close>

definition round_even :: "nat \<Rightarrow> nat \<Rightarrow> nat" where
  "round_even k n =
     (let q = n div 2 ^ k; r = n mod 2 ^ k
      in if 2 * r > 2 ^ k \<or> (2 * r = 2 ^ k \<and> odd q) then q + 1 else q)"

fun excess_bits :: "nat \<Rightarrow> nat" where
  "excess_bits n = (if n < 2 ^ 53 then 0 else Suc (excess_bits (n div 2)))"

declare excess_bits.simps [simp del]

definition double_of_int :: "int \<Rightarrow> double" where
  "double_of_int i = (let n = nat \<bar>i\<bar>; k = excess_bits n in Finite (i < 0) (round_even k n) (int k))"

subsection \<open>Variants\<close>

datatype type_id = T_null | T_boolean | T_integer | T_uint | T_real | T_string | T_blob | T_array | T_object

primrec type_id_code :: "type_id \<Rightarrow> nat" where
  "type_id_code T_null = 0"
| "type_id_code T_boolean = 1"
| "type_id_code T_integer = 2"
| "type_id_code T_uint = 3"
| "type_id_code T_real = 4"
| "type_id_code T_string = 5"
| "type_id_code T_blob = 6"
| "type_id_code T_array = 7"
| "type_id_code T_object = 8"

lemma type_id_code_inj: "type_id_code a = type_id_code b \<Longrightarrow> a = b"
  by (cases a; cases b) simp_all

text \<open>The order of the scoped enumeration.\<close>

instantiation type_id :: linorder
begin

definition less_eq_type_id :: "type_id \<Rightarrow> type_id \<Rightarrow> bool" where
  "a \<le> b \<longleftrightarrow> type_id_code a \<le> type_id_code b"

definition less_type_id :: "type_id \<Rightarrow> type_id \<Rightarrow> bool" where
  "a < b \<longleftrightarrow> type_id_code a < type_id_code b"

instance
  by standard (auto simp: less_eq_type_id_def less_type_id_def intro: type_id_code_inj)

end

datatype variant =
    V_null
  | V_bool bool
  | V_int u64
  | V_uint u64
  | V_real double
  | V_string string
  | V_blob bytes
  | V_array "variant list"
  | V_object "(string \<times> variant) list"

type_synonym varray = "variant list"
type_synonym vobject = "(string, variant) omap"

primrec type_id_of :: "variant \<Rightarrow> type_id" where
  "type_id_of V_null = T_null"
| "type_id_of (V_bool b) = T_boolean"
| "type_id_of (V_int i) = T_integer"
| "type_id_of (V_uint u) = T_uint"
| "type_id_of (V_real r) = T_real"
| "type_id_of (V_string s) = T_string"
| "type_id_of (V_blob b) = T_blob"
| "type_id_of (V_array a) = T_array"
| "type_id_of (V_object ob) = T_object"

definition variant_is_set :: "variant \<Rightarrow> bool" where
  "variant_is_set v \<longleftrightarrow> type_id_of v \<noteq> T_null"

definition is_number :: "variant \<Rightarrow> bool" where
  "is_number v = (case type_id_of v of T_integer \<Rightarrow> True | T_uint \<Rightarrow> True | T_real \<Rightarrow> True | _ \<Rightarrow> False)"

definition is_scalar :: "variant \<Rightarrow> bool" where
  "is_scalar v = (case type_id_of v of T_boolean \<Rightarrow> True | T_integer \<Rightarrow> True | T_uint \<Rightarrow> True
     | T_real \<Rightarrow> True | _ \<Rightarrow> False)"

fun variant_size :: "variant \<Rightarrow> nat" where
  "variant_size V_null = 0"
| "variant_size (V_array a) = length a"
| "variant_size (V_object ob) = length ob"
| "variant_size _ = 1"

primrec type_name_of :: "variant \<Rightarrow> string" where
  "type_name_of V_null = ''Null''"
| "type_name_of (V_bool b) = ''Bool''"
| "type_name_of (V_int i) = ''Int''"
| "type_name_of (V_uint u) = ''UInt''"
| "type_name_of (V_real r) = ''Real''"
| "type_name_of (V_string s) = ''String''"
| "type_name_of (V_blob b) = ''Blob''"
| "type_name_of (V_array a) = ''Array''"
| "type_name_of (V_object ob) = ''Object''"

text \<open>Element access: the exceptions \<open>error::Access\<close> and \<open>std::out_of_range\<close> are values.\<close>

datatype access_error = Access_error | Out_of_range

definition variant_at :: "variant \<Rightarrow> nat \<Rightarrow> access_error + variant" where
  "variant_at v i =
     (case v of
        V_array a \<Rightarrow> (case vec_at a i of Some x \<Rightarrow> Inr x | None \<Rightarrow> Inl Out_of_range)
      | _ \<Rightarrow> Inl Access_error)"

definition variant_at_key :: "variant \<Rightarrow> string \<Rightarrow> access_error + variant" where
  "variant_at_key v k =
     (case v of
        V_object ob \<Rightarrow> (case omap_find ob k of Some x \<Rightarrow> Inr x | None \<Rightarrow> Inl Out_of_range)
      | _ \<Rightarrow> Inl Access_error)"

text \<open>\<open>operator[](key)\<close> inserts a null under an absent key and refers to that member.\<close>

definition variant_index_key :: "variant \<Rightarrow> string \<Rightarrow> access_error + (variant \<times> variant)" where
  "variant_index_key v k =
     (case v of
        V_object ob \<Rightarrow>
          (case omap_find ob k of
             Some x \<Rightarrow> Inr (v, x)
           | None \<Rightarrow> Inr (V_object (omap_put k V_null ob), V_null))
      | _ \<Rightarrow> Inl Access_error)"

subsection \<open>Equality and order\<close>

text \<open>
  \<open>compareNumbers\<close>: signed and unsigned numbers are compared without the usual conversions.
  \<open>Real\<close> counts as signed.
\<close>

fun number_eq :: "variant \<Rightarrow> variant \<Rightarrow> bool" where
  "number_eq (V_int a) (V_int b) \<longleftrightarrow> sint a = sint b"
| "number_eq (V_int a) (V_uint b) \<longleftrightarrow> (if sint a < 0 then False else a = b)"
| "number_eq (V_int a) (V_real d) \<longleftrightarrow> double_eq (double_of_int (sint a)) d"
| "number_eq (V_uint a) (V_int b) \<longleftrightarrow> (if sint b < 0 then False else a = b)"
| "number_eq (V_uint a) (V_uint b) \<longleftrightarrow> a = b"
| "number_eq (V_uint a) (V_real d) \<longleftrightarrow>
     (if double_less d double_zero then False else double_eq (double_of_int (uint a)) d)"
| "number_eq (V_real d) (V_int b) \<longleftrightarrow> double_eq d (double_of_int (sint b))"
| "number_eq (V_real d) (V_uint b) \<longleftrightarrow>
     (if double_less d double_zero then False else double_eq d (double_of_int (uint b)))"
| "number_eq (V_real d) (V_real e) \<longleftrightarrow> double_eq d e"
| "number_eq _ _ \<longleftrightarrow> False"

fun number_less :: "variant \<Rightarrow> variant \<Rightarrow> bool" where
  "number_less (V_int a) (V_int b) \<longleftrightarrow> sint a < sint b"
| "number_less (V_int a) (V_uint b) \<longleftrightarrow> (if sint a < 0 then True else a < b)"
| "number_less (V_int a) (V_real d) \<longleftrightarrow> double_less (double_of_int (sint a)) d"
| "number_less (V_uint a) (V_int b) \<longleftrightarrow> (if sint b < 0 then False else a < b)"
| "number_less (V_uint a) (V_uint b) \<longleftrightarrow> a < b"
| "number_less (V_uint a) (V_real d) \<longleftrightarrow>
     (if double_less d double_zero then False else double_less (double_of_int (uint a)) d)"
| "number_less (V_real d) (V_int b) \<longleftrightarrow> double_less d (double_of_int (sint b))"
| "number_less (V_real d) (V_uint b) \<longleftrightarrow>
     (if double_less d double_zero then True else double_less d (double_of_int (uint b)))"
| "number_less (V_real d) (V_real e) \<longleftrightarrow> double_less d e"
| "number_less _ _ \<longleftrightarrow> False"

text \<open>
  \<open>VariantEquivalentTo\<close>; vectors and maps compare by size and then element by element.
\<close>

fun variant_eq :: "variant \<Rightarrow> variant \<Rightarrow> bool"
  and variants_eq :: "variant list \<Rightarrow> variant list \<Rightarrow> bool"
  and members_eq :: "(string \<times> variant) list \<Rightarrow> (string \<times> variant) list \<Rightarrow> bool" where
  "variant_eq V_null w = (case w of V_null \<Rightarrow> True | _ \<Rightarrow> False)"
| "variant_eq (V_bool a) w = (case w of V_bool b \<Rightarrow> a = b | _ \<Rightarrow> False)"
| "variant_eq (V_int a) w = number_eq (V_int a) w"
| "variant_eq (V_uint a) w = number_eq (V_uint a) w"
| "variant_eq (V_real a) w = number_eq (V_real a) w"
| "variant_eq (V_string a) w = (case w of V_string b \<Rightarrow> a = b | _ \<Rightarrow> False)"
| "variant_eq (V_blob a) w = (case w of V_blob b \<Rightarrow> a = b | _ \<Rightarrow> False)"
| "variant_eq (V_array a) w = (case w of V_array b \<Rightarrow> variants_eq a b | _ \<Rightarrow> False)"
| "variant_eq (V_object a) w = (case w of V_object b \<Rightarrow> members_eq a b | _ \<Rightarrow> False)"
| "variants_eq [] ys = (ys = [])"
| "variants_eq (x # xs) ys =
     (case ys of [] \<Rightarrow> False | y # ys' \<Rightarrow> variant_eq x y \<and> variants_eq xs ys')"
| "members_eq [] ys = (ys = [])"
| "members_eq ((k, x) # xs) ys =
     (case ys of [] \<Rightarrow> False
      | (k', y) # ys' \<Rightarrow> k = k' \<and> variant_eq x y \<and> members_eq xs ys')"

text \<open>
  \<open>LessThan\<close>; vectors and maps compare lexicographically, using only \<open>operator<\<close> of the
  elements, as \<open>std::lexicographical_compare\<close> and the order of \<open>std::pair\<close> do.
\<close>

function variant_less :: "variant \<Rightarrow> variant \<Rightarrow> bool"
  and variants_less :: "variant list \<Rightarrow> variant list \<Rightarrow> bool"
  and members_less :: "(string \<times> variant) list \<Rightarrow> (string \<times> variant) list \<Rightarrow> bool" where
  "variant_less v w =
     (if is_number v \<and> is_number w then number_less v w
      else case (v, w) of
        (V_bool a, V_bool b) \<Rightarrow> \<not> a \<and> b
      | (V_string a, V_string b) \<Rightarrow> a < b
      | (V_blob a, V_blob b) \<Rightarrow> a < b
      | (V_array a, V_array b) \<Rightarrow> variants_less a b
      | (V_object a, V_object b) \<Rightarrow> members_less a b
      | _ \<Rightarrow> type_id_of v < type_id_of w)"
| "variants_less xs ys =
     (case (xs, ys) of
        (_, []) \<Rightarrow> False
      | ([], _ # _) \<Rightarrow> True
      | (x # xs', y # ys') \<Rightarrow>
          if variant_less x y then True
          else if variant_less y x then False
          else variants_less xs' ys')"
| "members_less xs ys =
     (case (xs, ys) of
        (_, []) \<Rightarrow> False
      | ([], _ # _) \<Rightarrow> True
      | ((k, x) # xs', (k', y) # ys') \<Rightarrow>
          if k < k' \<or> (\<not> k' < k \<and> variant_less x y) then True
          else if k' < k \<or> (\<not> k < k' \<and> variant_less y x) then False
          else members_less xs' ys')"
  by pat_completeness auto

termination
  by (relation "measure (case_sum (\<lambda>(v, w). size v + size w)
        (case_sum (\<lambda>(xs, ys). size_list size xs + size_list size ys)
          (\<lambda>(xs, ys). size_list (size_prod (\<lambda>_. 0) size) xs +
            size_list (size_prod (\<lambda>_. 0) size) ys)))")
    auto

declare variant_less.simps [simp del] variants_less.simps [simp del] members_less.simps [simp del]

subsection \<open>The order on values without doubles\<close>

text \<open>
  Comparisons that involve doubles are not transitive, since integers of more than 53 bits are
  rounded first.  On the other values the two operators are an equivalence and a strict weak
  order.  The proof maps each value to a list of integers so that the operators become the
  equality and the lexicographic order of these lists.
\<close>

fun real_free :: "variant \<Rightarrow> bool" where
  "real_free (V_real d) \<longleftrightarrow> False"
| "real_free (V_array a) \<longleftrightarrow> (\<forall>x \<in> set a. real_free x)"
| "real_free (V_object ob) \<longleftrightarrow> (\<forall>m \<in> set ob. real_free (snd m))"
| "real_free _ \<longleftrightarrow> True"

fun lex_less :: "('a \<Rightarrow> 'a \<Rightarrow> bool) \<Rightarrow> 'a list \<Rightarrow> 'a list \<Rightarrow> bool" where
  "lex_less lt xs [] \<longleftrightarrow> False"
| "lex_less lt [] (y # ys) \<longleftrightarrow> True"
| "lex_less lt (x # xs) (y # ys) \<longleftrightarrow>
     (if lt x y then True else if lt y x then False else lex_less lt xs ys)"

definition member_less :: "string \<times> variant \<Rightarrow> string \<times> variant \<Rightarrow> bool" where
  "member_less m n \<longleftrightarrow> fst m < fst n \<or> (\<not> fst n < fst m \<and> variant_less (snd m) (snd n))"

definition member_eq :: "string \<times> variant \<Rightarrow> string \<times> variant \<Rightarrow> bool" where
  "member_eq m n \<longleftrightarrow> fst m = fst n \<and> variant_eq (snd m) (snd n)"

lemma variants_less_rec:
  "variants_less xs [] \<longleftrightarrow> False" "variants_less [] (y # ys) \<longleftrightarrow> True"
  "variants_less (x # xs) (y # ys) \<longleftrightarrow>
     (if variant_less x y then True else if variant_less y x then False else variants_less xs ys)"
  using variants_less.simps [of xs "[]"] variants_less.simps [of "[]" "y # ys"]
    variants_less.simps [of "x # xs" "y # ys"] by (cases xs; simp)+

lemma members_less_rec:
  "members_less xs [] \<longleftrightarrow> False" "members_less [] (n # ns) \<longleftrightarrow> True"
  "members_less (m # ms) (n # ns) \<longleftrightarrow>
     (if member_less m n then True else if member_less n m then False else members_less ms ns)"
  using members_less.simps [of xs "[]"] members_less.simps [of "[]" "n # ns"]
    members_less.simps [of "m # ms" "n # ns"] 
  by (cases xs; simp add: member_less_def case_prod_beta)+

lemma variants_less_lex: "variants_less xs ys = lex_less variant_less xs ys"
  by (induction variant_less xs ys rule: lex_less.induct) (simp_all add: variants_less_rec)

lemma members_less_lex: "members_less xs ys = lex_less member_less xs ys"
  by (induction member_less xs ys rule: lex_less.induct) (simp_all add: members_less_rec)

lemma variants_eq_all2: "variants_eq xs ys = list_all2 variant_eq xs ys"
  by (induction xs arbitrary: ys) (auto split: list.split simp: list_all2_Cons1)

lemma members_eq_all2: "members_eq xs ys = list_all2 member_eq xs ys"
proof (induction xs arbitrary: ys)
  case (Cons m xs)
  then show ?case by (cases m; cases ys) (auto simp: member_eq_def)
qed auto

lemma list_less_lex: "(xs :: 'a::linorder list) < ys \<longleftrightarrow> lex_less (<) xs ys"
  by (induction "(<) :: 'a \<Rightarrow> 'a \<Rightarrow> bool" xs ys rule: lex_less.induct) auto

text \<open>The value of an integer of either signedness.\<close>

fun number_value :: "variant \<Rightarrow> int" where
  "number_value (V_int a) = sint a"
| "number_value (V_uint a) = uint a"
| "number_value _ = 0"

lemma sint_nonneg_uint:
  fixes a :: u64
  assumes "0 \<le> sint a"
  shows "sint a = uint a"
proof -
  have "sint a = signed_take_bit 63 (uint a)" by (simp add: sint_uint)
  with assms have "\<not> bit (uint a) 63" by (simp add: signed_take_bit_nonnegative_iff)
  then have "signed_take_bit 63 (uint a) = take_bit 63 (uint a)"
    by (simp add: signed_take_bit_eq_if_positive)
  also have "\<dots> = uint a"
  proof -
    have "take_bit (Suc 63) (uint a) = take_bit 63 (uint a)"
      using \<open>\<not> bit (uint a) 63\<close> by (simp only: take_bit_Suc_from_most) simp
    moreover have "take_bit (Suc 63) (uint a) = uint a"
      using take_bit_int_eq_self [of "uint a" 64] uint_bounded [of a] by simp
    ultimately show ?thesis by simp
  qed
  finally show ?thesis using \<open>sint a = _\<close> by simp
qed

lemma uint_nonneg: "0 \<le> uint a"
  by simp

lemma number_eq_value:
  "is_number v \<Longrightarrow> is_number w \<Longrightarrow> real_free v \<Longrightarrow> real_free w \<Longrightarrow>
     number_eq v w \<longleftrightarrow> number_value v = number_value w"
  by (cases v; cases w)
    (auto simp: is_number_def word_uint_eq_iff sint_nonneg_uint not_less dest: sym)

lemma number_less_value:
  assumes "is_number v" "is_number w" "real_free v" "real_free w"
  shows "number_less v w \<longleftrightarrow> number_value v < number_value w"
proof -
  have neg: "sint a < uint b" if "sint a < 0" for a b :: u64
    using that uint_nonneg [of b] by linarith
  show ?thesis
    using assms
    by (cases v; cases w)
      (auto simp: is_number_def word_less_def sint_nonneg_uint not_less neg neg [THEN less_imp_le])
qed

subsection \<open>The key of a value\<close>

definition enc_list :: "('a \<Rightarrow> int list) \<Rightarrow> 'a list \<Rightarrow> int list" where
  "enc_list f xs = concat (map (\<lambda>x. 1 # f x) xs) @ [0]"

lemma enc_list_simps [simp]:
  "enc_list f [] = [0]" "enc_list f (x # xs) = 1 # f x @ enc_list f xs"
  by (simp_all add: enc_list_def)

lemma enc_list_cong [fundef_cong]:
  "xs = ys \<Longrightarrow> (\<And>x. x \<in> set ys \<Longrightarrow> f x = g x) \<Longrightarrow> enc_list f xs = enc_list g ys"
  unfolding enc_list_def by (metis (no_types, lifting) map_eq_conv)

text \<open>A key is good on two values when it reflects their order, whatever follows it.\<close>

definition reflects :: "('a \<Rightarrow> int list) \<Rightarrow> ('a \<Rightarrow> 'a \<Rightarrow> bool) \<Rightarrow> ('a \<Rightarrow> 'a \<Rightarrow> bool) \<Rightarrow> 'a \<Rightarrow> 'a \<Rightarrow> bool" where
  "reflects f lt eq x y \<longleftrightarrow>
     (\<forall>r s. (f x @ r < f y @ s \<longleftrightarrow> lt x y \<or> eq x y \<and> r < s) \<and>
            (f x @ r = f y @ s \<longleftrightarrow> eq x y \<and> r = s) \<and>
            (f y @ s < f x @ r \<longleftrightarrow> lt y x \<or> eq x y \<and> s < r))"

lemma reflectsD:
  assumes "reflects f lt eq x y"
  shows "f x @ r < f y @ s \<longleftrightarrow> lt x y \<or> eq x y \<and> r < s"
    and "f x @ r = f y @ s \<longleftrightarrow> eq x y \<and> r = s"
    and "f y @ s < f x @ r \<longleftrightarrow> lt y x \<or> eq x y \<and> s < r"
  using assms by (auto simp: reflects_def)

lemma reflects_tri:
  assumes "reflects f lt eq x y"
  shows "lt x y \<longleftrightarrow> \<not> lt y x \<and> \<not> eq x y" "eq x y \<longleftrightarrow> \<not> lt x y \<and> \<not> lt y x"
  using reflectsD [OF assms, of "[]" "[]"] by auto

lemma reflects_list:
  assumes "\<And>x y. x \<in> set xs \<Longrightarrow> y \<in> set ys \<Longrightarrow> reflects f lt eq x y"
  shows "reflects (enc_list f) (lex_less lt) (list_all2 eq) xs ys"
  using assms
proof (induction xs arbitrary: ys)
  case Nil
  then show ?case by (cases ys) (auto simp: reflects_def)
next
  case (Cons x xs)
  show ?case
  proof (cases ys)
    case Nil
    then show ?thesis by (auto simp: reflects_def)
  next
    case (Cons y ys')
    then have xy: "reflects f lt eq x y" and IH: "reflects (enc_list f) (lex_less lt) (list_all2 eq) xs ys'"
      using Cons.prems Cons.IH by auto
    show ?thesis
      using reflects_tri [OF xy]
      by (auto simp: reflects_def \<open>ys = y # ys'\<close> reflectsD [OF xy] reflectsD [OF IH])
  qed
qed

text \<open>The key: the class of the type, the value of a number, the keys of the elements.\<close>

fun variant_key :: "variant \<Rightarrow> int list" where
  "variant_key V_null = [0]"
| "variant_key (V_bool b) = [1, if b then 1 else 0]"
| "variant_key (V_int i) = [2, sint i]"
| "variant_key (V_uint u) = [2, uint u]"
| "variant_key (V_real d) = [2]"
| "variant_key (V_string s) = 5 # enc_list (\<lambda>c. [of_char c]) s"
| "variant_key (V_blob b) = 6 # enc_list (\<lambda>c. [uint c]) b"
| "variant_key (V_array a) = 7 # enc_list variant_key a"
| "variant_key (V_object ob) =
     8 # enc_list (\<lambda>m. enc_list (\<lambda>c. [of_char c]) (fst m) @ variant_key (snd m)) ob"

lemma lex_less_linorder: "lex_less (<) = ((<) :: 'a::linorder list \<Rightarrow> _)"
  by (intro ext) (simp add: list_less_lex)

lemma reflects_string: "reflects (enc_list (\<lambda>c. [of_char c])) (<) (=) (s :: string) t"
proof -
  have order: "(of_char c :: int) < of_char d \<longleftrightarrow> c < d" for c d :: char
    using of_nat_less_iff [of "of_char c" "of_char d", where 'a = int]
    unfolding of_nat_of_char less_char_def .
  have "reflects (\<lambda>c. [of_char c]) (<) (=) (c :: char) d" for c d
    unfolding reflects_def append.simps Cons_less_Cons list.inject order of_char_eq_iff by blast
  then show ?thesis
    using reflects_list [of s t "\<lambda>c. [of_char c]" "(<)" "(=)"]
    by (simp add: lex_less_linorder list.rel_eq)
qed

lemma reflects_bytes: "reflects (enc_list (\<lambda>c. [uint c])) (<) (=) (s :: bytes) t"
proof -
  have "reflects (\<lambda>c. [uint c]) (<) (=) (c :: byte) d" for c d
    by (auto simp: reflects_def word_less_def word_uint_eq_iff)
  then show ?thesis
    using reflects_list [of s t "\<lambda>c. [uint c]" "(<)" "(=)"]
    by (simp add: lex_less_linorder list.rel_eq)
qed

lemma reflects_number:
  assumes "is_number v" "is_number w" "real_free v" "real_free w"
  shows "reflects variant_key variant_less variant_eq v w"
proof -
  have key: "variant_key u = [2, number_value u]" if "is_number u" "real_free u" for u
    using that by (cases u) (auto simp: is_number_def)
  have eq: "variant_eq v w \<longleftrightarrow> number_value v = number_value w"
    using assms number_eq_value [OF assms] by (cases v) (auto simp: is_number_def)
  show ?thesis
    using assms number_less_value [OF assms] number_less_value [OF assms(2,1,4,3)]
    by (auto simp: reflects_def key eq variant_less.simps)
qed

text \<open>The number that starts the key, and what follows when two keys start alike.\<close>

definition key_class :: "variant \<Rightarrow> int" where
  "key_class v = (if is_number v then 2 else int (type_id_code (type_id_of v)))"

lemma variant_key_class: "variant_key v = key_class v # tl (variant_key v)"
  by (cases v) (simp_all add: key_class_def is_number_def)

lemma classes_differ:
  assumes "key_class v \<noteq> key_class w"
  shows "\<not> variant_eq v w" "variant_less v w \<longleftrightarrow> key_class v < key_class w"
  using assms
  by (cases v; cases w; simp add: key_class_def is_number_def variant_less.simps less_type_id_def)+

lemma reflects_classes:
  assumes "key_class v \<noteq> key_class w"
  shows "reflects variant_key variant_less variant_eq v w"
  unfolding reflects_def
  using assms classes_differ [OF assms] classes_differ [OF assms [symmetric]]
  by (subst (1 2 3) variant_key_class [of v], subst (1 2 3) variant_key_class [of w]) auto

lemma reflects_with_number:
  assumes "is_number v" "real_free v" "real_free w"
  shows "reflects variant_key variant_less variant_eq v w"
proof (cases "is_number w")
  case True
  with assms show ?thesis by (intro reflects_number)
next
  case False
  then have "key_class w \<noteq> 2" by (cases w) (simp_all add: key_class_def is_number_def)
  with assms(1) show ?thesis by (intro reflects_classes) (simp add: key_class_def)
qed

lemma reflects_variant:
  "real_free v \<Longrightarrow> real_free w \<Longrightarrow> reflects variant_key variant_less variant_eq v w"
proof (induction v arbitrary: w)
  case (V_array a)
  show ?case
  proof (cases w)
    case [simp]: (V_array b)
    have "reflects (enc_list variant_key) (lex_less variant_less) (list_all2 variant_eq) a b"
      using V_array.IH V_array.prems by (intro reflects_list) auto
    then show ?thesis
      by (simp add: reflects_def variant_less.simps is_number_def variants_less_lex variants_eq_all2)
  qed (rule reflects_classes; simp add: key_class_def is_number_def)+
next
  case (V_object a)
  show ?case
  proof (cases w)
    case [simp]: (V_object b)
    have "reflects (\<lambda>m. enc_list (\<lambda>c. [of_char c]) (fst m) @ variant_key (snd m)) member_less member_eq m n"
      if "m \<in> set a" "n \<in> set b" for m n
    proof -
      have "snd m \<in> Basic_BNFs.snds m" by (cases m) simp
      then have v: "reflects variant_key variant_less variant_eq (snd m) (snd n)"
        using that V_object.IH V_object.prems by (metis (no_types) real_free.simps(3) V_object)
      show ?thesis
        by (auto simp: reflects_def member_less_def member_eq_def reflectsD [OF reflects_string]
            reflectsD [OF v])
    qed
    then have "reflects (enc_list (\<lambda>m. enc_list (\<lambda>c. [of_char c]) (fst m) @ variant_key (snd m)))
        (lex_less member_less) (list_all2 member_eq) a b"
      by (rule reflects_list)
    then show ?thesis
      by (simp add: reflects_def variant_less.simps is_number_def members_less_lex members_eq_all2)
  qed (rule reflects_classes; simp add: key_class_def is_number_def)+
next
  case (V_string s)
  show ?case
  proof (cases w)
    case [simp]: (V_string t)
    show ?thesis using reflects_string [of s t]
      by (simp add: reflects_def variant_less.simps is_number_def)
  qed (rule reflects_classes; simp add: key_class_def is_number_def)+
next
  case (V_blob s)
  show ?case
  proof (cases w)
    case [simp]: (V_blob t)
    show ?thesis using reflects_bytes [of s t]
      by (simp add: reflects_def variant_less.simps is_number_def)
  qed (rule reflects_classes; simp add: key_class_def is_number_def)+
next
  case (V_bool s)
  show ?case
  proof (cases w)
    case (V_bool t)
    then show ?thesis
      by (auto simp: reflects_def variant_less.simps is_number_def)
  qed (rule reflects_classes; simp add: key_class_def is_number_def)+
next
  case V_null
  show ?case
  proof (cases w)
    case [simp]: V_null
    show ?thesis
      by (simp add: reflects_def variant_less.simps is_number_def less_type_id_def)
  qed (rule reflects_classes; simp add: key_class_def is_number_def)+
next
  case (V_int i)
  then show ?case by (intro reflects_with_number) (simp_all add: is_number_def)
next
  case (V_uint i)
  then show ?case by (intro reflects_with_number) (simp_all add: is_number_def)
qed simp

lemma variant_order_keys:
  assumes "real_free v" "real_free w"
  shows "variant_less v w \<longleftrightarrow> variant_key v < variant_key w"
    "variant_eq v w \<longleftrightarrow> variant_key v = variant_key w"
  using reflectsD [OF reflects_variant [OF assms], of "[]" "[]"] by auto


text \<open>
  With doubles the order is not a strict weak order: two integers that differ are both
  equal to the double between them.
\<close>

theorem variant_order_breaks_on_doubles:
  "let i = V_int (2 ^ 53); j = V_int (2 ^ 53 + 1); r = V_real (Finite False 1 53) in
     variant_eq i r \<and> variant_eq r j \<and> variant_less i j \<and> \<not> variant_eq i j"
proof -
  have "excess_bits 9007199254740992 = 1" "excess_bits 9007199254740993 = 1"
    by (simp_all add: excess_bits.simps)
  then show ?thesis
    by (simp add: Let_def variant_less.simps is_number_def double_of_int_def round_even_def
        scaled_def signed_mantissa_def)
qed


subsection \<open>\<open>VariantNotEquivalentTo\<close>\<close>

fun number_neq :: "variant \<Rightarrow> variant \<Rightarrow> bool" where
  "number_neq (V_int a) (V_int b) \<longleftrightarrow> sint a \<noteq> sint b"
| "number_neq (V_int a) (V_uint b) \<longleftrightarrow> (if sint a < 0 then True else a \<noteq> b)"
| "number_neq (V_int a) (V_real d) \<longleftrightarrow> \<not> double_eq (double_of_int (sint a)) d"
| "number_neq (V_uint a) (V_int b) \<longleftrightarrow> (if sint b < 0 then True else a \<noteq> b)"
| "number_neq (V_uint a) (V_uint b) \<longleftrightarrow> a \<noteq> b"
| "number_neq (V_uint a) (V_real d) \<longleftrightarrow>
     (if double_less d double_zero then True else \<not> double_eq (double_of_int (uint a)) d)"
| "number_neq (V_real d) (V_int b) \<longleftrightarrow> \<not> double_eq d (double_of_int (sint b))"
| "number_neq (V_real d) (V_uint b) \<longleftrightarrow>
     (if double_less d double_zero then True else \<not> double_eq d (double_of_int (uint b)))"
| "number_neq (V_real d) (V_real e) \<longleftrightarrow> \<not> double_eq d e"
| "number_neq _ _ \<longleftrightarrow> True"

text \<open>
  The comparison of a variant with a value of another type, given here as the variant of that
  value; \<open>std::mismatch\<close> looks for the first element that is not equal.
\<close>

fun first_mismatch :: "('a \<Rightarrow> 'b \<Rightarrow> bool) \<Rightarrow> 'a list \<Rightarrow> 'b list \<Rightarrow> nat" where
  "first_mismatch eq (x # xs) (y # ys) = (if eq x y then Suc (first_mismatch eq xs ys) else 0)"
| "first_mismatch eq _ _ = 0"

definition variant_neq :: "variant \<Rightarrow> variant \<Rightarrow> bool" where
  "variant_neq v w =
     (if is_number v \<and> is_number w then number_neq v w
      else case (v, w) of
        (V_null, V_null) \<Rightarrow> False
      | (V_bool a, V_bool b) \<Rightarrow> a \<noteq> b
      | (V_string a, V_string b) \<Rightarrow> a \<noteq> b
      | (V_blob a, V_blob b) \<Rightarrow> a \<noteq> b
      | (V_array a, V_array b) \<Rightarrow>
          (if length a \<noteq> length b then True else first_mismatch variant_eq a b \<noteq> length a)
      | (V_object a, V_object b) \<Rightarrow>
          (if length a \<noteq> length b then True else first_mismatch member_eq a b \<noteq> length a)
      | _ \<Rightarrow> True)"

lemma first_mismatch_end:
  "length xs = length ys \<Longrightarrow> first_mismatch eq xs ys = length ys \<longleftrightarrow> list_all2 eq xs ys"
  by (induction eq xs ys rule: first_mismatch.induct) auto

lemma number_neq_eq: "is_number v \<Longrightarrow> is_number w \<Longrightarrow> number_neq v w \<longleftrightarrow> \<not> number_eq v w"
  by (cases v; cases w) (simp_all add: is_number_def)

lemma variant_eq_number: "is_number v \<Longrightarrow> variant_eq v w = number_eq v w"
  by (cases v) (simp_all add: is_number_def)

text \<open>The two visitors of equality and inequality never disagree.\<close>

theorem not_equivalent_negates: "variant_neq v w \<longleftrightarrow> \<not> variant_eq v w"
proof (cases "is_number v \<and> is_number w")
  case True
  then show ?thesis by (simp add: variant_neq_def number_neq_eq variant_eq_number)
next
  case False
  then show ?thesis
    by (cases v; cases w)
      (auto simp: variant_neq_def is_number_def variants_eq_all2 members_eq_all2
        first_mismatch_end dest: list_all2_lengthD)
qed

end
