(* ===== verification/Base64.thy ===== *)
theory Base64
  imports Errors
begin

section \<open>Base64 (\<open>internal/base64.hpp\<close>)\<close>

text \<open>
  \<open>Base64::encode\<close> and \<open>Base64::decode\<close> on lists of bytes, characters being their ASCII
  codes.  The two tables are those of the source.  \<open>base64_decode\<close> returns the error code
  (\<open>no_error\<close> for success) and what the output container holds on return: on an error the
  triplets decoded before it stay in the container.
\<close>

unbundle bit_operations_syntax

definition pad :: byte where
  "pad = 61"

definition base64_alphabet :: bytes where
  "base64_alphabet =
    [65, 66, 67, 68, 69, 70, 71, 72, 73, 74, 75, 76, 77, 78, 79, 80,
     81, 82, 83, 84, 85, 86, 87, 88, 89, 90, 97, 98, 99, 100, 101, 102,
     103, 104, 105, 106, 107, 108, 109, 110, 111, 112, 113, 114, 115, 116, 117, 118,
     119, 120, 121, 122, 48, 49, 50, 51, 52, 53, 54, 55, 56, 57, 43, 47]"

definition base64_table :: bytes where
  "base64_table =
    [0xff, 0xff, 0xff, 0xff, 0xff, 0xff, 0xff, 0xff, 0xff, 0xff, 0xff, 0xff, 0xff, 0xff, 0xff, 0xff,
     0xff, 0xff, 0xff, 0xff, 0xff, 0xff, 0xff, 0xff, 0xff, 0xff, 0xff, 0xff, 0xff, 0xff, 0xff, 0xff,
     0xff, 0xff, 0xff, 0xff, 0xff, 0xff, 0xff, 0xff, 0xff, 0xff, 0xff, 0x3e, 0xff, 0xff, 0xff, 0x3f,
     0x34, 0x35, 0x36, 0x37, 0x38, 0x39, 0x3a, 0x3b, 0x3c, 0x3d, 0xff, 0xff, 0xff, 0x00, 0xff, 0xff,
     0xff, 0x00, 0x01, 0x02, 0x03, 0x04, 0x05, 0x06, 0x07, 0x08, 0x09, 0x0a, 0x0b, 0x0c, 0x0d, 0x0e,
     0x0f, 0x10, 0x11, 0x12, 0x13, 0x14, 0x15, 0x16, 0x17, 0x18, 0x19, 0xff, 0xff, 0xff, 0xff, 0xff,
     0xff, 0x1a, 0x1b, 0x1c, 0x1d, 0x1e, 0x1f, 0x20, 0x21, 0x22, 0x23, 0x24, 0x25, 0x26, 0x27, 0x28,
     0x29, 0x2a, 0x2b, 0x2c, 0x2d, 0x2e, 0x2f, 0x30, 0x31, 0x32, 0x33, 0xff, 0xff, 0xff, 0xff, 0xff,
     0xff, 0xff, 0xff, 0xff, 0xff, 0xff, 0xff, 0xff, 0xff, 0xff, 0xff, 0xff, 0xff, 0xff, 0xff, 0xff,
     0xff, 0xff, 0xff, 0xff, 0xff, 0xff, 0xff, 0xff, 0xff, 0xff, 0xff, 0xff, 0xff, 0xff, 0xff, 0xff,
     0xff, 0xff, 0xff, 0xff, 0xff, 0xff, 0xff, 0xff, 0xff, 0xff, 0xff, 0xff, 0xff, 0xff, 0xff, 0xff,
     0xff, 0xff, 0xff, 0xff, 0xff, 0xff, 0xff, 0xff, 0xff, 0xff, 0xff, 0xff, 0xff, 0xff, 0xff, 0xff,
     0xff, 0xff, 0xff, 0xff, 0xff, 0xff, 0xff, 0xff, 0xff, 0xff, 0xff, 0xff, 0xff, 0xff, 0xff, 0xff,
     0xff, 0xff, 0xff, 0xff, 0xff, 0xff, 0xff, 0xff, 0xff, 0xff, 0xff, 0xff, 0xff, 0xff, 0xff, 0xff,
     0xff, 0xff, 0xff, 0xff, 0xff, 0xff, 0xff, 0xff, 0xff, 0xff, 0xff, 0xff, 0xff, 0xff, 0xff, 0xff,
     0xff, 0xff, 0xff, 0xff, 0xff, 0xff, 0xff, 0xff, 0xff, 0xff, 0xff, 0xff, 0xff, 0xff, 0xff, 0xff]"

definition char_from_sextet :: "byte \<Rightarrow> byte" where
  "char_from_sextet sextet = base64_alphabet ! unat sextet"

fun base64_encode :: "bytes \<Rightarrow> bytes" where
  "base64_encode [] = []"
| "base64_encode [a] =
     [char_from_sextet (drop_bit 2 a AND 0x3f),
      char_from_sextet (push_bit 4 a AND 0x30), pad, pad]"
| "base64_encode [a, b] =
     [char_from_sextet (drop_bit 2 a AND 0x3f),
      char_from_sextet ((push_bit 4 a AND 0x30) OR (drop_bit 4 b AND 0x0f)),
      char_from_sextet (push_bit 2 b AND 0x3c), pad]"
| "base64_encode (a # b # c # rest) =
     [char_from_sextet (drop_bit 2 a AND 0x3f),
      char_from_sextet ((push_bit 4 a AND 0x30) OR (drop_bit 4 b AND 0x0f)),
      char_from_sextet ((push_bit 2 b AND 0x3c) OR (drop_bit 6 c AND 0x03)),
      char_from_sextet (c AND 0x3f)] @ base64_encode rest"

definition sextet_from_char :: "byte \<Rightarrow> bool \<Rightarrow> error_code + byte" where
  "sextet_from_char c pad_allowed =
     (if \<not> pad_allowed \<and> c = pad then Inl (decoding_ec DE_badBase64Padding)
      else let sextet = base64_table ! unat c
           in if sextet = 0xff then Inl (decoding_ec DE_badBase64Char) else Inr sextet)"

text \<open>The characters of a quad are converted in order; the first error is returned.\<close>

fun sextets_from_chars :: "bytes \<Rightarrow> bool \<Rightarrow> error_code + bytes" where
  "sextets_from_chars [] pad_allowed = Inr []"
| "sextets_from_chars (c # cs) pad_allowed =
     (case sextet_from_char c pad_allowed of
        Inl e \<Rightarrow> Inl e
      | Inr s \<Rightarrow> (case sextets_from_chars cs pad_allowed of Inl e \<Rightarrow> Inl e | Inr ss \<Rightarrow> Inr (s # ss)))"

definition triplet_from_sextets :: "bytes \<Rightarrow> bytes" where
  "triplet_from_sextets s =
     [(push_bit 2 (s ! 0) AND 0xfc) OR (drop_bit 4 (s ! 1) AND 0x03),
      (push_bit 4 (s ! 1) AND 0xf0) OR (drop_bit 2 (s ! 2) AND 0x0f),
      (push_bit 6 (s ! 2) AND 0xc0) OR (s ! 3 AND 0x3f)]"

definition triplet_from_quad :: "bytes \<Rightarrow> bool \<Rightarrow> error_code + bytes" where
  "triplet_from_quad quad pad_allowed =
     (case sextets_from_chars quad pad_allowed of
        Inl e \<Rightarrow> Inl e
      | Inr s \<Rightarrow> Inr (triplet_from_sextets s))"

text \<open>The last quad, the only one in which the padding character may occur.\<close>

definition decode_last_quad :: "byte \<Rightarrow> byte \<Rightarrow> byte \<Rightarrow> byte \<Rightarrow> bytes \<Rightarrow> error_code \<times> bytes" where
  "decode_last_quad q0 q1 q2 q3 out =
     (case triplet_from_quad [q0, q1, q2, q3] True of
        Inl e \<Rightarrow> (e, out)
      | Inr triplet \<Rightarrow>
          if q0 = pad \<or> q1 = pad then (decoding_ec DE_badBase64Padding, out)
          else if q2 = pad \<and> q3 \<noteq> pad then (decoding_ec DE_badBase64Padding, out)
          else let count = (if q2 = pad then 1 else if q3 = pad then 2 else 3)
               in (no_error, out @ take count triplet))"

fun decode_quads :: "bytes \<Rightarrow> bytes \<Rightarrow> error_code \<times> bytes" where
  "decode_quads [q0, q1, q2, q3] out = decode_last_quad q0 q1 q2 q3 out"
| "decode_quads (q0 # q1 # q2 # q3 # rest) out =
     (case triplet_from_quad [q0, q1, q2, q3] False of
        Inl e \<Rightarrow> (e, out)
      | Inr triplet \<Rightarrow> decode_quads rest (out @ triplet))"
| "decode_quads _ out = (no_error, out)"

definition base64_decode :: "bytes \<Rightarrow> bytes \<Rightarrow> error_code \<times> bytes" where
  "base64_decode data out =
     (if length data = 0 then (no_error, out)
      else if length data mod 4 \<noteq> 0 then (decoding_ec DE_badBase64Length, out)
      else decode_quads data out)"

lemma byte_masks:
  "(0x03 :: byte) = mask 2" "(0x0f :: byte) = mask 4" "(0x3f :: byte) = mask 6"
  "(0x30 :: byte) = push_bit 4 (mask 2)" "(0x3c :: byte) = push_bit 2 (mask 4)"
  "(0xfc :: byte) = push_bit 2 (mask 6)" "(0xf0 :: byte) = push_bit 4 (mask 4)"
  "(0xc0 :: byte) = push_bit 6 (mask 2)"
  by (simp_all add: mask_eq_exp_minus_1 push_bit_eq_mult)

lemma triplet_of_sextets:
  fixes a b c :: byte
  shows "triplet_from_sextets [drop_bit 2 a AND 0x3f,
      (push_bit 4 a AND 0x30) OR (drop_bit 4 b AND 0x0f),
      (push_bit 2 b AND 0x3c) OR (drop_bit 6 c AND 0x03), c AND 0x3f] = [a, b, c]"
proof -
  note bits = bit_or_iff bit_and_iff bit_push_bit_iff bit_mask_iff bit_drop_bit_eq
  have *: "i < LENGTH(8) \<Longrightarrow> i = 0 \<or> i = 1 \<or> i = 2 \<or> i = 3 \<or> i = 4 \<or> i = 5 \<or> i = 6 \<or> i = 7" for i :: nat by (simp, arith)
  show ?thesis
  unfolding triplet_from_sextets_def byte_masks
  apply (simp)
  apply (intro conjI bit_word_eqI)
    apply (drule *, elim disjE; simp add: bits)+
  done
qed
lemma sextet_small:
  fixes a :: byte
  shows "unat (a AND 0x3f) < 64"
proof -
  have "a AND 0x3f = take_bit 6 a" by (simp add: take_bit_eq_mask byte_masks)
  then have "unat (a AND 0x3f) = take_bit 6 (unat a)" by (simp add: unsigned_take_bit_eq)
  also have "\<dots> < 2 ^ 6" by (rule take_bit_nat_less_exp)
  finally show ?thesis by simp
qed

lemma sextets_small:
  fixes a b c :: byte
  shows "unat (drop_bit 2 a AND 0x3f) < 64" "unat (c AND 0x3f) < 64"
    "unat ((push_bit 4 a AND 0x30) OR (drop_bit 4 b AND 0x0f)) < 64"
    "unat ((push_bit 2 b AND 0x3c) OR (drop_bit 6 c AND 0x03)) < 64"
    "unat (push_bit 4 a AND 0x30) < 64" "unat (push_bit 2 b AND 0x3c) < 64"
proof -
  have sub: "w = w AND 0x3f \<Longrightarrow> unat w < 64" for w :: byte
    using sextet_small [of w] by simp
  show "unat (drop_bit 2 a AND 0x3f) < 64" "unat (c AND 0x3f) < 64" by (rule sextet_small)+
  show "unat ((push_bit 4 a AND 0x30) OR (drop_bit 4 b AND 0x0f)) < 64"
    "unat ((push_bit 2 b AND 0x3c) OR (drop_bit 6 c AND 0x03)) < 64"
    "unat (push_bit 4 a AND 0x30) < 64" "unat (push_bit 2 b AND 0x3c) < 64"
    by (intro sub; simp add: and.assoc bit.conj_disj_distrib2)+
qed

text \<open>The characters with an entry in the table, apart from the padding, are the alphabet's.\<close>

definition alphabet_code :: "nat \<Rightarrow> bool" where
  "alphabet_code i \<longleftrightarrow> i = 43 \<or> 47 \<le> i \<and> i < 58 \<or> 65 \<le> i \<and> i < 91 \<or> 97 \<le> i \<and> i < 123"

lemma table_entries:
  "map (\<lambda>x. x \<noteq> 0xff) base64_table = map (\<lambda>i. alphabet_code i \<or> i = 61) [0..<256]"
  by (simp add: base64_table_def upt_rec [of _ "256"] alphabet_code_def)

lemma table_of_alphabet:
  "map (\<lambda>a. base64_table ! unat a) base64_alphabet = map word_of_nat [0..<64]"
  by (simp add: base64_table_def base64_alphabet_def upt_rec [of _ "64"])

lemma alphabet_codes:
  "map unat base64_alphabet = [65..<91] @ [97..<123] @ [48..<58] @ [43, 47]"
  by (simp add: base64_alphabet_def upt_rec_numeral)

lemma in_alphabet_iff: "c \<in> set base64_alphabet \<longleftrightarrow> alphabet_code (unat c)"
proof -
  have "c \<in> set base64_alphabet \<longleftrightarrow> unat c \<in> set (map unat base64_alphabet)"
    by (auto simp: word_unat_eq_iff [symmetric])
  also have "\<dots> \<longleftrightarrow> alphabet_code (unat c)"
    unfolding alphabet_codes alphabet_code_def set_append set_upt Un_iff atLeastLessThan_iff
    by (auto simp only: list.set insert_iff empty_iff)
  finally show ?thesis .
qed

lemma pad_not_in_alphabet: "pad \<notin> set base64_alphabet"
  by (simp add: in_alphabet_iff alphabet_code_def pad_def)

lemma table_known: "base64_table ! unat c \<noteq> 0xff \<longleftrightarrow> c \<in> set base64_alphabet \<or> c = pad"
proof -
  have c: "unat c < 256" using unsigned_less [of c] by simp
  have len: "length base64_table = 256" by (simp add: base64_table_def)
  have "base64_table ! unat c \<noteq> 0xff \<longleftrightarrow> map (\<lambda>x. x \<noteq> 0xff) base64_table ! unat c"
    using c len by simp
  also have "\<dots> \<longleftrightarrow> alphabet_code (unat c) \<or> unat c = 61"
    unfolding table_entries using c by simp
  also have "unat c = 61 \<longleftrightarrow> c = pad"
    using word_unat_eq_iff [of c pad] by (simp add: pad_def)
  finally show ?thesis by (simp add: in_alphabet_iff)
qed

lemma char_from_sextet:
  assumes "unat s < 64"
  shows "char_from_sextet s \<noteq> pad" "sextet_from_char (char_from_sextet s) p = Inr s"
proof -
  have len: "length base64_alphabet = 64" by (simp add: base64_alphabet_def)
  with assms have "char_from_sextet s \<in> set base64_alphabet" by (simp add: char_from_sextet_def)
  with pad_not_in_alphabet show *: "char_from_sextet s \<noteq> pad" by metis
  have "map (\<lambda>a. base64_table ! unat a) base64_alphabet ! unat s = s"
    unfolding table_of_alphabet using assms by simp
  then have "base64_table ! unat (char_from_sextet s) = s"
    using assms len by (simp add: char_from_sextet_def)
  moreover have "s \<noteq> 0xff" using assms by auto
  ultimately show "sextet_from_char (char_from_sextet s) p = Inr s"
    using * by (simp add: sextet_from_char_def)
qed

lemma sextet_from_pad: "sextet_from_char pad True = Inr 0"
  by (simp add: sextet_from_char_def pad_def base64_table_def)

lemma sextet_from_char_ok:
  "is_ok (sextet_from_char c p) \<longleftrightarrow> c \<in> set base64_alphabet \<or> (p \<and> c = pad)"
  using table_known [of c] pad_not_in_alphabet by (auto simp: sextet_from_char_def Let_def)

lemma triplet_from_quad_ok:
  "is_ok (triplet_from_quad [q0, q1, q2, q3] p) \<longleftrightarrow>
     (\<forall>q \<in> {q0, q1, q2, q3}. q \<in> set base64_alphabet \<or> (p \<and> q = pad))"
  unfolding sextet_from_char_ok [symmetric]
  by (auto simp: triplet_from_quad_def split: sum.splits)

text \<open>The quad of three bytes, the last two of which may be missing.\<close>

lemma triplet_of_encoded:
  "triplet_from_quad [char_from_sextet (drop_bit 2 a AND 0x3f),
      char_from_sextet ((push_bit 4 a AND 0x30) OR (drop_bit 4 b AND 0x0f)),
      char_from_sextet ((push_bit 2 b AND 0x3c) OR (drop_bit 6 c AND 0x03)),
      char_from_sextet (c AND 0x3f)] p = Inr [a, b, c]"
  "triplet_from_quad [char_from_sextet (drop_bit 2 a AND 0x3f),
      char_from_sextet ((push_bit 4 a AND 0x30) OR (drop_bit 4 b AND 0x0f)),
      char_from_sextet (push_bit 2 b AND 0x3c), pad] True = Inr [a, b, 0]"
  "triplet_from_quad [char_from_sextet (drop_bit 2 a AND 0x3f),
      char_from_sextet (push_bit 4 a AND 0x30), pad, pad] True = Inr [a, 0, 0]"
  using triplet_of_sextets [of a b c] triplet_of_sextets [of a b 0] triplet_of_sextets [of a 0 0]
  by (simp_all add: triplet_from_quad_def char_from_sextet sextets_small sextet_from_pad)

lemma decode_quads_Cons:
  "rest \<noteq> [] \<Longrightarrow> decode_quads (q0 # q1 # q2 # q3 # rest) out =
     (case triplet_from_quad [q0, q1, q2, q3] False of
        Inl e \<Rightarrow> (e, out)
      | Inr triplet \<Rightarrow> decode_quads rest (out @ triplet))"
  by (cases rest) (auto split: sum.splits)

lemma base64_encode_eq_Nil [simp]: "base64_encode bs = [] \<longleftrightarrow> bs = []"
  by (cases bs rule: base64_encode.cases) simp_all

lemma base64_encode_length: "length (base64_encode bs) = 4 * ((length bs + 2) div 3)"
proof (induction bs rule: base64_encode.induct)
  case (4 a b c rest)
  have "(length (a # b # c # rest) + 2) div 3 = Suc ((length rest + 2) div 3)"
    by (simp add: div_add_self2 [of 3 "length rest + 2", symmetric] del: div_add_self2)
  with 4 show ?case by simp
qed simp_all

lemma decode_encoded: "bs \<noteq> [] \<Longrightarrow> decode_quads (base64_encode bs) out = (no_error, out @ bs)"
proof (induction bs arbitrary: out rule: base64_encode.induct)
  case (4 a b c rest)
  show ?case
  proof (cases "rest = []")
    case True
    then show ?thesis
      by (simp add: decode_last_quad_def triplet_of_encoded char_from_sextet sextets_small)
  next
    case False
    with 4 show ?thesis by (simp add: decode_quads_Cons triplet_of_encoded)
  qed
qed (simp_all add: decode_last_quad_def triplet_of_encoded char_from_sextet sextets_small)

text \<open>
  C28: decoding what \<open>encode\<close> appends to a sink succeeds and appends exactly the encoded
  bytes to the out.
\<close>

theorem base64_roundtrip: "base64_decode (base64_encode bs) out = (no_error, out @ bs)"
  by (cases "bs = []")
    (simp_all add: base64_decode_def base64_encode_length decode_encoded div_greater_zero_iff
      Suc_le_eq)

text \<open>The texts of the RFC: quads of alphabet characters, the last one perhaps padded.\<close>

fun base64_text :: "bytes \<Rightarrow> bool" where
  "base64_text [] \<longleftrightarrow> True"
| "base64_text [q0, q1, q2, q3] \<longleftrightarrow> q0 \<in> set base64_alphabet \<and> q1 \<in> set base64_alphabet \<and>
     (q2 = pad \<and> q3 = pad \<or>
      q2 \<in> set base64_alphabet \<and> (q3 = pad \<or> q3 \<in> set base64_alphabet))"
| "base64_text (q0 # q1 # q2 # q3 # rest) \<longleftrightarrow> set [q0, q1, q2, q3] \<subseteq> set base64_alphabet \<and>
     base64_text rest"
| "base64_text _ \<longleftrightarrow> False"

lemma decoding_ec_not_success: "decoding_ec e \<noteq> no_error"
  by (simp add: decoding_ec_def no_error_def)

lemma triplet_from_quad_error: "triplet_from_quad q p = Inl e \<Longrightarrow> \<exists>d. e = decoding_ec d"
proof -
  have "sextets_from_chars q p = Inl e \<Longrightarrow> \<exists>d. e = decoding_ec d"
    by (induction q) (auto simp: sextet_from_char_def Let_def split: sum.splits if_splits)
  then show "triplet_from_quad q p = Inl e \<Longrightarrow> \<exists>d. e = decoding_ec d"
    by (auto simp: triplet_from_quad_def split: sum.splits)
qed

lemma decode_last_quad_ok:
  "fst (decode_last_quad q0 q1 q2 q3 out) = no_error \<longleftrightarrow> base64_text [q0, q1, q2, q3]"
proof (cases "triplet_from_quad [q0, q1, q2, q3] True")
  case (Inl e)
  then have "\<exists>q \<in> {q0, q1, q2, q3}. q \<notin> set base64_alphabet \<and> q \<noteq> pad"
    using triplet_from_quad_ok [of q0 q1 q2 q3 True] by auto
  then show ?thesis
    using triplet_from_quad_error [OF Inl] Inl by (auto simp: decode_last_quad_def decoding_ec_not_success)
next
  case (Inr t)
  then have known: "\<forall>q \<in> {q0, q1, q2, q3}. q \<in> set base64_alphabet \<or> q = pad"
    using triplet_from_quad_ok [of q0 q1 q2 q3 True] by auto
  have "fst (decode_last_quad q0 q1 q2 q3 out) = no_error \<longleftrightarrow>
      q0 \<noteq> pad \<and> q1 \<noteq> pad \<and> (q2 = pad \<longrightarrow> q3 = pad)"
    by (simp add: decode_last_quad_def Inr decoding_ec_not_success Let_def)
  then show ?thesis
    using known pad_not_in_alphabet by (auto simp only: base64_text.simps insert_iff)
qed

lemma decode_quads_ok:
  "length data mod 4 = 0 \<Longrightarrow> fst (decode_quads data out) = no_error \<longleftrightarrow> base64_text data"
proof (induction data out rule: decode_quads.induct)
  case (1 q0 q1 q2 q3 out)
  then show ?case by (simp only: decode_quads.simps decode_last_quad_ok)
next
  case (2 q0 q1 q2 q3 v va out)
  have len: "length (v # va) mod 4 = 0" using "2.prems" by (simp, presburger)
  show ?case
  proof (cases "triplet_from_quad [q0, q1, q2, q3] False")
    case (Inl e)
    then show ?thesis
      using triplet_from_quad_error [OF Inl] triplet_from_quad_ok [of q0 q1 q2 q3 False]
      by (auto simp: decoding_ec_not_success)
  next
    case (Inr t)
    then show ?thesis
      using "2.IH" [OF Inr len] triplet_from_quad_ok [of q0 q1 q2 q3 False] by simp
  qed
qed simp_all

text \<open>
  \<open>decode\<close> succeeds exactly on the texts made of quads of alphabet characters of which
  only the last may end in one or two padding characters.
\<close>

theorem base64_decode_accepts: "fst (base64_decode data out) = no_error \<longleftrightarrow> base64_text data"
proof -
  have "base64_text data \<Longrightarrow> length data mod 4 = 0"
  proof (induction data rule: base64_text.induct)
    case (3 q0 q1 q2 q3 v va)
    then show ?case by (simp, presburger)
  qed auto
  then show ?thesis
    using decode_quads_ok [of data out]
    by (cases "data = []") (auto simp: base64_decode_def decoding_ec_not_success)
qed

end
