(* ===== verification/Variant_Codec.thy ===== *)
theory Variant_Codec
  imports Variant_Model Base64
begin

section \<open>Encoding and decoding of variants\<close>

text \<open>
  The code under \<open>internal/variantencoding.hpp\<close>, \<open>internal/jsonencoding.hpp\<close> and
  \<open>internal/variantdecoding.hpp\<close> stands between a variant and the events of the jsoncons
  library: the encoding visitors call an encoder, a parser calls the decoding visitors.  The
  model is that layer: an event is one such call.  jsoncons itself, which turns events into
  bytes and back, is not modelled.

  The decoding visitor keeps a stack of pointers to the containers that are open inside its
  root variant.  A pointer is modelled by the path from the root to the container; only the
  container at the top of the stack is ever modified, so no pointer is invalidated while it is
  on the stack.  \<open>None\<close> stands for a violated assertion followed by undefined behaviour.
\<close>

subsection \<open>Encoding\<close>

datatype codec_event =
    Ev_null
  | Ev_bool bool
  | Ev_int u64
  | Ev_uint u64
  | Ev_double double
  | Ev_string string
  | Ev_bytes bytes
  | Ev_begin_array "nat option"
  | Ev_end_array
  | Ev_begin_object nat
  | Ev_key string
  | Ev_end_object

text \<open>\<open>VariantEncodingVisitor\<close>\<close>

fun encode_events :: "variant \<Rightarrow> codec_event list" where
  "encode_events V_null = [Ev_null]"
| "encode_events (V_bool b) = [Ev_bool b]"
| "encode_events (V_int n) = [Ev_int n]"
| "encode_events (V_uint n) = [Ev_uint n]"
| "encode_events (V_real x) = [Ev_double x]"
| "encode_events (V_string s) = [Ev_string s]"
| "encode_events (V_blob b) = [Ev_bytes b]"
| "encode_events (V_array a) =
     Ev_begin_array (Some (length a)) # concat (map encode_events a) @ [Ev_end_array]"
| "encode_events (V_object ob) =
     Ev_begin_object (length ob) #
     concat (map (\<lambda>kv. Ev_key (fst kv) # encode_events (snd kv)) ob) @ [Ev_end_object]"

text \<open>
  \<open>JsonVariantEncodingVisitor\<close> shares the sink with the encoder: blobs are written to it
  directly.  A context tells whether the visitor is inside an array, and whether that array
  has an element already.
\<close>

datatype json_output = Encoder_call codec_event | Sink_bytes bytes

record json_context =
  is_array :: bool
  is_populated :: bool

definition needs_array_separator :: "json_context \<Rightarrow> bool" where
  "needs_array_separator c \<longleftrightarrow> is_array c \<and> is_populated c"

definition json_enter :: "bool \<Rightarrow> json_context list \<Rightarrow> json_context list" where
  "json_enter array cs = \<lparr>is_array = array, is_populated = False\<rparr> # cs"

definition json_leave :: "json_context list \<Rightarrow> json_context list" where
  "json_leave cs = tl cs"

definition json_next :: "json_context list \<Rightarrow> json_context list" where
  "json_next cs = (case cs of [] \<Rightarrow> [] | c # cs' \<Rightarrow> c\<lparr>is_populated := True\<rparr> # cs')"

text \<open>The characters \<open>"\<close>, \<open>\\u0000\<close>\<close>

definition blob_prefix :: bytes where
  "blob_prefix = [34, 92, 117, 48, 48, 48, 48]"

definition json_blob :: "bytes \<Rightarrow> json_context list \<Rightarrow> json_output list" where
  "json_blob b cs =
     (if cs \<noteq> [] \<and> needs_array_separator (hd cs) then [Sink_bytes [44]] else []) @
     [Sink_bytes blob_prefix, Sink_bytes (base64_encode b), Sink_bytes [34]]"

fun json_encode :: "variant \<Rightarrow> json_context list \<Rightarrow> json_output list \<times> json_context list"
  and json_encode_elements :: "variant list \<Rightarrow> json_context list \<Rightarrow> json_output list \<times> json_context list"
  and json_encode_members ::
    "(string \<times> variant) list \<Rightarrow> json_context list \<Rightarrow> json_output list \<times> json_context list" where
  "json_encode V_null cs = ([Encoder_call Ev_null], json_next cs)"
| "json_encode (V_bool b) cs = ([Encoder_call (Ev_bool b)], json_next cs)"
| "json_encode (V_int n) cs = ([Encoder_call (Ev_int n)], json_next cs)"
| "json_encode (V_uint n) cs = ([Encoder_call (Ev_uint n)], json_next cs)"
| "json_encode (V_real x) cs = ([Encoder_call (Ev_double x)], json_next cs)"
| "json_encode (V_string s) cs = ([Encoder_call (Ev_string s)], json_next cs)"
| "json_encode (V_blob b) cs = (json_blob b cs, json_next cs)"
| "json_encode (V_array a) cs =
     (let (out, cs1) = json_encode_elements a (json_enter True cs)
      in (Encoder_call (Ev_begin_array (Some (length a))) # out @ [Encoder_call Ev_end_array],
          json_next (json_leave cs1)))"
| "json_encode (V_object ob) cs =
     (let (out, cs1) = json_encode_members ob (json_enter False cs)
      in (Encoder_call (Ev_begin_object (length ob)) # out @ [Encoder_call Ev_end_object],
          json_next (json_leave cs1)))"
| "json_encode_elements [] cs = ([], cs)"
| "json_encode_elements (x # xs) cs =
     (let (out1, cs1) = json_encode x cs; (out2, cs2) = json_encode_elements xs cs1
      in (out1 @ out2, cs2))"
| "json_encode_members [] cs = ([], cs)"
| "json_encode_members ((k, x) # xs) cs =
     (let (out1, cs1) = json_encode x cs; (out2, cs2) = json_encode_members xs cs1
      in (Encoder_call (Ev_key k) # out1 @ out2, cs2))"

definition json_encode_variant :: "variant \<Rightarrow> json_output list" where
  "json_encode_variant v = fst (json_encode v (json_enter False []))"

subsection \<open>Paths\<close>

datatype path_step = Elem nat | Member string

type_synonym path = "path_step list"

fun child_at :: "path_step \<Rightarrow> variant \<Rightarrow> variant option" where
  "child_at (Elem i) (V_array a) = vec_at a i"
| "child_at (Member k) (V_object ob) = omap_find ob k"
| "child_at _ _ = None"

fun update_child :: "path_step \<Rightarrow> (variant \<Rightarrow> variant) \<Rightarrow> variant \<Rightarrow> variant" where
  "update_child (Elem i) f (V_array a) =
     V_array (case vec_at a i of Some x \<Rightarrow> a[i := f x] | None \<Rightarrow> a)"
| "update_child (Member k) f (V_object ob) =
     V_object (omap_adjust k f ob)"
| "update_child _ f v = v"

fun at_path :: "path \<Rightarrow> variant \<Rightarrow> variant option" where
  "at_path [] v = Some v"
| "at_path (s # p) v = (case child_at s v of Some w \<Rightarrow> at_path p w | None \<Rightarrow> None)"

fun update_at :: "path \<Rightarrow> (variant \<Rightarrow> variant) \<Rightarrow> variant \<Rightarrow> variant" where
  "update_at [] f v = f v"
| "update_at (s # p) f v = update_child s (update_at p f) v"

subsection \<open>Decoding\<close>

text \<open>The bytes of a string, and the string that has given bytes.\<close>

definition bytes_of_string :: "string \<Rightarrow> bytes" where
  "bytes_of_string s = map (\<lambda>c. word_of_nat (of_char c)) s"

definition string_of_bytes :: "bytes \<Rightarrow> string" where
  "string_of_bytes bs = map (\<lambda>b. char_of (unat b)) bs"

lemma bytes_of_string_of_bytes [simp]: "bytes_of_string (string_of_bytes bs) = bs"
proof -
  have "word_of_nat (of_char (char_of (unat b))) = b" for b :: "byte"
  proof -
    have "unat b < 256" using unsigned_less [of b, where ?'a = nat] by simp
    then have "of_char (char_of (unat b)) = unat b" by (simp only: of_char_of mod_less)
    then show ?thesis by (simp only:) simp
  qed
  then show ?thesis by (simp add: bytes_of_string_def string_of_bytes_def comp_def del: of_char_of)
qed

record decode_context =
  ctx_path :: path
  ctx_key_is_done :: bool

text \<open>The head of \<open>d_stack\<close> is the back of \<open>contextStack_\<close>.\<close>

record decoder =
  d_stack :: "decode_context list"
  d_key :: string
  d_root :: variant
  d_has_root :: bool

definition decoder_reset :: decoder where
  "decoder_reset = \<lparr>d_stack = [], d_key = '''', d_root = V_null, d_has_root = False\<rparr>"

definition push_context :: "bool \<Rightarrow> path \<Rightarrow> decode_context list \<Rightarrow> decode_context list" where
  "push_context composite p cs =
     (if composite then \<lparr>ctx_path = p, ctx_key_is_done = False\<rparr> # cs else cs)"

definition add_root :: "variant \<Rightarrow> bool \<Rightarrow> decoder \<Rightarrow> decoder \<times> error_code" where
  "add_root v composite d =
     (d\<lparr>d_root := v, d_has_root := True, d_stack := push_context composite [] (d_stack d)\<rparr>, no_error)"

definition add_array_element ::
    "variant list \<Rightarrow> path \<Rightarrow> variant \<Rightarrow> bool \<Rightarrow> decoder \<Rightarrow> decoder \<times> error_code" where
  "add_array_element a p v composite d =
     (d\<lparr>d_root := update_at p (\<lambda>_. V_array (a @ [v])) (d_root d),
        d_stack := push_context composite (p @ [Elem (length a)]) (d_stack d)\<rparr>, no_error)"

text \<open>A key that has been moved into the map leaves \<open>key_\<close> empty.\<close>

definition add_object_element ::
    "vobject \<Rightarrow> decode_context \<Rightarrow> variant \<Rightarrow> bool \<Rightarrow> decoder \<Rightarrow> decoder \<times> error_code" where
  "add_object_element ob c v composite d =
     (if \<not> ctx_key_is_done c then (d, decoding_ec DE_expectedStringKey)
      else let p = ctx_path c; k = d_key d;
               d1 = (case omap_find ob k of
                       None \<Rightarrow> d\<lparr>d_root := update_at p (\<lambda>_. V_object (omap_emplace k v ob)) (d_root d),
                                d_key := ''''\<rparr>
                     | Some _ \<Rightarrow> d\<lparr>d_root := update_at p (\<lambda>_. V_object (omap_put k v ob)) (d_root d)\<rparr>)
           in (d1\<lparr>d_stack := push_context composite (p @ [Member k])
                     (c\<lparr>ctx_key_is_done := False\<rparr> # tl (d_stack d))\<rparr>, no_error))"

definition put :: "variant \<Rightarrow> bool \<Rightarrow> decoder \<Rightarrow> (decoder \<times> error_code) option" where
  "put v composite d =
     (case d_stack d of
        [] \<Rightarrow> Some (add_root v composite d)
      | c # _ \<Rightarrow>
          (case at_path (ctx_path c) (d_root d) of
             Some (V_array a) \<Rightarrow> Some (add_array_element a (ctx_path c) v composite d)
           | Some (V_object ob) \<Rightarrow> Some (add_object_element ob c v composite d)
           | _ \<Rightarrow> None))"

definition put_key :: "string \<Rightarrow> decoder \<Rightarrow> decoder option" where
  "put_key k d =
     (case d_stack d of
        [] \<Rightarrow> None
      | c # cs \<Rightarrow> Some (d\<lparr>d_key := k, d_stack := c\<lparr>ctx_key_is_done := True\<rparr> # cs\<rparr>))"

definition expects_key :: "decode_context \<Rightarrow> decoder \<Rightarrow> bool" where
  "expects_key c d \<longleftrightarrow>
     (case at_path (ctx_path c) (d_root d) of Some (V_object _) \<Rightarrow> \<not> ctx_key_is_done c | _ \<Rightarrow> False)"

definition end_composite :: "decoder \<Rightarrow> decoder option" where
  "end_composite d = (if d_stack d = [] then None else Some (d\<lparr>d_stack := tl (d_stack d)\<rparr>))"

text \<open>
  The visit functions return the state, the error code they assign and whether parsing goes on.
  \<open>visit_value\<close> is the common form of the scalar ones; the composite ones and the string ones
  of \<open>VariantDecodingVisitor\<close> drop the error code that \<open>put\<close> returns.
\<close>

definition visit_value :: "variant \<Rightarrow> decoder \<Rightarrow> (decoder \<times> error_code \<times> bool) option" where
  "visit_value v d = map_option (\<lambda>(d', ec). (d', ec, \<not> ec_bool ec)) (put v False d)"

definition visit_ignoring_error :: "variant \<Rightarrow> bool \<Rightarrow> decoder \<Rightarrow> (decoder \<times> error_code \<times> bool) option" where
  "visit_ignoring_error v composite d =
     map_option (\<lambda>(d', ec). (d', no_error, True)) (put v composite d)"

definition visit_uint64 :: "u64 \<Rightarrow> decoder \<Rightarrow> (decoder \<times> error_code \<times> bool) option" where
  "visit_uint64 n d = (if n \<le> 0x7FFFFFFFFFFFFFFF then visit_value (V_int n) d else visit_value (V_uint n) d)"

definition visit_end :: "decoder \<Rightarrow> (decoder \<times> error_code \<times> bool) option" where
  "visit_end d = map_option (\<lambda>d'. (d', no_error, True)) (end_composite d)"

definition json_visit_string :: "string \<Rightarrow> decoder \<Rightarrow> (decoder \<times> error_code \<times> bool) option" where
  "json_visit_string s d =
     (if s \<noteq> [] \<and> hd s = CHR 0x00 then
        let (ec, data) = base64_decode (bytes_of_string (tl s)) []
        in if \<not> ec_bool ec then
             map_option (\<lambda>(d', _). (d', ec, True)) (put (V_blob data) False d)
           else Some (d, ec, True)
      else visit_ignoring_error (V_string s) False d)"

definition generic_visit_string :: "string \<Rightarrow> decoder \<Rightarrow> (decoder \<times> error_code \<times> bool) option" where
  "generic_visit_string s d =
     (case d_stack d of
        c # _ \<Rightarrow>
          if expects_key c d then map_option (\<lambda>d'. (d', no_error, True)) (put_key s d)
          else visit_ignoring_error (V_string s) False d
      | [] \<Rightarrow> visit_ignoring_error (V_string s) False d)"

text \<open>
  \<open>json\<close> selects \<open>VariantJsonDecodingVisitor\<close>; the other visitor, for CBOR and MessagePack, gets
  the keys of objects as strings, and has no \<open>visit_key\<close>.
\<close>

fun visit :: "bool \<Rightarrow> decoder \<Rightarrow> codec_event \<Rightarrow> (decoder \<times> error_code \<times> bool) option" where
  "visit json d Ev_null = visit_value V_null d"
| "visit json d (Ev_bool b) = visit_value (V_bool b) d"
| "visit json d (Ev_int n) = visit_value (V_int n) d"
| "visit json d (Ev_uint n) = visit_uint64 n d"
| "visit json d (Ev_double x) = visit_value (V_real x) d"
| "visit json d (Ev_string s) = (if json then json_visit_string s d else generic_visit_string s d)"
| "visit json d (Ev_bytes b) = visit_value (V_blob b) d"
| "visit json d (Ev_begin_array len) = visit_ignoring_error (V_array []) True d"
| "visit json d Ev_end_array = visit_end d"
| "visit json d (Ev_begin_object len) = visit_ignoring_error (V_object []) True d"
| "visit json d (Ev_key k) =
     (if json then map_option (\<lambda>d'. (d', no_error, True)) (put_key k d) else Some (d, no_error, True))"
| "visit json d Ev_end_object = visit_end d"

text \<open>A parser stops when the visitor reports an error or returns false.\<close>

fun visit_all :: "bool \<Rightarrow> decoder \<Rightarrow> codec_event list \<Rightarrow> (decoder \<times> error_code) option" where
  "visit_all json d [] = Some (d, no_error)"
| "visit_all json d (e # es) =
     (case visit json d e of
        None \<Rightarrow> None
      | Some (d', ec, go_on) \<Rightarrow>
          if ec_bool ec \<or> \<not> go_on then Some (d', ec) else visit_all json d' es)"

text \<open>
  \<open>JsonDecoderImpl::decode\<close> and \<open>GenericDecoder::decode\<close>: the events that the parser produces
  and the error it ends with, given the variant to assign.
\<close>

definition decode_json ::
    "codec_event list \<Rightarrow> error_code \<Rightarrow> variant \<Rightarrow> (error_code \<times> variant) option" where
  "decode_json es parse_ec v =
     (case visit_all True decoder_reset es of
        None \<Rightarrow> None
      | Some (d, ec0) \<Rightarrow>
          let ec = (if ec_bool ec0 then ec0 else parse_ec)
          in if \<not> ec_bool ec then
               (if \<not> d_has_root d then Some (decoding_ec DE_emptyInput, v) else Some (ec, d_root d))
             else Some (ec, v))"

definition decode_generic ::
    "codec_event list \<Rightarrow> error_code \<Rightarrow> variant \<Rightarrow> (error_code \<times> variant) option" where
  "decode_generic es parse_ec v =
     (case visit_all False decoder_reset es of
        None \<Rightarrow> None
      | Some (d, ec0) \<Rightarrow>
          let ec = (if ec_bool ec0 then ec0 else parse_ec)
          in if \<not> ec_bool ec then Some (ec, d_root d) else Some (ec, v))"

subsection \<open>Reading and writing through a path\<close>

lemma at_path_append: "at_path (p @ q) v = (case at_path p v of Some w \<Rightarrow> at_path q w | None \<Rightarrow> None)"
  by (induction p arbitrary: v) (auto split: option.splits)

lemma update_at_append: "update_at (p @ q) f = update_at p (update_at q f)"
  by (induction p) auto

lemma child_at_update:
  "child_at s v = Some w \<Longrightarrow> child_at s (update_child s f v) = Some (f w)"
  by (induction s v rule: child_at.induct)
    (auto simp: vec_at_def omap_find_adjust split: if_splits option.splits)

lemma update_child_twice: "update_child s f (update_child s g v) = update_child s (\<lambda>x. f (g x)) v"
  by (induction s v rule: child_at.induct)
    (auto simp: vec_at_def omap_adjust_twice split: option.splits)

lemma update_child_cong:
  "child_at s v = Some w \<Longrightarrow> f w = g w \<Longrightarrow> update_child s f v = update_child s g v"
  by (induction s v rule: child_at.induct) (auto intro: omap_adjust_cong)

lemma update_child_self: "child_at s v = Some w \<Longrightarrow> update_child s (\<lambda>_. w) v = v"
  by (induction s v rule: child_at.induct) (auto simp: vec_at_def omap_adjust_self split: if_splits)

lemma at_path_update: "at_path p v = Some w \<Longrightarrow> at_path p (update_at p f v) = Some (f w)"
  by (induction p arbitrary: v) (auto simp: child_at_update split: option.splits)

lemma update_at_twice: "update_at p f (update_at p g v) = update_at p (\<lambda>x. f (g x)) v"
  by (induction p arbitrary: f g v) (simp_all add: update_child_twice)

lemma update_at_cong: "at_path p v = Some w \<Longrightarrow> f w = g w \<Longrightarrow> update_at p f v = update_at p g v"
  by (induction p arbitrary: v)
    (auto split: option.splits intro: update_child_cong)

lemma update_at_self: "at_path p v = Some w \<Longrightarrow> update_at p (\<lambda>_. w) v = v"
proof (induction p arbitrary: v)
  case (Cons s p)
  then obtain x where x: "child_at s v = Some x" "at_path p x = Some w"
    by (auto split: option.splits)
  then have "update_child s (update_at p (\<lambda>_. w)) v = update_child s (\<lambda>_. x) v"
    using Cons.IH [OF x(2)] by (intro update_child_cong) simp_all
  with x(1) show ?case by (simp add: update_child_self)
qed simp

lemmas path_simps = at_path_append update_at_append at_path_update update_at_twice

subsection \<open>What is read back\<close>

text \<open>
  The decoder turns unsigned numbers that a signed one can hold into signed ones.  The events
  that a parser reports for what an encoder was told may differ in this: numbers that are not
  negative may be reported as unsigned, lengths may be missing, the keys of CBOR and
  MessagePack objects are strings, and JSON has no byte strings.
\<close>

fun normalized :: "variant \<Rightarrow> variant" where
  "normalized (V_uint n) = (if n \<le> 0x7FFFFFFFFFFFFFFF then V_int n else V_uint n)"
| "normalized (V_array a) = V_array (map normalized a)"
| "normalized (V_object ob) = V_object (map (\<lambda>m. (fst m, normalized (snd m))) ob)"
| "normalized v = v"

definition blob_string :: "bytes \<Rightarrow> string" where
  "blob_string b = CHR 0x00 # string_of_bytes (base64_encode b)"

fun reads_as :: "bool \<Rightarrow> codec_event \<Rightarrow> codec_event \<Rightarrow> bool" where
  "reads_as json (Ev_int n) e \<longleftrightarrow> e = Ev_int n \<or> 0 \<le> sint n \<and> e = Ev_uint n"
| "reads_as json (Ev_key k) e \<longleftrightarrow> e = (if json then Ev_key k else Ev_string k)"
| "reads_as json (Ev_bytes b) e \<longleftrightarrow> e = (if json then Ev_string (blob_string b) else Ev_bytes b)"
| "reads_as json (Ev_begin_array len) e \<longleftrightarrow> (case e of Ev_begin_array len' \<Rightarrow> True | _ \<Rightarrow> False)"
| "reads_as json (Ev_begin_object len) e \<longleftrightarrow> (case e of Ev_begin_object len' \<Rightarrow> True | _ \<Rightarrow> False)"
| "reads_as json ev e \<longleftrightarrow> e = ev"

text \<open>
  What can be read back: objects are maps, and no JSON string starts with the null character,
  which marks a blob.
\<close>

fun decodable :: "bool \<Rightarrow> variant \<Rightarrow> bool" where
  "decodable json (V_string s) \<longleftrightarrow> \<not> (json \<and> s \<noteq> [] \<and> hd s = CHR 0x00)"
| "decodable json (V_array a) \<longleftrightarrow> (\<forall>x \<in> set a. decodable json x)"
| "decodable json (V_object ob) \<longleftrightarrow> omap_ok ob \<and> (\<forall>m \<in> set ob. decodable json (snd m))"
| "decodable json _ \<longleftrightarrow> True"

lemma ec_bool_simps [simp]: "\<not> ec_bool no_error" "ec_bool (decoding_ec e) \<longleftrightarrow> e \<noteq> DE_success"
  by (cases e; simp add: ec_bool_def no_error_def decoding_ec_def)+

lemma put_no_error_scalar:
  "put x False d = Some (d1, no_error) \<Longrightarrow> visit_value x d = Some (d1, no_error, True)"
  "put x False d = Some (d1, no_error) \<Longrightarrow> visit_ignoring_error x False d = Some (d1, no_error, True)"
  by (simp_all add: visit_value_def visit_ignoring_error_def)

lemma signed_in_range: "0 \<le> sint n \<Longrightarrow> n \<le> (0x7FFFFFFFFFFFFFFF :: u64)"
proof -
  assume "0 \<le> sint n"
  then have "uint n = sint n" by (simp add: sint_nonneg_uint)
  also have "\<dots> < 2 ^ 63" using sint_lt [of n] by simp
  finally show ?thesis by (simp add: word_le_def)
qed

text \<open>A composite value goes where the finished value would go.\<close>

lemma put_composite:
  assumes "put X False d = Some (d1, no_error)"
  shows "\<exists>p d2. put Y True d = Some (d2, no_error) \<and> at_path p (d_root d2) = Some Y \<and>
    d_stack d2 = \<lparr>ctx_path = p, ctx_key_is_done = False\<rparr> # d_stack d1 \<and>
    d_root d1 = update_at p (\<lambda>_. X) (d_root d2) \<and> d_has_root d1 = d_has_root d2"
proof (cases "d_stack d")
  case Nil
  with assms show ?thesis
    by (intro exI [of _ "[]"]) (auto simp: put_def add_root_def push_context_def)
next
  case (Cons c cs)
  then obtain w where w: "at_path (ctx_path c) (d_root d) = Some w"
    using assms by (auto simp: put_def split: option.splits)
  show ?thesis
  proof (cases w)
    case (V_array a)
    with assms Cons w show ?thesis
      by (intro exI [of _ "ctx_path c @ [Elem (length a)]"])
        (auto simp: put_def add_array_element_def push_context_def path_simps vec_at_def)
  next
    case (V_object ob)
    with assms Cons w show ?thesis
      by (intro exI [of _ "ctx_path c @ [Member (d_key d)]"])
        (auto simp: put_def add_object_element_def push_context_def path_simps omap_find_put
          omap_emplace_def omap_adjust_put Let_def decoding_ec_not_success split: if_splits option.splits)
  qed (use assms Cons w in \<open>auto simp: put_def\<close>)
qed

lemma base64_roundtrip_nil: "base64_decode (base64_encode b) [] = (no_error, b)"
  by (cases "b = []")
    (simp_all add: base64_decode_def base64_encode_length decode_encoded div_greater_zero_iff
      Suc_le_eq)

lemma visit_all_Cons:
  "visit json d e = Some (d1, no_error, True) \<Longrightarrow> visit_all json d (e # es) = visit_all json d1 es"
  by simp

lemma visit_end_Cons:
  "d_stack d = c # cs \<Longrightarrow> visit_end d = Some (d\<lparr>d_stack := cs\<rparr>, no_error, True)"
  by (simp add: visit_end_def end_composite_def)

text \<open>The decoder is at a place for a value: no key is due.\<close>

definition at_value :: "decoder \<Rightarrow> bool" where
  "at_value d \<longleftrightarrow> (case d_stack d of [] \<Rightarrow> True | c # _ \<Rightarrow> \<not> expects_key c d)"

lemma put_at_value: "put x False d = Some (d1, no_error) \<Longrightarrow> at_value d"
  by (auto simp: at_value_def put_def expects_key_def add_object_element_def
      decoding_ec_not_success split: list.splits option.splits variant.splits if_splits)

text \<open>Reading the events of a value has the effect of putting the value, but for \<open>key_\<close>.\<close>

definition reads_value :: "bool \<Rightarrow> variant \<Rightarrow> bool" where
  "reads_value json v \<longleftrightarrow> (\<forall>es rest d d1. list_all2 (reads_as json) (encode_events v) es \<longrightarrow>
     put (normalized v) False d = Some (d1, no_error) \<longrightarrow>
     (\<exists>k. visit_all json d (es @ rest) = visit_all json (d1\<lparr>d_key := k\<rparr>) rest))"

lemma reads_valueD:
  assumes "reads_value json v" "list_all2 (reads_as json) (encode_events v) es"
    "put (normalized v) False d = Some (d1, no_error)"
  obtains k where "visit_all json d (es @ rest) = visit_all json (d1\<lparr>d_key := k\<rparr>) rest"
proof -
  have "\<exists>k. visit_all json d (es @ rest) = visit_all json (d1\<lparr>d_key := k\<rparr>) rest"
    using assms unfolding reads_value_def by blast
  then show ?thesis using that by blast
qed

lemma reads_scalar:
  assumes "\<And>es. list_all2 (reads_as json) (encode_events v) es \<Longrightarrow> \<exists>e. es = [e] \<and>
    (\<forall>d d1. put (normalized v) False d = Some (d1, no_error) \<longrightarrow> visit json d e = Some (d1, no_error, True))"
  shows "reads_value json v"
  unfolding reads_value_def
proof (intro allI impI)
  fix es rest d d1
  assume "list_all2 (reads_as json) (encode_events v) es"
    and put: "put (normalized v) False d = Some (d1, no_error)"
  from assms [OF this(1)] obtain e where e: "es = [e]" "visit json d e = Some (d1, no_error, True)"
    using put by blast
  then have "visit_all json d (es @ rest) = visit_all json (d1\<lparr>d_key := d_key d1\<rparr>) rest"
    by simp
  then show "\<exists>k. visit_all json d (es @ rest) = visit_all json (d1\<lparr>d_key := k\<rparr>) rest" ..
qed

lemma reads_null: "reads_value json V_null"
  and reads_bool: "reads_value json (V_bool b)"
  and reads_real: "reads_value json (V_real x)"
  by (rule reads_scalar; auto simp: list_all2_Cons1 put_no_error_scalar)+

lemma reads_int: "reads_value json (V_int n)"
  by (rule reads_scalar)
    (auto simp: list_all2_Cons1 put_no_error_scalar visit_uint64_def signed_in_range)

lemma reads_uint: "reads_value json (V_uint n)"
  by (rule reads_scalar) (auto simp: list_all2_Cons1 put_no_error_scalar visit_uint64_def)

lemma reads_blob: "reads_value json (V_blob b)"
proof (rule reads_scalar)
  fix es assume "list_all2 (reads_as json) (encode_events (V_blob b)) es"
  then have es: "es = [if json then Ev_string (blob_string b) else Ev_bytes b]"
    by (auto simp: list_all2_Cons1)
  have "visit json d (if json then Ev_string (blob_string b) else Ev_bytes b) = Some (d1, no_error, True)"
    if "put (V_blob b) False d = Some (d1, no_error)" for d d1
    using that put_no_error_scalar(1) [OF that]
    by (simp add: json_visit_string_def blob_string_def base64_roundtrip_nil)
  with es show "\<exists>e. es = [e] \<and> (\<forall>d d1. put (normalized (V_blob b)) False d = Some (d1, no_error) \<longrightarrow>
      visit json d e = Some (d1, no_error, True))"
    by simp
qed

lemma reads_string:
  assumes "decodable json (V_string s)"
  shows "reads_value json (V_string s)"
proof (rule reads_scalar)
  fix es assume "list_all2 (reads_as json) (encode_events (V_string s)) es"
  then have es: "es = [Ev_string s]" by (auto simp: list_all2_Cons1)
  have "visit json d (Ev_string s) = Some (d1, no_error, True)"
    if put: "put (V_string s) False d = Some (d1, no_error)" for d d1
    using put_no_error_scalar(2) [OF put] put_at_value [OF put] assms
    by (auto simp: json_visit_string_def generic_visit_string_def at_value_def split: list.splits)
  with es show "\<exists>e. es = [e] \<and> (\<forall>d d1. put (normalized (V_string s)) False d = Some (d1, no_error) \<longrightarrow>
      visit json d e = Some (d1, no_error, True))"
    by simp
qed

text \<open>The elements of an array are appended to it.\<close>

lemma read_elements:
  assumes "\<And>x. x \<in> set xs \<Longrightarrow> reads_value json x"
    and "list_all2 (reads_as json) (concat (map encode_events xs)) es"
    and "d_stack d = \<lparr>ctx_path = p, ctx_key_is_done = False\<rparr> # st"
    and "at_path p (d_root d) = Some (V_array ys)"
  shows "\<exists>k. visit_all json d (es @ rest) = visit_all json
    (d\<lparr>d_root := update_at p (\<lambda>_. V_array (ys @ map normalized xs)) (d_root d), d_key := k\<rparr>) rest"
  using assms
proof (induction xs arbitrary: es d ys)
  case Nil
  then have "d = d\<lparr>d_root := update_at p (\<lambda>_. V_array ys) (d_root d), d_key := d_key d\<rparr>"
    using update_at_self [OF Nil(4)] by simp
  with Nil show ?case by (intro exI [of _ "d_key d"]) simp
next
  case (Cons x xs)
  from Cons.prems(2) obtain es1 es2 where es: "es = es1 @ es2"
      "list_all2 (reads_as json) (encode_events x) es1"
      "list_all2 (reads_as json) (concat (map encode_events xs)) es2"
    by (auto simp: list_all2_append1)
  let ?d1 = "d\<lparr>d_root := update_at p (\<lambda>_. V_array (ys @ [normalized x])) (d_root d)\<rparr>"
  have "put (normalized x) False d = Some (?d1, no_error)"
    using Cons.prems(3,4) by (simp add: put_def add_array_element_def push_context_def)
  from reads_valueD [OF Cons.prems(1) es(2) this, of "es2 @ rest"]
  obtain k where k: "visit_all json d (es1 @ es2 @ rest) = visit_all json (?d1\<lparr>d_key := k\<rparr>) (es2 @ rest)"
    by auto
  have "\<exists>k'. visit_all json (?d1\<lparr>d_key := k\<rparr>) (es2 @ rest) = visit_all json
      (?d1\<lparr>d_key := k\<rparr>\<lparr>d_root := update_at p (\<lambda>_. V_array ((ys @ [normalized x]) @ map normalized xs))
        (d_root (?d1\<lparr>d_key := k\<rparr>)), d_key := k'\<rparr>) rest"
    using Cons.prems by (intro Cons.IH es(3)) (auto simp: at_path_update)
  then show ?case using k by (auto simp: es(1) update_at_twice)
qed

text \<open>The members of an object, in key order, are added at its end.\<close>

lemma read_members:
  assumes "\<And>m. m \<in> set ms \<Longrightarrow> reads_value json (snd m)"
    and "list_all2 (reads_as json) (concat (map (\<lambda>kv. Ev_key (fst kv) # encode_events (snd kv)) ms)) es"
    and "d_stack d = \<lparr>ctx_path = p, ctx_key_is_done = False\<rparr> # st"
    and "at_path p (d_root d) = Some (V_object ob)" and "omap_ok ms"
    and "\<forall>m \<in> set ob. \<forall>n \<in> set ms. fst m < fst n"
  shows "\<exists>k. visit_all json d (es @ rest) = visit_all json
    (d\<lparr>d_root := update_at p (\<lambda>_. V_object (ob @ map (\<lambda>m. (fst m, normalized (snd m))) ms)) (d_root d),
      d_key := k\<rparr>) rest"
  using assms
proof (induction ms arbitrary: es d ob)
  case Nil
  then have "d = d\<lparr>d_root := update_at p (\<lambda>_. V_object ob) (d_root d), d_key := d_key d\<rparr>"
    using update_at_self [OF Nil(4)] by simp
  with Nil show ?case by (intro exI [of _ "d_key d"]) simp
next
  case (Cons m ms)
  obtain key x where m: "m = (key, x)" by force
  let ?ke = "if json then Ev_key key else Ev_string key"
  from Cons.prems(2) m obtain es1 es2 where es: "es = ?ke # es1 @ es2"
      "list_all2 (reads_as json) (encode_events x) es1"
      "list_all2 (reads_as json) (concat (map (\<lambda>kv. Ev_key (fst kv) # encode_events (snd kv)) ms)) es2"
    by (auto simp: list_all2_append1 list_all2_Cons1)
  let ?dk = "d\<lparr>d_key := key, d_stack := \<lparr>ctx_path = p, ctx_key_is_done = True\<rparr> # st\<rparr>"
  have key: "visit json d ?ke = Some (?dk, no_error, True)"
    using Cons.prems(3,4)
    by (simp add: put_key_def generic_visit_string_def expects_key_def)
  have absent: "omap_find ob key = None"
    using Cons.prems(6) m by (auto simp: omap_find_None_iff)
  have last: "omap_put key (normalized x) ob = ob @ [(key, normalized x)]"
    using Cons.prems(6) m by (intro omap_put_last) auto
  let ?ob = "ob @ [(key, normalized x)]"
  let ?d1 = "d\<lparr>d_root := update_at p (\<lambda>_. V_object ?ob) (d_root d), d_key := ''''\<rparr>"
  have "put (normalized x) False ?dk = Some (?d1, no_error)"
    using Cons.prems(3,4) absent last
    by (simp add: put_def add_object_element_def push_context_def omap_emplace_def Let_def)
  from reads_valueD [OF _ es(2) this, of "es2 @ rest"] Cons.prems(1) [of m] m
  obtain k where k: "visit_all json ?dk (es1 @ es2 @ rest) = visit_all json (?d1\<lparr>d_key := k\<rparr>) (es2 @ rest)"
    by auto
  have "\<exists>k'. visit_all json (?d1\<lparr>d_key := k\<rparr>) (es2 @ rest) = visit_all json
      (?d1\<lparr>d_key := k\<rparr>\<lparr>d_root := update_at p (\<lambda>_. V_object (?ob @ map (\<lambda>m. (fst m, normalized (snd m))) ms))
        (d_root (?d1\<lparr>d_key := k\<rparr>)), d_key := k'\<rparr>) rest"
    using Cons.prems m by (intro Cons.IH es(3)) (auto simp: at_path_update omap_ok_Cons)
  then show ?case
    using k key unfolding es(1) m by (auto simp: update_at_twice simp del: visit.simps)
qed

text \<open>A composite value: its parts are read into the container that its first event opens.\<close>

lemma reads_composite:
  assumes events: "encode_events v = b # body @ [e]"
    and b: "\<And>b' d. reads_as json b b' \<Longrightarrow> visit json d b' = visit_ignoring_error Y True d"
    and e: "\<And>e' d. reads_as json e e' \<Longrightarrow> visit json d e' = visit_end d"
    and body: "\<And>es rest d p st. list_all2 (reads_as json) body es \<Longrightarrow>
      d_stack d = \<lparr>ctx_path = p, ctx_key_is_done = False\<rparr> # st \<Longrightarrow> at_path p (d_root d) = Some Y \<Longrightarrow>
      \<exists>k. visit_all json d (es @ rest) = visit_all json
        (d\<lparr>d_root := update_at p (\<lambda>_. normalized v) (d_root d), d_key := k\<rparr>) rest"
  shows "reads_value json v"
  unfolding reads_value_def
proof (intro allI impI)
  fix es rest d d1
  assume "list_all2 (reads_as json) (encode_events v) es"
    and put: "put (normalized v) False d = Some (d1, no_error)"
  then obtain b' body' e' where es: "es = b' # body' @ [e']" "reads_as json b b'"
      "list_all2 (reads_as json) body body'" "reads_as json e e'"
    by (auto simp: events list_all2_Cons1 list_all2_append1)
  obtain p d2 where d2: "put Y True d = Some (d2, no_error)" "at_path p (d_root d2) = Some Y"
      "d_stack d2 = \<lparr>ctx_path = p, ctx_key_is_done = False\<rparr> # d_stack d1"
      "d_root d1 = update_at p (\<lambda>_. normalized v) (d_root d2)" "d_has_root d1 = d_has_root d2"
    using put_composite [OF put] by blast
  have 1: "visit json d b' = Some (d2, no_error, True)"
    using d2(1) by (simp add: b [OF es(2)] visit_ignoring_error_def)
  obtain k where k: "visit_all json d2 (body' @ e' # rest) = visit_all json
      (d2\<lparr>d_root := update_at p (\<lambda>_. normalized v) (d_root d2), d_key := k\<rparr>) (e' # rest)"
    using body [OF es(3) d2(3,2), of "e' # rest"] by blast
  let ?d3 = "d2\<lparr>d_root := update_at p (\<lambda>_. normalized v) (d_root d2), d_key := k\<rparr>"
  have 2: "visit json ?d3 e' = Some (d1\<lparr>d_key := k\<rparr>, no_error, True)"
    using d2 by (simp add: e [OF es(4)] visit_end_def end_composite_def)
  have "visit_all json d (es @ rest) = visit_all json d2 (body' @ e' # rest)"
    using visit_all_Cons [OF 1] by (simp add: es(1))
  also have "\<dots> = visit_all json (d1\<lparr>d_key := k\<rparr>) rest"
    unfolding k by (rule visit_all_Cons [OF 2])
  finally show "\<exists>k. visit_all json d (es @ rest) = visit_all json (d1\<lparr>d_key := k\<rparr>) rest" ..
qed

lemma reads_decodable: "decodable json v \<Longrightarrow> reads_value json v"
proof (induction v)
  case (V_array a)
  then have a: "\<And>x. x \<in> set a \<Longrightarrow> reads_value json x" by auto
  show ?case
  proof (rule reads_composite [where Y = "V_array []"])
    show "encode_events (V_array a) =
        Ev_begin_array (Some (length a)) # concat (map encode_events a) @ [Ev_end_array]"
      by simp
    show "visit json d b' = visit_ignoring_error (V_array []) True d"
      if "reads_as json (Ev_begin_array (Some (length a))) b'" for b' d
      using that by (cases b') auto
    show "visit json d e' = visit_end d" if "reads_as json Ev_end_array e'" for e' d
      using that by simp
    show "\<exists>k. visit_all json d (es @ rest) = visit_all json
        (d\<lparr>d_root := update_at p (\<lambda>_. normalized (V_array a)) (d_root d), d_key := k\<rparr>) rest"
      if "list_all2 (reads_as json) (concat (map encode_events a)) es"
        "d_stack d = \<lparr>ctx_path = p, ctx_key_is_done = False\<rparr> # st" "at_path p (d_root d) = Some (V_array [])"
      for es rest d p st
      using read_elements [OF a that, of rest] by simp
  qed
next
  case (V_object ob)
  have ob: "reads_value json (snd m)" if "m \<in> set ob" for m
  proof -
    have "snd m \<in> Basic_BNFs.snds m" by (cases m) simp
    with that V_object show ?thesis by (metis decodable.simps(3))
  qed
  show ?case
  proof (rule reads_composite [where Y = "V_object []"])
    show "encode_events (V_object ob) = Ev_begin_object (length ob) #
        concat (map (\<lambda>kv. Ev_key (fst kv) # encode_events (snd kv)) ob) @ [Ev_end_object]"
      by simp
    show "visit json d b' = visit_ignoring_error (V_object []) True d"
      if "reads_as json (Ev_begin_object (length ob)) b'" for b' d
      using that by (cases b') auto
    show "visit json d e' = visit_end d" if "reads_as json Ev_end_object e'" for e' d
      using that by simp
    show "\<exists>k. visit_all json d (es @ rest) = visit_all json
        (d\<lparr>d_root := update_at p (\<lambda>_. normalized (V_object ob)) (d_root d), d_key := k\<rparr>) rest"
      if "list_all2 (reads_as json) (concat (map (\<lambda>kv. Ev_key (fst kv) # encode_events (snd kv)) ob)) es"
        "d_stack d = \<lparr>ctx_path = p, ctx_key_is_done = False\<rparr> # st" "at_path p (d_root d) = Some (V_object [])"
      for es rest d p st
      using read_members [OF ob that, of rest] V_object.prems by simp
  qed
qed (simp_all add: reads_null reads_bool reads_real reads_int reads_uint reads_blob reads_string
    del: decodable.simps)

lemma unsigned_fits: "n \<le> (0x7FFFFFFFFFFFFFFF :: u64) \<Longrightarrow> sint n = uint n"
proof -
  assume "n \<le> (0x7FFFFFFFFFFFFFFF :: u64)"
  then have n: "uint n < 2 ^ 63" by (simp add: word_le_def)
  have "sint n = signed_take_bit 63 (uint n)" by (simp add: sint_uint)
  also have "\<dots> = uint n"
    using n uint_nonneg [of n] by (intro signed_take_bit_int_eq_self) linarith+
  finally show ?thesis .
qed

lemma normalized_key: "real_free v \<Longrightarrow> variant_key (normalized v) = variant_key v \<and> real_free (normalized v)"
proof (induction v)
  case (V_array a)
  then have "enc_list variant_key (map normalized a) = enc_list variant_key a"
    unfolding enc_list_def by (simp add: comp_def cong: map_cong)
  with V_array show ?case by simp
next
  case (V_object ob)
  have ob: "variant_key (normalized (snd m)) = variant_key (snd m) \<and> real_free (normalized (snd m))"
    if "m \<in> set ob" for m
  proof -
    have "snd m \<in> Basic_BNFs.snds m" by (cases m) simp
    with that V_object show ?thesis by (metis real_free.simps(3))
  qed
  then have "enc_list (\<lambda>m. enc_list (\<lambda>c. [of_char c]) (fst m) @ variant_key (snd m))
      (map (\<lambda>m. (fst m, normalized (snd m))) ob) =
    enc_list (\<lambda>m. enc_list (\<lambda>c. [of_char c]) (fst m) @ variant_key (snd m)) ob"
    unfolding enc_list_def by (simp add: comp_def cong: map_cong)
  with ob show ?case by simp
qed (simp_all add: unsigned_fits)

text \<open>
  Whatever a parser may report for the events of a decodable variant, the visitors rebuild
  that variant, with unsigned numbers that fit made signed, without error.  Without doubles,
  the result equals the variant by \<open>operator==\<close>.
\<close>

theorem codec_roundtrip:
  assumes "decodable json v" and "list_all2 (reads_as json) (encode_events v) es"
  shows "(if json then decode_json else decode_generic) es no_error old = Some (no_error, normalized v) \<and>
    (real_free v \<longrightarrow> variant_eq (normalized v) v)"
proof -
  have "put (normalized v) False decoder_reset = Some
      (decoder_reset\<lparr>d_root := normalized v, d_has_root := True\<rparr>, no_error)"
    by (simp add: put_def decoder_reset_def add_root_def push_context_def)
  from reads_valueD [OF reads_decodable [OF assms(1)] assms(2) this, of "[]"]
  obtain k where "visit_all json decoder_reset es = Some
      (decoder_reset\<lparr>d_root := normalized v, d_has_root := True, d_key := k\<rparr>, no_error)"
    by auto
  moreover have "variant_eq (normalized v) v" if "real_free v"
    using that normalized_key [OF that] by (simp add: variant_order_keys(2))
  ultimately show ?thesis
    by (cases json) (simp_all add: decode_json_def decode_generic_def)
qed

theorem codec_roundtrip_witness:
  "decode_json
     [Ev_begin_array None, Ev_uint 7, Ev_begin_object 1, Ev_key ''k'', Ev_uint 3, Ev_end_object,
      Ev_string (blob_string [1, 2]), Ev_end_array] no_error V_null =
     Some (no_error, normalized (V_array [V_int 7, V_object [(''k'', V_uint 3)], V_blob [1, 2]])) \<and>
   variant_eq (normalized (V_array [V_int 7, V_object [(''k'', V_uint 3)], V_blob [1, 2]]))
     (V_array [V_int 7, V_object [(''k'', V_uint 3)], V_blob [1, 2]])"
proof -
  let ?v = "V_array [V_int 7, V_object [(''k'', V_uint 3)], V_blob [1, 2]]"
  let ?es = "[Ev_begin_array None, Ev_uint 7, Ev_begin_object 1, Ev_key ''k'', Ev_uint 3, Ev_end_object,
      Ev_string (blob_string [1, 2]), Ev_end_array]"
  have "decodable True ?v" "list_all2 (reads_as True) (encode_events ?v) ?es" "real_free ?v"
    by (simp_all add: omap_ok_def)
  from codec_roundtrip [OF this(1,2), of V_null] this(3) show ?thesis
    by (simp only: if_True simp_thms)
qed

text \<open>
  An array in the place of a key, which CBOR and MessagePack allow, is not reported as
  \<open>expectedStringKey\<close>: \<open>visit_begin_array\<close> drops that error, the end of the array closes the
  object, the value after it replaces the root, and the end of the object pops an empty stack.
\<close>

theorem array_key_breaks_decoder:
  "decode_generic [Ev_begin_object 1, Ev_begin_array (Some 0), Ev_end_array, Ev_uint n, Ev_end_object]
     no_error old = None"
  by (simp add: decode_generic_def decoder_reset_def visit_ignoring_error_def put_def add_root_def
      push_context_def add_object_element_def visit_end_def end_composite_def visit_uint64_def
      visit_value_def)

text \<open>A decoder that reports an error has not touched the variant it was to assign.\<close>

theorem failed_decode_keeps_variant:
  assumes "(if json then decode_json else decode_generic) es parse_ec old = Some (ec, v)" and "ec_bool ec"
  shows "v = old"
  using assms by (auto simp: decode_json_def decode_generic_def Let_def split: if_splits option.splits)

theorem failed_decode_keeps_variant_witness:
  "V_null = V_null \<and> ec_bool (decoding_ec DE_emptyInput)"
  using failed_decode_keeps_variant [of True "[]" no_error V_null "decoding_ec DE_emptyInput" V_null]
  by (simp add: decode_json_def decoder_reset_def)

subsection \<open>The contexts of the JSON encoder\<close>

text \<open>Every value leaves the context stack as it was, but for the mark of one more element.\<close>

lemma json_next_enter [simp]: "json_leave (json_next (json_enter b cs)) = cs"
  "json_leave (json_enter b cs) = cs" "json_next (json_next cs) = json_next cs"
  by (simp_all add: json_leave_def json_next_def json_enter_def split: list.split)

lemma json_encode_contexts:
  "snd (json_encode v cs) = json_next cs"
  "snd (json_encode_elements xs cs) = (if xs = [] then cs else json_next cs)"
  "snd (json_encode_members ms cs) = (if ms = [] then cs else json_next cs)"
proof (induction v cs and xs cs and ms cs
    rule: json_encode_json_encode_elements_json_encode_members.induct)
  case (11 x xs cs)
  then show ?case
    using 11(2) [OF refl prod.collapse] by (simp add: Let_def case_prod_beta)
next
  case (13 k x ms cs)
  then show ?case
    using 13(2) [OF refl prod.collapse] by (simp add: Let_def case_prod_beta)
qed (simp_all add: Let_def case_prod_beta)

lemma json_encode_elements_append:
  "json_encode_elements (xs @ ys) cs =
     (let (out1, cs1) = json_encode_elements xs cs; (out2, cs2) = json_encode_elements ys cs1
      in (out1 @ out2, cs2))"
  by (induction xs arbitrary: cs) (simp_all add: Let_def case_prod_beta)

text \<open>
  In an array, a blob is written to the sink as a JSON string that starts with the escaped
  null character, with a comma of its own exactly if it is not the first element.
\<close>

theorem json_blob_in_array:
  "json_encode_variant (V_array (xs @ [V_blob b])) =
     Encoder_call (Ev_begin_array (Some (length xs + 1))) #
     fst (json_encode_elements xs (json_enter True (json_enter False []))) @
     (if xs = [] then [] else [Sink_bytes [44]]) @
     [Sink_bytes blob_prefix, Sink_bytes (base64_encode b), Sink_bytes [34],
      Encoder_call Ev_end_array]"
  using json_encode_contexts(2) [of xs "json_enter True (json_enter False [])"]
  by (simp add: json_encode_variant_def json_encode_elements_append Let_def case_prod_beta
      json_blob_def needs_array_separator_def json_next_def json_enter_def)

end
