(* ===== verification/Wamp_Message.thy ===== *)
theory Wamp_Message
  imports Errors Variant_Model "HOL-Library.Product_Lexorder"
begin

section \<open>WAMP messages (\<open>internal/messagetraits.hpp\<close>, \<open>internal/wampmessage.hpp\<close>)\<close>

text \<open>
  A message is its type and its fields, the first of which holds the type again.  An
  enumeration with a fixed underlying type can hold values that have no name: they are
  \<open>W_unnamed\<close>.  Request IDs are \<open>int64_t\<close> numbers, given by their values.
\<close>

datatype wamp_msg_type =
    W_none | W_hello | W_welcome | W_abort | W_challenge | W_authenticate | W_goodbye |
    W_error | W_publish | W_published | W_subscribe | W_subscribed | W_unsubscribe |
    W_unsubscribed | W_event | W_call | W_cancel | W_result | W_enroll | W_registered |
    W_unregister | W_unregistered | W_invocation | W_interrupt | W_yield
  | W_unnamed nat

primrec msg_type_code :: "wamp_msg_type \<Rightarrow> nat" where
  "msg_type_code W_none = 0"
| "msg_type_code W_hello = 1"
| "msg_type_code W_welcome = 2"
| "msg_type_code W_abort = 3"
| "msg_type_code W_challenge = 4"
| "msg_type_code W_authenticate = 5"
| "msg_type_code W_goodbye = 6"
| "msg_type_code W_error = 8"
| "msg_type_code W_publish = 16"
| "msg_type_code W_published = 17"
| "msg_type_code W_subscribe = 32"
| "msg_type_code W_subscribed = 33"
| "msg_type_code W_unsubscribe = 34"
| "msg_type_code W_unsubscribed = 35"
| "msg_type_code W_event = 36"
| "msg_type_code W_call = 48"
| "msg_type_code W_cancel = 49"
| "msg_type_code W_result = 50"
| "msg_type_code W_enroll = 64"
| "msg_type_code W_registered = 65"
| "msg_type_code W_unregister = 66"
| "msg_type_code W_unregistered = 67"
| "msg_type_code W_invocation = 68"
| "msg_type_code W_interrupt = 69"
| "msg_type_code W_yield = 70"
| "msg_type_code (W_unnamed n) = n"

definition named_msg_types :: "wamp_msg_type list" where
  "named_msg_types =
    [W_none, W_hello, W_welcome, W_abort, W_challenge, W_authenticate, W_goodbye, W_error,
     W_publish, W_published, W_subscribe, W_subscribed, W_unsubscribe, W_unsubscribed, W_event,
     W_call, W_cancel, W_result, W_enroll, W_registered, W_unregister, W_unregistered,
     W_invocation, W_interrupt, W_yield]"

text \<open>\<open>static_cast<WampMsgType>\<close> of a value in the range of \<open>uint8_t\<close>\<close>

definition msg_type_of_code :: "nat \<Rightarrow> wamp_msg_type" where
  "msg_type_of_code n =
     (case find (\<lambda>t. msg_type_code t = n) named_msg_types of Some t \<Rightarrow> t | None \<Rightarrow> W_unnamed n)"

text \<open>The order of the enumeration, by code; an unnamed value comes after a named one.\<close>

definition msg_type_rank :: "wamp_msg_type \<Rightarrow> nat" where
  "msg_type_rank t = 2 * msg_type_code t + (case t of W_unnamed _ \<Rightarrow> 1 | _ \<Rightarrow> 0)"

type_synonym request_id = int
type_synonym session_id = int

text \<open>A \<open>RequestId\<close> as a field\<close>

definition id_variant :: "request_id \<Rightarrow> variant" where
  "id_variant i = V_int (word_of_int i)"

subsection \<open>The table of message traits\<close>

record message_traits =
  tr_name :: "string option"
  replies_to :: wamp_msg_type
  id_position :: nat
  min_size :: nat
  max_size :: nat
  is_client_rx :: bool
  is_router_rx :: bool
  for_establishing :: bool
  for_challenging :: bool
  for_established :: bool
  field_types :: "type_id list"

definition traits_row ::
    "string \<Rightarrow> wamp_msg_type \<Rightarrow> nat \<Rightarrow> nat \<Rightarrow> nat \<Rightarrow> bool \<Rightarrow> bool \<Rightarrow> bool \<Rightarrow> bool \<Rightarrow> bool \<Rightarrow>
      type_id list \<Rightarrow> message_traits" where
  "traits_row nm rep idp mn mx c r e ch es tys = \<lparr>tr_name = Some nm, replies_to = rep,
     id_position = idp, min_size = mn, max_size = mx, is_client_rx = c, is_router_rx = r,
     for_establishing = e, for_challenging = ch, for_established = es, field_types = tys\<rparr>"

definition no_message :: message_traits where
  "no_message = \<lparr>tr_name = None, replies_to = W_none, id_position = 0, min_size = 0, max_size = 0,
     is_client_rx = False, is_router_rx = False, for_establishing = False, for_challenging = False,
     for_established = False,
     field_types = [T_integer, T_null, T_null, T_null, T_null, T_null, T_null]\<rparr>"

definition traits_table :: "message_traits list" where
  "traits_table =
     [ no_message,
       traits_row ''HELLO'' W_none 0 3 3 False True True False False
        [T_integer, T_string, T_object, T_null, T_null, T_null, T_null],
       traits_row ''WELCOME'' W_none 0 3 3 True False True True False
        [T_integer, T_integer, T_object, T_null, T_null, T_null, T_null],
       traits_row ''ABORT'' W_none 0 3 3 True False True True True
        [T_integer, T_object, T_string, T_null, T_null, T_null, T_null],
       traits_row ''CHALLENGE'' W_none 0 3 3 True False True True False
        [T_integer, T_string, T_object, T_null, T_null, T_null, T_null],
       traits_row ''AUTHENTICATE'' W_challenge 0 3 3 False True False True False
        [T_integer, T_string, T_object, T_null, T_null, T_null, T_null],
       traits_row ''GOODBYE'' W_none 0 3 3 True True False False True
        [T_integer, T_object, T_string, T_null, T_null, T_null, T_null],
       no_message,
       traits_row ''ERROR'' W_none 0 5 7 True True False False True
        [T_integer, T_integer, T_integer, T_object, T_string, T_array, T_object],
       no_message,
       no_message,
       no_message,
       no_message,
       no_message,
       no_message,
       no_message,
       traits_row ''PUBLISH'' W_none 1 4 6 False True False False True
        [T_integer, T_integer, T_object, T_string, T_array, T_object, T_null],
       traits_row ''PUBLISHED'' W_publish 1 3 3 True False False False True
        [T_integer, T_integer, T_integer, T_null, T_null, T_null, T_null],
       no_message,
       no_message,
       no_message,
       no_message,
       no_message,
       no_message,
       no_message,
       no_message,
       no_message,
       no_message,
       no_message,
       no_message,
       no_message,
       no_message,
       traits_row ''SUBSCRIBE'' W_none 1 4 4 False True False False True
        [T_integer, T_integer, T_object, T_string, T_null, T_null, T_null],
       traits_row ''SUBSCRIBED'' W_subscribe 1 3 3 True False False False True
        [T_integer, T_integer, T_integer, T_null, T_null, T_null, T_null],
       traits_row ''UNSUBSCRIBE'' W_none 1 3 3 False True False False True
        [T_integer, T_integer, T_integer, T_null, T_null, T_null, T_null],
       traits_row ''UNSUBSCRIBED'' W_unsubscribe 1 2 2 True False False False True
        [T_integer, T_integer, T_null, T_null, T_null, T_null, T_null],
       traits_row ''EVENT'' W_none 0 4 6 True False False False True
        [T_integer, T_integer, T_integer, T_object, T_array, T_object, T_null],
       no_message,
       no_message,
       no_message,
       no_message,
       no_message,
       no_message,
       no_message,
       no_message,
       no_message,
       no_message,
       no_message,
       traits_row ''CALL'' W_none 1 4 6 False True False False True
        [T_integer, T_integer, T_object, T_string, T_array, T_object, T_null],
       traits_row ''CANCEL'' W_none 0 3 3 False True False False True
        [T_integer, T_integer, T_object, T_null, T_null, T_null, T_null],
       traits_row ''RESULT'' W_call 1 3 5 True False False False True
        [T_integer, T_integer, T_object, T_array, T_object, T_null, T_null],
       no_message,
       no_message,
       no_message,
       no_message,
       no_message,
       no_message,
       no_message,
       no_message,
       no_message,
       no_message,
       no_message,
       no_message,
       no_message,
       traits_row ''REGISTER'' W_none 1 4 4 False True False False True
        [T_integer, T_integer, T_object, T_string, T_null, T_null, T_null],
       traits_row ''REGISTERED'' W_enroll 1 3 3 True False False False True
        [T_integer, T_integer, T_integer, T_null, T_null, T_null, T_null],
       traits_row ''UNREGISTER'' W_none 1 3 3 False True False False True
        [T_integer, T_integer, T_integer, T_null, T_null, T_null, T_null],
       traits_row ''UNREGISTERED'' W_unregister 1 2 2 True False False False True
        [T_integer, T_integer, T_null, T_null, T_null, T_null, T_null],
       traits_row ''INVOCATION'' W_none 1 4 6 True False False False True
        [T_integer, T_integer, T_integer, T_object, T_array, T_object, T_null],
       traits_row ''INTERRUPT'' W_none 0 3 3 True False False False True
        [T_integer, T_integer, T_object, T_null, T_null, T_null, T_null],
       traits_row ''YIELD'' W_invocation 0 3 5 False True False False True
        [T_integer, T_integer, T_object, T_array, T_object, T_null, T_null] ]"

definition lookup_code :: "nat \<Rightarrow> message_traits" where
  "lookup_code index = (if index < length traits_table then traits_table ! index else traits_table ! 0)"

definition lookup_traits :: "wamp_msg_type \<Rightarrow> message_traits" where
  "lookup_traits t = lookup_code (msg_type_code t)"

definition is_valid_type :: "message_traits \<Rightarrow> bool" where
  "is_valid_type tr \<longleftrightarrow> min_size tr \<noteq> 0"

datatype session_state = Disconnected | Connecting | Closed | Establishing | Authenticating
  | Established | Shutting_down | Failed

definition is_valid_rx :: "message_traits \<Rightarrow> session_state \<Rightarrow> bool \<Rightarrow> bool" where
  "is_valid_rx tr s is_router =
     (let valid = (if is_router then is_router_rx tr else is_client_rx tr)
      in if valid then
           (case s of
              Establishing \<Rightarrow> for_establishing tr
            | Authenticating \<Rightarrow> for_challenging tr
            | Established \<Rightarrow> for_established tr
            | Shutting_down \<Rightarrow> for_established tr
            | _ \<Rightarrow> False)
         else False)"

definition name_or :: "message_traits \<Rightarrow> string \<Rightarrow> string" where
  "name_or tr fallback = (case tr_name tr of None \<Rightarrow> fallback | Some n \<Rightarrow> n)"

subsection \<open>Messages\<close>

record wamp_message =
  msg_type :: wamp_msg_type
  msg_fields :: "variant list"

definition make_message :: "wamp_msg_type \<Rightarrow> variant list \<Rightarrow> wamp_message" where
  "make_message t fs = \<lparr>msg_type = t, msg_fields =
     (if fs = [] then [id_variant (int (msg_type_code t))]
      else fs[0 := id_variant (int (msg_type_code t))])\<rparr>"

definition parse_msg_type :: "variant list \<Rightarrow> wamp_msg_type" where
  "parse_msg_type fs =
     (case fs of
        V_int w # _ \<Rightarrow>
          (let n = sint w
           in if 0 \<le> n \<and> n \<le> 255 then
                (let t = msg_type_of_code (nat n)
                 in if is_valid_type (lookup_traits t) then t else W_none)
              else W_none)
      | _ \<Rightarrow> W_none)"

text \<open>The loop over the fields: the first one of another type than the table's ends it.\<close>

fun fields_match :: "variant list \<Rightarrow> type_id list \<Rightarrow> bool" where
  "fields_match [] tys = True"
| "fields_match (v # vs) tys =
     (case tys of [] \<Rightarrow> False
      | t # tys' \<Rightarrow> if type_id_of v \<noteq> t then False else fields_match vs tys')"

definition parse_message :: "variant list \<Rightarrow> error_code + wamp_message" where
  "parse_message fs =
     (let t = parse_msg_type fs; unex = Inl (session_ec SE_protocolViolation)
      in if t = W_none then unex
         else
           let tr = lookup_traits t
           in if length fs < min_size tr \<or> max_size tr < length fs then unex
              else if \<not> fields_match fs (field_types tr) then unex
              else Inr (make_message t fs))"

definition set_type :: "wamp_msg_type \<Rightarrow> wamp_message \<Rightarrow> wamp_message" where
  "set_type t m = \<lparr>msg_type = t, msg_fields = (msg_fields m)[0 := id_variant (int (msg_type_code t))]\<rparr>"

definition set_request_id :: "request_id \<Rightarrow> wamp_message \<Rightarrow> wamp_message" where
  "set_request_id i m =
     (let p = id_position (lookup_traits (msg_type m))
      in if p \<noteq> 0 then m\<lparr>msg_fields := (msg_fields m)[p := id_variant i]\<rparr> else m)"

definition has_request_id :: "wamp_message \<Rightarrow> bool" where
  "has_request_id m \<longleftrightarrow> id_position (lookup_traits (msg_type m)) \<noteq> 0"

text \<open>
  Fields read at their type.  A parsed message has the types that the code reads, so the
  values for other types (the code throws \<open>error::Access\<close> or \<open>error::Conversion\<close>) are not used.
\<close>

definition int_field :: "wamp_message \<Rightarrow> nat \<Rightarrow> int" where
  "int_field m i = (case vec_at (msg_fields m) i of Some (V_int w) \<Rightarrow> sint w | _ \<Rightarrow> 0)"

definition string_field :: "wamp_message \<Rightarrow> nat \<Rightarrow> string" where
  "string_field m i = (case vec_at (msg_fields m) i of Some (V_string s) \<Rightarrow> s | _ \<Rightarrow> '''')"

definition object_field :: "wamp_message \<Rightarrow> nat \<Rightarrow> vobject" where
  "object_field m i = (case vec_at (msg_fields m) i of Some (V_object ob) \<Rightarrow> ob | _ \<Rightarrow> [])"

definition array_field :: "wamp_message \<Rightarrow> nat \<Rightarrow> varray" where
  "array_field m i = (case vec_at (msg_fields m) i of Some (V_array a) \<Rightarrow> a | _ \<Rightarrow> [])"

definition request_id_of :: "wamp_message \<Rightarrow> request_id" where
  "request_id_of m =
     (if msg_type m \<noteq> W_error then
        (let p = id_position (lookup_traits (msg_type m)) in if p \<noteq> 0 then int_field m p else 0)
      else int_field m 2)"

type_synonym request_key = "wamp_msg_type \<times> request_id"

text \<open>The request type in an ERROR is cast to an enumeration over \<open>uint8_t\<close>.\<close>

definition request_key :: "wamp_message \<Rightarrow> request_key" where
  "request_key m =
     (let t = (if msg_type m \<noteq> W_error then msg_type m
               else msg_type_of_code (nat (int_field m 1 mod 256)))
      in (t, request_id_of m))"

definition message_replies_to :: "wamp_message \<Rightarrow> wamp_msg_type" where
  "message_replies_to m = replies_to (lookup_traits (msg_type m))"

text \<open>\<open>valueOr<bool>(false)\<close> throws \<open>error::Conversion\<close> for what is neither null nor a scalar.\<close>

datatype conversion_error = Conversion_error

definition bool_value_or_false :: "variant \<Rightarrow> conversion_error + bool" where
  "bool_value_or_false v =
     (case v of
        V_null \<Rightarrow> Inr False
      | V_bool b \<Rightarrow> Inr b
      | V_int n \<Rightarrow> Inr (n \<noteq> 0)
      | V_uint n \<Rightarrow> Inr (n \<noteq> 0)
      | V_real x \<Rightarrow> Inr (\<not> double_eq x double_zero)
      | _ \<Rightarrow> Inl Conversion_error)"

definition is_progressive_response :: "wamp_message \<Rightarrow> conversion_error + bool" where
  "is_progressive_response m =
     (if msg_type m \<noteq> W_result \<or> length (msg_fields m) < 3 then Inr False
      else case msg_fields m ! 2 of
        V_object ob \<Rightarrow>
          (case omap_find ob ''progress'' of
             None \<Rightarrow> Inr False
           | Some v \<Rightarrow> bool_value_or_false v)
      | _ \<Rightarrow> Inr False)"

subsection \<open>The constructors of the messages\<close>

definition hello_message :: "string \<Rightarrow> wamp_message" where
  "hello_message realm = make_message W_hello [id_variant 0, V_string realm, V_object []]"

definition authenticate_message :: "string \<Rightarrow> vobject \<Rightarrow> wamp_message" where
  "authenticate_message sig opts = make_message W_authenticate [id_variant 0, V_string sig, V_object opts]"

definition abort_message :: "string \<Rightarrow> vobject \<Rightarrow> wamp_message" where
  "abort_message reason opts = make_message W_abort [id_variant 0, V_object opts, V_string reason]"

definition goodbye_message :: "string \<Rightarrow> vobject \<Rightarrow> wamp_message" where
  "goodbye_message reason opts = make_message W_goodbye
     [id_variant 0, V_object opts,
      V_string (if reason = [] then ''wamp.error.close_realm'' else reason)]"

definition error_message :: "string \<Rightarrow> vobject \<Rightarrow> wamp_message" where
  "error_message reason opts = make_message W_error
     [id_variant 0, id_variant 0, id_variant 0, V_object opts, V_string reason]"

definition set_request_info :: "wamp_msg_type \<Rightarrow> request_id \<Rightarrow> wamp_message \<Rightarrow> wamp_message" where
  "set_request_info t i m = m\<lparr>msg_fields :=
     (msg_fields m)[1 := id_variant (int (msg_type_code t)), 2 := id_variant i]\<rparr>"

definition publish_message :: "string \<Rightarrow> vobject \<Rightarrow> wamp_message" where
  "publish_message topic opts = make_message W_publish
     [id_variant 0, id_variant 0, V_object opts, V_string topic]"

definition subscribe_message :: "string \<Rightarrow> wamp_message" where
  "subscribe_message topic = make_message W_subscribe
     [id_variant 0, id_variant 0, V_object [], V_string topic]"

definition unsubscribe_message :: "int \<Rightarrow> wamp_message" where
  "unsubscribe_message sub = make_message W_unsubscribe [id_variant 0, id_variant 0, id_variant sub]"

definition call_message :: "string \<Rightarrow> vobject \<Rightarrow> wamp_message" where
  "call_message uri opts = make_message W_call
     [id_variant 0, id_variant 0, V_object opts, V_string uri]"

definition register_message :: "string \<Rightarrow> vobject \<Rightarrow> wamp_message" where
  "register_message uri opts = make_message W_enroll
     [id_variant 0, id_variant 0, V_object opts, V_string uri]"

definition unregister_message :: "int \<Rightarrow> wamp_message" where
  "unregister_message reg = make_message W_unregister [id_variant 0, id_variant 0, id_variant reg]"

definition yield_message :: "request_id \<Rightarrow> vobject \<Rightarrow> wamp_message" where
  "yield_message i opts = make_message W_yield [id_variant 0, id_variant i, V_object opts]"

definition result_message :: "vobject \<Rightarrow> wamp_message" where
  "result_message opts = make_message W_result [id_variant 0, id_variant 0, V_object opts]"

definition transform_to_yield :: "wamp_message \<Rightarrow> wamp_message" where
  "transform_to_yield m = set_type W_yield m"

definition cancel_message :: "request_id \<Rightarrow> vobject \<Rightarrow> wamp_message" where
  "cancel_message i opts = make_message W_cancel [id_variant 0, id_variant i, V_object opts]"

definition interrupt_message :: "request_id \<Rightarrow> vobject \<Rightarrow> wamp_message" where
  "interrupt_message i opts = make_message W_interrupt [id_variant 0, id_variant i, V_object opts]"

text \<open>
  The payload of a message whose arguments are field \<open>j\<close>: missing fields are appended when they
  are first asked for.
\<close>

definition with_args :: "nat \<Rightarrow> wamp_message \<Rightarrow> wamp_message" where
  "with_args j m =
     (if length (msg_fields m) \<le> j then m\<lparr>msg_fields := msg_fields m @ [V_array []]\<rparr> else m)"

definition with_kwargs :: "nat \<Rightarrow> wamp_message \<Rightarrow> wamp_message" where
  "with_kwargs j m =
     (if length (msg_fields m) \<le> j + 1 then
        (let m1 = with_args j m in m1\<lparr>msg_fields := msg_fields m1 @ [V_object []]\<rparr>)
      else m)"

text \<open>\<open>message_cast\<close>: \<open>False\<close> stands for the failed assertion.\<close>

definition message_cast_ok :: "wamp_msg_type \<Rightarrow> wamp_message \<Rightarrow> bool" where
  "message_cast_ok kind m \<longleftrightarrow> msg_type m = kind"

lemma named_code: "t \<in> set named_msg_types \<longleftrightarrow> (\<forall>n. t \<noteq> W_unnamed n)"
  by (cases t) (simp_all add: named_msg_types_def)

lemma msg_type_code_inj:
  "a \<in> set named_msg_types \<Longrightarrow> b \<in> set named_msg_types \<Longrightarrow> msg_type_code a = msg_type_code b \<Longrightarrow> a = b"
proof -
  have "distinct (map msg_type_code named_msg_types)" by (simp add: named_msg_types_def)
  then have "inj_on msg_type_code (set named_msg_types)" by (simp add: distinct_map)
  then show "a \<in> set named_msg_types \<Longrightarrow> b \<in> set named_msg_types \<Longrightarrow>
      msg_type_code a = msg_type_code b \<Longrightarrow> a = b"
    by (rule inj_onD) 
qed

lemma msg_type_rank_inj: "msg_type_rank a = msg_type_rank b \<Longrightarrow> a = b"
proof -
  assume r: "msg_type_rank a = msg_type_rank b"
  have named: "msg_type_rank t = 2 * msg_type_code t" if "t \<in> set named_msg_types" for t
  proof -
    from that have "\<forall>n. t \<noteq> W_unnamed n" by (simp add: named_code)
    then show ?thesis by (cases t) (simp_all add: msg_type_rank_def)
  qed
  show "a = b"
  proof (cases "a \<in> set named_msg_types \<and> b \<in> set named_msg_types")
    case True
    with r named show ?thesis by (auto intro: msg_type_code_inj)
  next
    case False
    then consider n where "a = W_unnamed n" | n where "b = W_unnamed n"
      by (auto simp: named_code)
    then show ?thesis
    proof cases
      case 1
      have "odd (msg_type_rank b)" unfolding r [symmetric] 1 by (simp add: msg_type_rank_def)
      then have "b \<notin> set named_msg_types" by (auto simp: named)
      with 1 r show ?thesis by (auto simp: named_code msg_type_rank_def)
    next
      case 2
      have "odd (msg_type_rank a)" unfolding r 2 by (simp add: msg_type_rank_def)
      then have "a \<notin> set named_msg_types" by (auto simp: named)
      with 2 r show ?thesis by (auto simp: named_code msg_type_rank_def)
    qed
  qed
qed

instantiation wamp_msg_type :: linorder
begin

definition less_eq_wamp_msg_type :: "wamp_msg_type \<Rightarrow> wamp_msg_type \<Rightarrow> bool" where
  "a \<le> b \<longleftrightarrow> msg_type_rank a \<le> msg_type_rank b"

definition less_wamp_msg_type :: "wamp_msg_type \<Rightarrow> wamp_msg_type \<Rightarrow> bool" where
  "a < b \<longleftrightarrow> msg_type_rank a < msg_type_rank b"

instance
  by standard (auto simp: less_eq_wamp_msg_type_def less_wamp_msg_type_def intro: msg_type_rank_inj)

end

lemma find_named:
  "t \<in> set named_msg_types \<Longrightarrow> find (\<lambda>u. msg_type_code u = msg_type_code t) named_msg_types = Some t"
proof -
  assume t: "t \<in> set named_msg_types"
  show ?thesis
  proof (cases "find (\<lambda>u. msg_type_code u = msg_type_code t) named_msg_types")
    case None
    with t show ?thesis by (auto simp: find_None_iff)
  next
    case (Some u)
    then have "u \<in> set named_msg_types" "msg_type_code u = msg_type_code t"
      by (auto simp: find_Some_iff in_set_conv_nth)
    with t Some show ?thesis by (auto dest: msg_type_code_inj)
  qed
qed

lemma msg_type_of_code_named [simp]: "t \<in> set named_msg_types \<Longrightarrow> msg_type_of_code (msg_type_code t) = t"
  by (simp add: msg_type_of_code_def find_named)

lemma length_traits_table [simp]: "length traits_table = 71"
  by (simp add: traits_table_def)

text \<open>The rows of the named types; all other codes have the row without a name.\<close>

lemma lookup_named:
  "lookup_traits W_none = no_message"
  "lookup_traits W_hello = traits_row ''HELLO'' W_none 0 3 3 False True True False False
     [T_integer, T_string, T_object, T_null, T_null, T_null, T_null]"
  "lookup_traits W_welcome = traits_row ''WELCOME'' W_none 0 3 3 True False True True False
     [T_integer, T_integer, T_object, T_null, T_null, T_null, T_null]"
  "lookup_traits W_abort = traits_row ''ABORT'' W_none 0 3 3 True False True True True
     [T_integer, T_object, T_string, T_null, T_null, T_null, T_null]"
  "lookup_traits W_challenge = traits_row ''CHALLENGE'' W_none 0 3 3 True False True True False
     [T_integer, T_string, T_object, T_null, T_null, T_null, T_null]"
  "lookup_traits W_authenticate = traits_row ''AUTHENTICATE'' W_challenge 0 3 3 False True False True False
     [T_integer, T_string, T_object, T_null, T_null, T_null, T_null]"
  "lookup_traits W_goodbye = traits_row ''GOODBYE'' W_none 0 3 3 True True False False True
     [T_integer, T_object, T_string, T_null, T_null, T_null, T_null]"
  "lookup_traits W_error = traits_row ''ERROR'' W_none 0 5 7 True True False False True
     [T_integer, T_integer, T_integer, T_object, T_string, T_array, T_object]"
  "lookup_traits W_publish = traits_row ''PUBLISH'' W_none 1 4 6 False True False False True
     [T_integer, T_integer, T_object, T_string, T_array, T_object, T_null]"
  "lookup_traits W_published = traits_row ''PUBLISHED'' W_publish 1 3 3 True False False False True
     [T_integer, T_integer, T_integer, T_null, T_null, T_null, T_null]"
  "lookup_traits W_subscribe = traits_row ''SUBSCRIBE'' W_none 1 4 4 False True False False True
     [T_integer, T_integer, T_object, T_string, T_null, T_null, T_null]"
  "lookup_traits W_subscribed = traits_row ''SUBSCRIBED'' W_subscribe 1 3 3 True False False False True
     [T_integer, T_integer, T_integer, T_null, T_null, T_null, T_null]"
  "lookup_traits W_unsubscribe = traits_row ''UNSUBSCRIBE'' W_none 1 3 3 False True False False True
     [T_integer, T_integer, T_integer, T_null, T_null, T_null, T_null]"
  "lookup_traits W_unsubscribed = traits_row ''UNSUBSCRIBED'' W_unsubscribe 1 2 2 True False False False True
     [T_integer, T_integer, T_null, T_null, T_null, T_null, T_null]"
  "lookup_traits W_event = traits_row ''EVENT'' W_none 0 4 6 True False False False True
     [T_integer, T_integer, T_integer, T_object, T_array, T_object, T_null]"
  "lookup_traits W_call = traits_row ''CALL'' W_none 1 4 6 False True False False True
     [T_integer, T_integer, T_object, T_string, T_array, T_object, T_null]"
  "lookup_traits W_cancel = traits_row ''CANCEL'' W_none 0 3 3 False True False False True
     [T_integer, T_integer, T_object, T_null, T_null, T_null, T_null]"
  "lookup_traits W_result = traits_row ''RESULT'' W_call 1 3 5 True False False False True
     [T_integer, T_integer, T_object, T_array, T_object, T_null, T_null]"
  "lookup_traits W_enroll = traits_row ''REGISTER'' W_none 1 4 4 False True False False True
     [T_integer, T_integer, T_object, T_string, T_null, T_null, T_null]"
  "lookup_traits W_registered = traits_row ''REGISTERED'' W_enroll 1 3 3 True False False False True
     [T_integer, T_integer, T_integer, T_null, T_null, T_null, T_null]"
  "lookup_traits W_unregister = traits_row ''UNREGISTER'' W_none 1 3 3 False True False False True
     [T_integer, T_integer, T_integer, T_null, T_null, T_null, T_null]"
  "lookup_traits W_unregistered = traits_row ''UNREGISTERED'' W_unregister 1 2 2 True False False False True
     [T_integer, T_integer, T_null, T_null, T_null, T_null, T_null]"
  "lookup_traits W_invocation = traits_row ''INVOCATION'' W_none 1 4 6 True False False False True
     [T_integer, T_integer, T_integer, T_object, T_array, T_object, T_null]"
  "lookup_traits W_interrupt = traits_row ''INTERRUPT'' W_none 0 3 3 True False False False True
     [T_integer, T_integer, T_object, T_null, T_null, T_null, T_null]"
  "lookup_traits W_yield = traits_row ''YIELD'' W_invocation 0 3 5 False True False False True
     [T_integer, T_integer, T_object, T_array, T_object, T_null, T_null]"
  by (simp_all add: lookup_traits_def lookup_code_def)
    (simp_all add: traits_table_def)

lemma lookup_unnamed_code:
  "msg_type_of_code n = W_unnamed n \<Longrightarrow> lookup_code n = no_message"
proof (cases "n < 71")
  case True
  assume "msg_type_of_code n = W_unnamed n"
  then have "n \<notin> set (map msg_type_code named_msg_types)"
    by (auto simp: msg_type_of_code_def find_named named_code)
  moreover have "\<forall>i \<in> set [0..<71]. i \<in> set (map msg_type_code named_msg_types) \<or>
      traits_table ! i = no_message"
    by (simp add: upt_rec [of _ "71"] named_msg_types_def traits_table_def)
  ultimately show ?thesis using True by (auto simp: lookup_code_def)
next
  case False
  then show ?thesis by (simp add: lookup_code_def traits_table_def)
qed

text \<open>What a client may receive in each state.\<close>

lemma traits_row_simps [simp]:
  "tr_name (traits_row nm rep idp mn mx c r e ch es tys) = Some nm"
  "replies_to (traits_row nm rep idp mn mx c r e ch es tys) = rep"
  "id_position (traits_row nm rep idp mn mx c r e ch es tys) = idp"
  "min_size (traits_row nm rep idp mn mx c r e ch es tys) = mn"
  "max_size (traits_row nm rep idp mn mx c r e ch es tys) = mx"
  "is_client_rx (traits_row nm rep idp mn mx c r e ch es tys) = c"
  "is_router_rx (traits_row nm rep idp mn mx c r e ch es tys) = r"
  "for_establishing (traits_row nm rep idp mn mx c r e ch es tys) = e"
  "for_challenging (traits_row nm rep idp mn mx c r e ch es tys) = ch"
  "for_established (traits_row nm rep idp mn mx c r e ch es tys) = es"
  "field_types (traits_row nm rep idp mn mx c r e ch es tys) = tys"
  "min_size no_message = 0" "is_client_rx no_message = False" "is_router_rx no_message = False"
  "id_position no_message = 0" "replies_to no_message = W_none"
  by (simp_all add: traits_row_def no_message_def)

text \<open>Every type of the table other than none is named.\<close>

lemma valid_type_cases:
  assumes "is_valid_type (lookup_traits (msg_type_of_code n))" and "n \<le> 255"
  shows "msg_type_of_code n \<in> set named_msg_types - {W_none}"
proof (cases "find (\<lambda>t. msg_type_code t = n) named_msg_types")
  case None
  then have "lookup_traits (msg_type_of_code n) = no_message"
    using lookup_unnamed_code [of n] by (simp add: lookup_traits_def msg_type_of_code_def)
  with assms show ?thesis by (simp add: is_valid_type_def)
next
  case (Some t)
  then have "msg_type_of_code n = t" by (simp add: msg_type_of_code_def)
  moreover have "t \<in> set named_msg_types"
    using Some by (auto simp: find_Some_iff in_set_conv_nth)
  moreover note t = calculation
  with assms show ?thesis by (auto simp: is_valid_type_def lookup_named)
qed

lemma parse_msg_type_named: "parse_msg_type fs \<in> set named_msg_types"
proof -
  have none: "W_none \<in> set named_msg_types" by (simp add: named_code)
  show ?thesis
    using valid_type_cases none
    by (auto simp: parse_msg_type_def Let_def split: list.splits variant.splits)
qed

lemma parse_msg_type_code:
  assumes "parse_msg_type fs = t" and "t \<noteq> W_none"
  shows "\<exists>w vs. fs = V_int w # vs \<and> sint w = int (msg_type_code t)"
proof -
  from assms obtain w vs where fs: "fs = V_int w # vs" "0 \<le> sint w" "sint w \<le> 255"
      "msg_type_of_code (nat (sint w)) = t" "is_valid_type (lookup_traits t)"
    by (auto simp: parse_msg_type_def Let_def split: list.splits variant.splits if_splits)
  have "t \<in> set named_msg_types"
    using parse_msg_type_named [of fs] assms by simp
  then have "find (\<lambda>u. msg_type_code u = nat (sint w)) named_msg_types = Some t"
    using fs(4) by (auto simp: msg_type_of_code_def named_code split: option.splits)
  then have "msg_type_code t = nat (sint w)" by (auto simp: find_Some_iff)
  with fs show ?thesis by simp
qed

text \<open>The lists of fields that the table allows for a type.\<close>

definition conforms :: "wamp_msg_type \<Rightarrow> variant list \<Rightarrow> bool" where
  "conforms t fs \<longleftrightarrow> t \<in> set named_msg_types - {W_none} \<and>
     (case fs of V_int w # _ \<Rightarrow> sint w = int (msg_type_code t) | _ \<Rightarrow> False) \<and>
     min_size (lookup_traits t) \<le> length fs \<and> length fs \<le> max_size (lookup_traits t) \<and>
     map type_id_of fs = take (length fs) (field_types (lookup_traits t))"

lemma fields_match_iff: "fields_match vs tys \<longleftrightarrow> map type_id_of vs = take (length vs) tys"
  by (induction vs arbitrary: tys) (auto split: list.split)

lemma make_message_typed:
  assumes "fs = V_int w # vs" and "sint w = int (msg_type_code t)"
  shows "make_message t fs = \<lparr>msg_type = t, msg_fields = fs\<rparr>"
proof -
  have "word_of_int (int (msg_type_code t)) = w" unfolding assms(2) [symmetric] by simp
  with assms(1) show ?thesis by (simp add: make_message_def id_variant_def)
qed

lemma parse_msg_type_conforms:
  assumes "conforms t fs"
  shows "parse_msg_type fs = t"
proof -
  from assms obtain w vs where fs: "fs = V_int w # vs" "sint w = int (msg_type_code t)"
    by (auto simp: conforms_def split: list.splits variant.splits)
  from assms have t: "t \<in> set named_msg_types" "t \<noteq> W_none" by (auto simp: conforms_def)
  have "msg_type_code t \<le> 255 \<and> is_valid_type (lookup_traits t)"
    by (cases t) (use t in \<open>simp_all add: lookup_named is_valid_type_def named_code\<close>)
  with fs t show ?thesis by (simp add: parse_msg_type_def)
qed

text \<open>
  A message that parses has the fields it was parsed from, a type that is named and at
  least one of the sizes, the field types and the type code that the table gives for it; and
  every list of fields that conforms to the table parses.
\<close>

lemma parse_message_iff:
  "parse_message fs = Inr m \<longleftrightarrow> conforms (msg_type m) fs \<and> msg_fields m = fs"
proof
  assume p: "parse_message fs = Inr m"
  define t where "t = parse_msg_type fs"
  from p have t: "t \<noteq> W_none" "min_size (lookup_traits t) \<le> length fs"
      "length fs \<le> max_size (lookup_traits t)" "fields_match fs (field_types (lookup_traits t))"
      "m = make_message t fs"
    by (auto simp: parse_message_def t_def Let_def split: if_splits)
  obtain w vs where fs: "fs = V_int w # vs" "sint w = int (msg_type_code t)"
    using parse_msg_type_code [OF t_def [symmetric] t(1)] by blast
  then have "m = \<lparr>msg_type = t, msg_fields = fs\<rparr>" using t(5) make_message_typed by simp
  moreover have "conforms t fs"
    using t fs parse_msg_type_named [of fs]
    by (auto simp: conforms_def t_def fields_match_iff)
  ultimately show "conforms (msg_type m) fs \<and> msg_fields m = fs" by simp
next
  assume m: "conforms (msg_type m) fs \<and> msg_fields m = fs"
  then obtain w vs where fs: "fs = V_int w # vs" "sint w = int (msg_type_code (msg_type m))"
    by (auto simp: conforms_def split: list.splits variant.splits)
  have "make_message (msg_type m) fs = m"
    using make_message_typed [OF fs] m by (cases m) simp
  with m parse_msg_type_conforms [of "msg_type m" fs] show "parse_message fs = Inr m"
    by (auto simp: parse_message_def conforms_def fields_match_iff Let_def)
qed

text \<open>Parsing described by the table alone\<close>

definition message_of_fields :: "variant list \<Rightarrow> error_code + wamp_message" where
  "message_of_fields fs =
    (case find (\<lambda>t. conforms t fs) named_msg_types of
       None \<Rightarrow> Inl (session_ec SE_protocolViolation)
     | Some t \<Rightarrow> Inr \<lparr>msg_type = t, msg_fields = fs\<rparr>)"

text \<open>
  C22: the parser, with its checks of the type number, the number of fields and their types,
  computes what a search of the message types for one that the fields conform to gives: the
  message of that type with the fields as they are, or else a protocol violation.
\<close>

theorem parse_message_reference: "parse_message fs = message_of_fields fs"
proof (cases "find (\<lambda>t. conforms t fs) named_msg_types")
  case None
  have "\<not> conforms t fs" for t
  proof
    assume c: "conforms t fs"
    then have "t \<in> set named_msg_types" by (simp add: conforms_def)
    with None c show False by (simp add: find_None_iff)
  qed
  then have "parse_message fs \<noteq> Inr m" for m by (simp add: parse_message_iff)
  moreover have "parse_message fs = Inl ec \<Longrightarrow> ec = session_ec SE_protocolViolation" for ec
    by (auto simp: parse_message_def Let_def split: if_splits)
  ultimately show ?thesis using None by (cases "parse_message fs") (auto simp: message_of_fields_def)
next
  case (Some t)
  then have "conforms t fs" by (auto simp: find_Some_iff)
  then have "parse_message fs = Inr \<lparr>msg_type = t, msg_fields = fs\<rparr>" by (simp add: parse_message_iff)
  with Some show ?thesis by (simp add: message_of_fields_def)
qed

text \<open>Messages as a client makes them, given their request ID, parse as they are.\<close>

lemma sint_word_of_int: "- (2 ^ 63) \<le> i \<Longrightarrow> i < 2 ^ 63 \<Longrightarrow> sint (word_of_int i :: u64) = i"
  by (simp add: signed_of_int signed_take_bit_int_eq_self)

lemma type_id_id_variant [simp]: "type_id_of (id_variant i) = T_integer"
  by (simp add: id_variant_def)

lemma sint_code [simp]:
  "n \<le> 255 \<Longrightarrow> sint (word_of_int (int n) :: u64) = int n"
  by (intro sint_word_of_int) simp_all

definition client_messages :: "string \<Rightarrow> vobject \<Rightarrow> int \<Rightarrow> wamp_message list" where
  "client_messages s opts n = [hello_message s, authenticate_message s opts, abort_message s opts,
     goodbye_message s opts, set_request_info W_invocation n (error_message s opts),
     publish_message s opts, subscribe_message s, unsubscribe_message n, call_message s opts,
     register_message s opts, unregister_message n, yield_message n opts,
     transform_to_yield (result_message opts), cancel_message n opts]"

text \<open>
  Every message that a client makes, once it has its request ID, parses at the receiver as
  itself; the same holds with a payload added to the messages that can have one.
\<close>

theorem client_messages_parse:
  assumes "m \<in> set (client_messages s opts n)"
  shows "parse_message (msg_fields (set_request_id i m)) = Inr (set_request_id i m)"
  using assms
  by (auto simp: parse_message_iff client_messages_def hello_message_def authenticate_message_def
      abort_message_def goodbye_message_def error_message_def set_request_info_def
      publish_message_def subscribe_message_def unsubscribe_message_def call_message_def
      register_message_def unregister_message_def yield_message_def result_message_def
      transform_to_yield_def set_type_def cancel_message_def make_message_def set_request_id_def
      lookup_named conforms_def named_code id_variant_def numeral_eq_Suc)

theorem client_messages_parse_witness:
  "parse_message (msg_fields (set_request_id 7 (call_message ''com.x'' []))) =
     Inr (set_request_id 7 (call_message ''com.x'' []))"
  by (rule client_messages_parse [of _ "''com.x''" "[]" 0]) (simp add: client_messages_def)

text \<open>
  In each state a client may receive exactly the messages below, so that no request
  message and, while no session is being established or is, no message at all gets through.
\<close>

theorem client_rx_matrix:
  "is_valid_rx (lookup_traits t) s False \<longleftrightarrow>
     (case s of
        Establishing \<Rightarrow> t \<in> {W_welcome, W_abort, W_challenge}
      | Authenticating \<Rightarrow> t \<in> {W_welcome, W_abort, W_challenge}
      | Established \<Rightarrow> t \<in> {W_abort, W_goodbye, W_error, W_published, W_subscribed, W_unsubscribed,
          W_event, W_result, W_registered, W_unregistered, W_invocation, W_interrupt}
      | Shutting_down \<Rightarrow> t \<in> {W_abort, W_goodbye, W_error, W_published, W_subscribed, W_unsubscribed,
          W_event, W_result, W_registered, W_unregistered, W_invocation, W_interrupt}
      | _ \<Rightarrow> False)"
  if "t \<in> set named_msg_types"
  by (cases t; cases s) (use that in \<open>simp_all add: is_valid_rx_def lookup_named named_code\<close>)

theorem client_rx_matrix_witness:
  "is_valid_rx (lookup_traits W_call) Established False \<longleftrightarrow>
     W_call \<in> {W_abort, W_goodbye, W_error, W_published, W_subscribed, W_unsubscribed,
          W_event, W_result, W_registered, W_unregistered, W_invocation, W_interrupt}"
  using client_rx_matrix [of W_call Established] by (simp add: named_code)

text \<open>
  The request type of an ERROR is taken modulo 256: an ERROR for the number 304, which no
  request has, gets the key of a CALL.
\<close>

theorem error_request_type_wraps:
  "parse_message [V_int 8, V_int 304, V_int w, V_object [], V_string s] =
     Inr \<lparr>msg_type = W_error, msg_fields = [V_int 8, V_int 304, V_int w, V_object [], V_string s]\<rparr> \<and>
   request_key \<lparr>msg_type = W_error, msg_fields = [V_int 8, V_int 304, V_int w, V_object [], V_string s]\<rparr> =
     (W_call, sint w)"
  by (simp add: parse_message_iff conforms_def named_code lookup_named request_key_def
      request_id_of_def int_field_def vec_at_def msg_type_of_code_def named_msg_types_def Let_def)

text \<open>
  A RESULT whose option \<open>progress\<close> is not a scalar makes \<open>isProgressiveResponse\<close> throw
  although the message is valid.
\<close>

theorem progress_option_may_throw:
  assumes "parse_message fs = Inr m" and "msg_type m = W_result" and "omap_find (object_field m 2) ''progress'' = Some v"
  shows "is_progressive_response m = Inl Conversion_error \<longleftrightarrow>
    type_id_of v \<in> {T_string, T_blob, T_array, T_object}"
proof -
  have fs: "msg_fields m = fs" "conforms W_result fs"
    using assms(1,2) by (auto simp: parse_message_iff)
  then obtain a b c rest where "fs = a # b # c # rest"
    by (auto simp: conforms_def lookup_named Suc_le_length_iff numeral_eq_Suc)
  with assms(2,3) fs(1) show ?thesis
    by (cases c; cases v)
      (simp_all add: is_progressive_response_def object_field_def vec_at_def bool_value_or_false_def)
qed

theorem progress_option_may_throw_witness:
  "is_progressive_response (result_message [(''progress'', V_string ''no'')]) = Inl Conversion_error \<longleftrightarrow>
    type_id_of (V_string ''no'') \<in> {T_string, T_blob, T_array, T_object}"
  by (rule progress_option_may_throw [of "msg_fields (result_message [(''progress'', V_string ''no'')])"])
    (simp_all add: parse_message_iff conforms_def named_code lookup_named result_message_def
      make_message_def id_variant_def object_field_def vec_at_def)

end
