(* ===== verification/Caller_Timeout.thy ===== *)
theory Caller_Timeout
  imports Wamp_Message
begin

section \<open>Caller timeouts (\<open>internal/callertimeout.hpp\<close>)\<close>

text \<open>
  \<open>CallerTimeoutScheduler\<close>: the deadlines of pending calls, of which one timer waits for the
  first.  The set of records is a list sorted by deadline, its only sort key.  The timer is Asio's: what the
  code asks of it are effects, and \<open>Timer_done\<close> is the completion of the oldest outstanding
  wait.  \<open>waits\<close> are the outstanding waits, with the request ID that the completion handler has
  captured, and whether the timer has been cancelled or set anew since; Asio lets such a wait
  end with an error.
\<close>

record deadline_record =
  deadline :: int
  dl_request :: request_id

record scheduler =
  deadlines :: "deadline_record list"
  timeout_handler :: bool
  waits :: "(request_id \<times> bool) list"

datatype timer_effect =
    Expires_at int
  | Async_wait request_id
  | Timer_cancel
  | Timed_out request_id

datatype scheduler_event =
    Listen
  | Add int request_id int
  | Remove request_id
  | Clear
  | Timer_done int

definition scheduler_create :: scheduler where
  "scheduler_create = \<lparr>deadlines = [], timeout_handler = False, waits = []\<rparr>"

text \<open>\<open>std::set::insert\<close> does nothing when an equivalent record is present.\<close>

fun insert_deadline :: "deadline_record \<Rightarrow> deadline_record list \<Rightarrow> deadline_record list" where
  "insert_deadline r [] = [r]"
| "insert_deadline r (d # ds) =
     (if deadline r < deadline d then r # d # ds
      else if deadline d < deadline r then d # insert_deadline r ds
      else d # ds)"

text \<open>Cancelling the timer or changing its expiry cancels the outstanding waits.\<close>

definition cancel_waits :: "(request_id \<times> bool) list \<Rightarrow> (request_id \<times> bool) list" where
  "cancel_waits ws = map (\<lambda>w. (fst w, True)) ws"

definition timer_cancel :: "scheduler \<Rightarrow> scheduler \<times> timer_effect list" where
  "timer_cancel s = (s\<lparr>waits := cancel_waits (waits s)\<rparr>, [Timer_cancel])"

definition process_next_deadline :: "scheduler \<Rightarrow> scheduler \<times> timer_effect list" where
  "process_next_deadline s =
     (case deadlines s of
        [] \<Rightarrow> (s, [])
      | d # _ \<Rightarrow>
          (s\<lparr>waits := cancel_waits (waits s) @ [(dl_request d, False)]\<rparr>,
           [Expires_at (deadline d), Async_wait (dl_request d)]))"

definition scheduler_add :: "int \<Rightarrow> request_id \<Rightarrow> int \<Rightarrow> scheduler \<Rightarrow> scheduler \<times> timer_effect list" where
  "scheduler_add timeout rid now s =
     (let rec = \<lparr>deadline = now + timeout, dl_request = rid\<rparr>;
          was_idle = (deadlines s = []);
          preempts = (\<not> was_idle \<and> deadline rec < deadline (hd (deadlines s)));
          s1 = s\<lparr>deadlines := insert_deadline rec (deadlines s)\<rparr>
      in if was_idle then process_next_deadline s1
         else if preempts then timer_cancel s1
         else (s1, []))"

fun erase_request :: "request_id \<Rightarrow> deadline_record list \<Rightarrow> deadline_record list" where
  "erase_request rid [] = []"
| "erase_request rid (d # ds) = (if dl_request d = rid then ds else d # erase_request rid ds)"

definition scheduler_remove :: "request_id \<Rightarrow> scheduler \<Rightarrow> scheduler \<times> timer_effect list" where
  "scheduler_remove rid s =
     (case deadlines s of
        [] \<Rightarrow> (s, [])
      | d # ds \<Rightarrow>
          if dl_request d = rid then timer_cancel (s\<lparr>deadlines := ds\<rparr>)
          else (s\<lparr>deadlines := erase_request rid (d # ds)\<rparr>, []))"

definition scheduler_clear :: "scheduler \<Rightarrow> scheduler \<times> timer_effect list" where
  "scheduler_clear s = timer_cancel (s\<lparr>timeout_handler := False, deadlines := []\<rparr>)"

definition on_timer :: "int \<Rightarrow> request_id \<Rightarrow> scheduler \<Rightarrow> scheduler \<times> timer_effect list" where
  "on_timer ec rid s =
     (case deadlines s of
        [] \<Rightarrow> (s, [])
      | first # ds \<Rightarrow>
          (let preempted = (dl_request first \<noteq> rid);
               out = (if \<not> preempted \<and> ec = 0 \<and> timeout_handler s then [Timed_out (dl_request first)]
                      else []);
               s1 = (if preempted then s else s\<lparr>deadlines := ds\<rparr>);
               (s2, out2) = (if deadlines s1 \<noteq> [] then process_next_deadline s1 else (s1, []))
           in (s2, out @ out2)))"

fun scheduler_step :: "scheduler \<Rightarrow> scheduler_event \<Rightarrow> scheduler \<times> timer_effect list" where
  "scheduler_step s Listen = (s\<lparr>timeout_handler := True\<rparr>, [])"
| "scheduler_step s (Add timeout rid now) = scheduler_add timeout rid now s"
| "scheduler_step s (Remove rid) = scheduler_remove rid s"
| "scheduler_step s Clear = scheduler_clear s"
| "scheduler_step s (Timer_done ec) =
     (case waits s of
        [] \<Rightarrow> (s, [])
      | (rid, _) # ws \<Rightarrow> on_timer ec rid (s\<lparr>waits := ws\<rparr>))"

lemmas scheduler_ops [step_simps] = scheduler_add_def scheduler_remove_def scheduler_clear_def
  on_timer_def process_next_deadline_def timer_cancel_def

subsection \<open>What always holds\<close>

definition scheduler_ok :: "scheduler \<Rightarrow> bool" where
  "scheduler_ok s \<longleftrightarrow> sorted_wrt (<) (map deadline (deadlines s)) \<and>
     (deadlines s \<noteq> [] \<longrightarrow> waits s \<noteq> []) \<and> list_all snd (butlast (waits s))"

lemma set_insert_deadline:
  "set (map deadline (insert_deadline r ds)) = insert (deadline r) (set (map deadline ds))"
  by (induction r ds rule: insert_deadline.induct) auto

lemma sorted_insert_deadline:
  "sorted_wrt (<) (map deadline ds) \<Longrightarrow> sorted_wrt (<) (map deadline (insert_deadline r ds))"
proof (induction r ds rule: insert_deadline.induct)
  case (2 r d ds)
  have "set (map deadline (insert_deadline r ds)) = insert (deadline r) (set (map deadline ds))"
    by (rule set_insert_deadline)
  with 2 show ?case by (auto intro: less_trans)
qed simp

lemma set_erase_request: "set (erase_request rid ds) \<subseteq> set ds"
  by (induction rid ds rule: erase_request.induct) auto

lemma sorted_erase_request:
  "sorted_wrt (<) (map deadline ds) \<Longrightarrow> sorted_wrt (<) (map deadline (erase_request rid ds))"
proof (induction rid ds rule: erase_request.induct)
  case (2 rid d ds)
  then show ?case using set_erase_request [of rid ds] by auto
qed simp

lemma cancel_waits_simps [simp]:
  "list_all snd (cancel_waits ws)" "cancel_waits ws = [] \<longleftrightarrow> ws = []"
  "list_all snd (butlast (cancel_waits ws))" "length (cancel_waits ws) = length ws"
  by (auto simp: cancel_waits_def list_all_iff in_set_butlastD dest: in_set_butlastD)

lemma insert_deadline_neq_Nil [simp]: "insert_deadline r ds \<noteq> []"
  by (cases ds) auto

lemma scheduler_step_ok:
  assumes "scheduler_ok s"
  shows "scheduler_ok (fst (scheduler_step s e))"
proof (cases e)
  case (Timer_done ec)
  show ?thesis
  proof (cases "waits s")
    case (Cons w ws)
    then have "list_all snd (butlast ws)"
      using assms by (cases ws) (auto simp: scheduler_ok_def split: if_splits)
    then show ?thesis
      using assms Cons Timer_done
      by (cases w) (auto simp: scheduler_ok_def on_timer_def process_next_deadline_def Let_def
          butlast_append split: list.splits)
  qed (use assms Timer_done in simp)
qed (use assms in \<open>auto simp: scheduler_ok_def scheduler_ops butlast_append Let_def
      sorted_insert_deadline sorted_erase_request
      split: list.splits dest: subsetD [OF set_erase_request]\<close>)

interpretation sch: machine_invariant scheduler_step scheduler_ok
  by unfold_locales (rule scheduler_step_ok)

lemma scheduler_ok_create: "scheduler_ok scheduler_create"
  by (simp add: scheduler_ok_def scheduler_create_def)

text \<open>
  In every run, the deadlines are kept in strictly increasing order, and as long as there is
  a deadline some wait is outstanding whose completion will look at it.
\<close>

theorem deadlines_attended:
  "let s = fst (run_machine scheduler_step scheduler_create es) in
     sorted_wrt (<) (map deadline (deadlines s)) \<and> (deadlines s \<noteq> [] \<longrightarrow> waits s \<noteq> [])"
  using sch.run_inv [OF scheduler_ok_create, of es] by (simp add: scheduler_ok_def Let_def)

theorem deadlines_attended_witness:
  "let s = fst (run_machine scheduler_step scheduler_create [Listen, Add 10 1 0, Add 5 2 1]) in
     map deadline (deadlines s) = [6, 10] \<and> waits s \<noteq> []"
  using deadlines_attended [of "[Listen, Add 10 1 0, Add 5 2 1]"]
  by (simp add: scheduler_create_def scheduler_ops cancel_waits_def)

subsection \<open>Deadlines that are lost, and runs without losses\<close>

text \<open>
  A call whose deadline falls on that of another pending call gets no deadline at all.
\<close>

theorem equal_deadline_dropped:
  assumes "scheduler_ok s" and "r \<in> set (deadlines s)" and "deadline r = now + timeout"
  shows "scheduler_step s (Add timeout rid now) = (s, [])"
proof -
  have "insert_deadline \<lparr>deadline = deadline r, dl_request = rid\<rparr> ds = ds"
    if "r \<in> set ds" "sorted_wrt (<) (map deadline ds)" for ds
    using that by (induction ds) (auto simp: not_less)
  with assms show ?thesis
    by (cases "deadlines s") (auto simp: scheduler_add_def scheduler_ok_def not_less Let_def)
qed

text \<open>
  Removing the only deadline and adding another before the completion of the cancelled wait
  has run loses the new deadline: its own wait is cancelled by the first completion, and the
  completion of that erases it without a call of the timeout handler.
\<close>

theorem deadline_lost_after_remove:
  assumes "a \<noteq> b"
  shows "let (s, out) = run_machine scheduler_step scheduler_create
       [Listen, Add 10 a 0, Remove a, Add 20 b 0, Timer_done 125, Timer_done 125, Timer_done 0]
     in deadlines s = [] \<and> waits s = [] \<and> Timed_out b \<notin> set out"
  using assms by (simp add: scheduler_create_def scheduler_ops cancel_waits_def)

text \<open>
  A run is prompt when the completion of a cancelled wait is what happens next, when waits end
  with success exactly if they were not cancelled, and when no two pending calls have the
  same ID or deadline.
\<close>

definition request_ids :: "scheduler \<Rightarrow> request_id set" where
  "request_ids s = dl_request ` set (deadlines s)"

fun allowed :: "scheduler \<Rightarrow> scheduler_event \<Rightarrow> bool" where
  "allowed s (Timer_done ec) \<longleftrightarrow> ((\<exists>w \<in> set (waits s). snd w) \<longleftrightarrow> ec \<noteq> 0)"
| "allowed s (Add timeout rid now) \<longleftrightarrow> \<not> (\<exists>w \<in> set (waits s). snd w) \<and> rid \<notin> request_ids s \<and>
     now + timeout \<notin> deadline ` set (deadlines s)"
| "allowed s (Remove rid) \<longleftrightarrow> \<not> (\<exists>w \<in> set (waits s). snd w)"
| "allowed s Listen \<longleftrightarrow> \<not> (\<exists>w \<in> set (waits s). snd w)"
| "allowed s Clear \<longleftrightarrow> False"

inductive prompt_run :: "scheduler \<Rightarrow> scheduler_event list \<Rightarrow> scheduler \<Rightarrow> timer_effect list \<Rightarrow> bool" where
  Stop: "prompt_run s [] s []"
| Step: "\<lbrakk>allowed s e; prompt_run (fst (scheduler_step s e)) es s' out\<rbrakk> \<Longrightarrow>
    prompt_run s (e # es) s' (snd (scheduler_step s e) @ out)"

inductive_cases prompt_run_ConsE: "prompt_run s (e # es) s' out"
inductive_simps prompt_run_Nil: "prompt_run s [] s' out"

fun all_allowed :: "scheduler \<Rightarrow> scheduler_event list \<Rightarrow> bool" where
  "all_allowed s [] \<longleftrightarrow> True"
| "all_allowed s (e # es) \<longleftrightarrow> allowed s e \<and> all_allowed (fst (scheduler_step s e)) es"

lemma prompt_run_iff:
  "prompt_run s es s' out \<longleftrightarrow> all_allowed s es \<and> run_machine scheduler_step s es = (s', out)"
proof (induction es arbitrary: s s' out)
  case Nil
  then show ?case by (auto simp: prompt_run_Nil)
next
  case (Cons e es)
  show ?case
  proof
    assume "prompt_run s (e # es) s' out"
    then show "all_allowed s (e # es) \<and> run_machine scheduler_step s (e # es) = (s', out)"
      by (rule prompt_run_ConsE) (auto simp: Cons.IH case_prod_beta)
  next
    assume r: "all_allowed s (e # es) \<and> run_machine scheduler_step s (e # es) = (s', out)"
    then have "prompt_run (fst (scheduler_step s e)) es s'
        (snd (run_machine scheduler_step (fst (scheduler_step s e)) es))"
      by (simp add: Cons.IH case_prod_beta prod_eq_iff)
    from prompt_run.Step [OF _ this] r show "prompt_run s (e # es) s' out"
      by (simp add: case_prod_beta)
  qed
qed

text \<open>In a prompt run there is one wait, for the first deadline unless it has been cancelled.\<close>

definition prompt_ok :: "scheduler \<Rightarrow> bool" where
  "prompt_ok s \<longleftrightarrow> timeout_handler s \<and> distinct (map dl_request (deadlines s)) \<and>
     (case deadlines s of
        [] \<Rightarrow> waits s = [] \<or> (\<exists>r. waits s = [(r, True)])
      | d # _ \<Rightarrow> \<exists>r c. waits s = [(r, c)] \<and> (c \<longleftrightarrow> r \<noteq> dl_request d))"

fun added :: "scheduler_event list \<Rightarrow> request_id set" where
  "added [] = {}"
| "added (Add timeout rid now # es) = insert rid (added es)"
| "added (_ # es) = added es"

definition timed_out :: "timer_effect list \<Rightarrow> request_id set" where
  "timed_out out = {r. Timed_out r \<in> set out}"

lemma set_insert_deadline_new:
  "deadline r \<notin> deadline ` set ds \<Longrightarrow> set (insert_deadline r ds) = insert r (set ds)"
  by (induction r ds rule: insert_deadline.induct) auto

lemma distinct_insert_deadline:
  "\<lbrakk>distinct (map dl_request ds); dl_request r \<notin> dl_request ` set ds; deadline r \<notin> deadline ` set ds\<rbrakk> \<Longrightarrow>
     distinct (map dl_request (insert_deadline r ds))"
proof (induction r ds rule: insert_deadline.induct)
  case (2 r d ds)
  then show ?case using set_insert_deadline_new [of r ds] by auto
qed simp

lemma hd_insert_deadline:
  "ds \<noteq> [] \<Longrightarrow> hd (insert_deadline r ds) = (if deadline r < deadline (hd ds) then r else hd ds)"
  by (cases ds) auto

lemma erase_request_set:
  "distinct (map dl_request ds) \<Longrightarrow> dl_request ` set (erase_request rid ds) = dl_request ` set ds - {rid}"
  by (induction rid ds rule: erase_request.induct) (auto intro: rev_image_eqI)

lemma distinct_erase_request:
  "distinct (map dl_request ds) \<Longrightarrow> distinct (map dl_request (erase_request rid ds))"
proof (induction rid ds rule: erase_request.induct)
  case (2 rid d ds)
  then show ?case using set_erase_request [of rid ds] by auto
qed simp

definition accounts :: "scheduler \<Rightarrow> scheduler_event \<Rightarrow> bool" where
  "accounts s e \<longleftrightarrow> prompt_ok (fst (scheduler_step s e)) \<and>
    (\<forall>r \<in> request_ids s \<union> added [e]. r \<in> request_ids (fst (scheduler_step s e)) \<or>
      r \<in> timed_out (snd (scheduler_step s e)) \<or> e = Remove r)"

lemma prompt_idle:
  assumes "prompt_ok s" "allowed s e" "deadlines s = []"
  shows "accounts s e"
proof -
  from assms(1,3) have h: "timeout_handler s" by (simp add: prompt_ok_def)
  from assms(1,3) consider "waits s = []" | r where "waits s = [(r, True)]"
    by (auto simp: prompt_ok_def)
  then show ?thesis
  proof cases
    case 1
    with assms(2,3) h show ?thesis
      by (cases e) (simp_all add: accounts_def prompt_ok_def request_ids_def timed_out_def
          scheduler_ops cancel_waits_def)
  next
    case 2
    with assms(2,3) h show ?thesis
      by (cases e) (simp_all add: accounts_def prompt_ok_def request_ids_def timed_out_def
          scheduler_ops cancel_waits_def)
  qed
qed

lemma prompt_add:
  assumes s: "prompt_ok s" and e: "allowed s (Add timeout rid now)" and ds: "deadlines s = d # ds"
  shows "accounts s (Add timeout rid now)"
proof -
  let ?r = "\<lparr>deadline = now + timeout, dl_request = rid\<rparr>"
  have new: "set (insert_deadline ?r (d # ds)) = insert ?r (set (d # ds))"
    using e ds by (intro set_insert_deadline_new) auto
  have dist: "distinct (map dl_request (insert_deadline ?r (d # ds)))"
    using s e ds by (intro distinct_insert_deadline) (auto simp: prompt_ok_def request_ids_def)
  obtain h t where ht: "insert_deadline ?r (d # ds) = h # t"
    using insert_deadline_neq_Nil neq_Nil_conv by metis
  then have h: "h = (if now + timeout < deadline d then ?r else d)"
    using hd_insert_deadline [of "d # ds" ?r] by simp
  have w: "waits s = [(dl_request d, False)]" "rid \<noteq> dl_request d"
    using s e ds by (auto simp: prompt_ok_def request_ids_def)
  have ids: "dl_request ` set (h # t) = insert rid (dl_request ` set (d # ds))"
    using new unfolding ht by auto
  have dist': "distinct (map dl_request (h # t))" using dist unfolding ht .
  have handler: "timeout_handler s" using s by (simp add: prompt_ok_def)
  have step: "scheduler_step s (Add timeout rid now) =
      (if now + timeout < deadline d then timer_cancel (s\<lparr>deadlines := h # t\<rparr>)
       else (s\<lparr>deadlines := h # t\<rparr>, []))"
    using ds ht by (simp add: scheduler_add_def Let_def del: insert_deadline.simps)
  show ?thesis
  proof (cases "now + timeout < deadline d")
    case True
    with handler w h dist' ids ds show ?thesis
      by (simp add: accounts_def step prompt_ok_def request_ids_def timer_cancel_def cancel_waits_def
          del: scheduler_step.simps)
  next
    case False
    with handler w h dist' ids ds show ?thesis
      by (simp add: accounts_def step prompt_ok_def request_ids_def del: scheduler_step.simps)
  qed
qed

lemma prompt_remove:
  assumes s: "prompt_ok s" and e: "allowed s (Remove rid)" and ds: "deadlines s = d # ds"
  shows "accounts s (Remove rid)"
proof -
  have w: "waits s = [(dl_request d, False)]" using s e ds by (auto simp: prompt_ok_def)
  show ?thesis
  proof (cases "dl_request d = rid")
    case True
    with s w ds show ?thesis
      by (cases ds) (auto simp: accounts_def prompt_ok_def request_ids_def scheduler_remove_def
          timer_cancel_def cancel_waits_def)
  next
    case False
    have dist: "distinct (map dl_request (d # ds))" using s ds by (simp add: prompt_ok_def)
    from False s w ds distinct_erase_request [OF dist, of rid] erase_request_set [OF dist, of rid]
    show ?thesis
      by (auto simp: accounts_def prompt_ok_def request_ids_def scheduler_remove_def)
  qed
qed

lemma prompt_done:
  assumes s: "prompt_ok s" and e: "allowed s (Timer_done ec)" and ds: "deadlines s = d # ds"
  shows "accounts s (Timer_done ec)"
proof -
  have "\<exists>r c. waits s = [(r, c)] \<and> (c \<longleftrightarrow> r \<noteq> dl_request d)"
    using s ds by (simp add: prompt_ok_def)
  then obtain r c where w: "waits s = [(r, c)]" "c \<longleftrightarrow> r \<noteq> dl_request d" by blast
  with e have ec: "c \<longleftrightarrow> ec \<noteq> 0" by simp
  show ?thesis
  proof (cases c)
    case True
    with s w ec ds show ?thesis
      by (simp add: accounts_def prompt_ok_def request_ids_def on_timer_def process_next_deadline_def
          cancel_waits_def)
  next
    case False
    with s w ec ds show ?thesis
      by (cases ds) (auto simp: accounts_def prompt_ok_def request_ids_def timed_out_def on_timer_def
          process_next_deadline_def cancel_waits_def)
  qed
qed

lemma prompt_step:
  assumes s: "prompt_ok s" and e: "allowed s e"
  shows "accounts s e"
proof (cases "deadlines s")
  case Nil
  with s e show ?thesis by (rule prompt_idle)
next
  case (Cons d ds)
  show ?thesis
  proof (cases e)
    case Listen
    with s Cons show ?thesis by (simp add: accounts_def prompt_ok_def request_ids_def)
  qed (use s e Cons prompt_add prompt_remove prompt_done in auto)
qed

text \<open>
  In a prompt run, every call that got a deadline still has it, has timed out, or has been
  removed.
\<close>

theorem prompt_run_loses_nothing:
  assumes "prompt_run s es s' out" and "prompt_ok s"
  shows "request_ids s \<union> added es \<subseteq> request_ids s' \<union> timed_out out \<union> {r. Remove r \<in> set es}"
  using assms
proof (induction rule: prompt_run.induct)
  case (Step s e es s' out)
  note step = prompt_step [OF Step.prems Step.hyps(1), unfolded accounts_def]
  have es: "added (e # es) = added [e] \<union> added es" by (cases e) auto
  have out: "timed_out (snd (scheduler_step s e) @ out) = timed_out (snd (scheduler_step s e)) \<union> timed_out out"
    by (auto simp: timed_out_def)
  from step Step.IH show ?case unfolding es out by auto
qed simp

theorem prompt_run_loses_nothing_witness:
  "request_ids (fst (scheduler_step scheduler_create Listen)) \<union>
       added [Add 10 1 0, Add 5 2 0, Timer_done 125, Timer_done 0, Remove 1, Timer_done 125]
     \<subseteq> request_ids \<lparr>deadlines = [], timeout_handler = True, waits = []\<rparr> \<union>
       timed_out [Expires_at 10, Async_wait 1, Timer_cancel, Expires_at 5, Async_wait 2, Timed_out 2,
         Expires_at 10, Async_wait 1, Timer_cancel] \<union>
       {r. Remove r \<in> set [Add 10 1 0, Add 5 2 0, Timer_done 125, Timer_done 0, Remove 1, Timer_done 125]}"
proof (rule prompt_run_loses_nothing)
  let ?s = "fst (scheduler_step scheduler_create Listen)"
  let ?es = "[Add 10 1 0, Add 5 2 0, Timer_done 125, Timer_done 0, Remove 1, Timer_done 125]"
  show "prompt_run ?s ?es \<lparr>deadlines = [], timeout_handler = True, waits = []\<rparr>
      [Expires_at 10, Async_wait 1, Timer_cancel, Expires_at 5, Async_wait 2, Timed_out 2,
       Expires_at 10, Async_wait 1, Timer_cancel]"
    by (simp add: prompt_run_iff scheduler_create_def scheduler_ops cancel_waits_def request_ids_def)
  show "prompt_ok (fst (scheduler_step scheduler_create Listen))"
    by (simp add: prompt_ok_def scheduler_create_def)
qed

theorem equal_deadline_dropped_witness:
  "scheduler_step \<lparr>deadlines = [\<lparr>deadline = 10, dl_request = 1\<rparr>], timeout_handler = True, waits = [(1, False)]\<rparr>
     (Add 4 2 6) =
   (\<lparr>deadlines = [\<lparr>deadline = 10, dl_request = 1\<rparr>], timeout_handler = True, waits = [(1, False)]\<rparr>, [])"
  by (rule equal_deadline_dropped [of _ "\<lparr>deadline = 10, dl_request = 1\<rparr>"])
    (simp_all add: scheduler_ok_def)

theorem deadline_lost_after_remove_witness:
  "let (s, out) = run_machine scheduler_step scheduler_create
       [Listen, Add 10 1 0, Remove 1, Add 20 2 0, Timer_done 125, Timer_done 125, Timer_done 0]
     in deadlines s = [] \<and> waits s = [] \<and> Timed_out 2 \<notin> set out"
  by (rule deadline_lost_after_remove) simp

end
