(* ===== verification/Logging.thy ===== *)
theory Logging
  imports Errors Variant_Model
begin

section \<open>Log levels and entries (\<open>logging.hpp\<close>, \<open>internal/logging.ipp\<close>)\<close>

text \<open>
  A text that the code builds in an \<open>ostringstream\<close> is the list of the parts it inserts, in
  order; how a variant, an error code or a time prints is left to those parts.  The clock
  reading that the constructor takes is an argument.
\<close>

datatype log_level = Log_trace | Log_debug | Log_info | Log_warning | Log_error | Log_critical
  | Log_off

primrec log_level_code :: "log_level \<Rightarrow> nat" where
  "log_level_code Log_trace = 0"
| "log_level_code Log_debug = 1"
| "log_level_code Log_info = 2"
| "log_level_code Log_warning = 3"
| "log_level_code Log_error = 4"
| "log_level_code Log_critical = 5"
| "log_level_code Log_off = 6"

lemma log_level_code_inj: "log_level_code a = log_level_code b \<Longrightarrow> a = b"
  by (cases a; cases b) simp_all

instantiation log_level :: linorder
begin

definition less_eq_log_level :: "log_level \<Rightarrow> log_level \<Rightarrow> bool" where
  "a \<le> b \<longleftrightarrow> log_level_code a \<le> log_level_code b"

definition less_log_level :: "log_level \<Rightarrow> log_level \<Rightarrow> bool" where
  "a < b \<longleftrightarrow> log_level_code a < log_level_code b"

instance
  by standard (auto simp: less_eq_log_level_def less_log_level_def intro: log_level_code_inj)

end

lemmas log_level_order = less_eq_log_level_def less_log_level_def

datatype log_part =
    P_text string
  | P_variant variant
  | P_number int
  | P_error error_code
  | P_error_message error_code
  | P_time int

type_synonym log_text = "log_part list"

definition log_level_labels :: "string list" where
  "log_level_labels =
    [''trace'', ''debug'', ''info'', ''warning'', ''error'', ''critical'', ''off'']"

definition log_level_label :: "log_level \<Rightarrow> string" where
  "log_level_label lv = log_level_labels ! log_level_code lv"

record log_entry =
  le_message :: log_text
  le_error :: error_code
  le_when :: int
  le_severity :: log_level

definition make_log_entry :: "log_level \<Rightarrow> log_text \<Rightarrow> error_code \<Rightarrow> int \<Rightarrow> log_entry" where
  "make_log_entry severity message ec now =
    \<lparr>le_message = message, le_error = ec, le_when = now, le_severity = severity\<rparr>"

definition error_suffix :: "error_code \<Rightarrow> log_text" where
  "error_suffix ec =
    (if ec_bool ec then
       [P_text '' (with error code '', P_error ec, P_text [CHR 0x20, CHR 0x27], P_error_message ec, P_text [CHR 0x27, CHR 0x29]]
     else [])"

definition to_stream :: "log_entry \<Rightarrow> string \<Rightarrow> log_text" where
  "to_stream entry origin =
    [P_text ''['', P_time (le_when entry), P_text ''] ['', P_text origin, P_text ''] ['',
     P_text (log_level_label (le_severity entry)), P_text ''] ''] @ le_message entry @
    error_suffix (le_error entry)"

definition level_color :: "log_level \<Rightarrow> string option" where
  "level_color lv =
    (case lv of
       Log_info \<Rightarrow> Some (CHR 0x1B # ''[1;32m'')
     | Log_warning \<Rightarrow> Some (CHR 0x1B # ''[1;33m'')
     | Log_error \<Rightarrow> Some (CHR 0x1B # ''[1;31m'')
     | Log_critical \<Rightarrow> Some (CHR 0x1B # ''[1;31m'')
     | _ \<Rightarrow> None)"

definition to_color_stream :: "log_entry \<Rightarrow> string \<Rightarrow> log_text" where
  "to_color_stream entry origin =
    (let color = level_color (le_severity entry)
     in [P_text ''['', P_time (le_when entry), P_text ''] ['', P_text origin, P_text ''] ''] @
        (case color of None \<Rightarrow> [] | Some c \<Rightarrow> [P_text c]) @
        [P_text ''['', P_text (log_level_label (le_severity entry)), P_text ''] ''] @
        le_message entry @ error_suffix (le_error entry) @
        (case color of None \<Rightarrow> [] | Some c \<Rightarrow> [P_text (CHR 0x1B # ''[0m'')]))"

text \<open>The overloads of \<open>toString\<close>, \<open>toStream\<close> and \<open>toColorStream\<close> without an origin\<close>

definition default_origin :: string where
  "default_origin = ''cppwamp''"

definition entry_to_string :: "log_entry \<Rightarrow> log_text" where
  "entry_to_string entry = to_stream entry default_origin"

subsection \<open>Logging to the console (\<open>consolelogger.hpp\<close>, \<open>internal/consolelogger.ipp\<close>)\<close>

text \<open>The two streams; \<open>endl\<close> flushes the second.\<close>

datatype console_effect = To_clog log_text | To_cerr_flushed log_text

definition console_logger :: "string option \<Rightarrow> string" where
  "console_logger label = (case label of None \<Rightarrow> default_origin | Some l \<Rightarrow> l)"

definition console_log :: "string \<Rightarrow> log_entry \<Rightarrow> console_effect" where
  "console_log origin entry =
    (if le_severity entry < Log_warning then To_clog (to_stream entry origin @ [P_text [CHR 0x0A]])
     else To_cerr_flushed (to_stream entry origin @ [P_text [CHR 0x0A]]))"

definition color_console_log :: "string \<Rightarrow> log_entry \<Rightarrow> console_effect" where
  "color_console_log origin entry =
    (if le_severity entry < Log_warning then To_clog (to_color_stream entry origin @ [P_text [CHR 0x0A]])
     else To_cerr_flushed (to_color_stream entry origin @ [P_text [CHR 0x0A]]))"

lemma log_level_label_inj: "log_level_label a = log_level_label b \<Longrightarrow> a = b"
  by (cases a; cases b) (simp_all add: log_level_label_def log_level_labels_def)

end
