(* ===== verification/Peer.thy ===== *)
theory Peer
  imports Ordered_Map Logging Wamp_Message
begin

section \<open>The session logic common to clients and routers (\<open>internal/peer.hpp\<close>)\<close>

text \<open>
  The state is the members of \<open>Peer\<close>; an operation gives the next state and what it does to
  the outside, in the order of the code.  A handler is an opaque value of type \<open>'h\<close>.  Handlers
  run by the peer itself (\<open>Call_handler\<close>, \<open>Call_kept\<close>, \<open>Inbound_message\<close>) are always the last
  thing the code does in an operation, so what they do to the peer is a later operation.  A
  handler that is posted runs later as well.  \<open>Call_kept\<close> calls a multi-shot handler that
  remains in its table; \<open>Destroyed\<close> is a handler dropped without being called.  With \<open>NDEBUG\<close>
  a failed assertion has no effect: \<open>Assertion_failed\<close> marks the place and the code goes on.
  The codec is a pair of functions of the state, since it wraps third-party serializers; the
  transport is the two properties of it that the peer reads.
\<close>

record codec =
  encode :: "varray \<Rightarrow> bytes"
  decode :: "bytes \<Rightarrow> error_code \<times> variant"

record peer_transport =
  tr_started :: bool
  tr_max_tx :: nat

text \<open>A one-shot handler is a caller's, or the wrapper that \<open>adjourn\<close> makes of one.\<close>

datatype 'h pending = Plain 'h | Requested 'h

primrec pending_handler :: "'h pending \<Rightarrow> 'h" where
  "pending_handler (Plain h) = h"
| "pending_handler (Requested h) = h"

datatype call_cancel_mode = Kill | Kill_no_wait | Skip

record 'h peer =
  p_codec :: codec
  p_transport :: "peer_transport option"
  p_has_log :: bool
  p_has_warning :: bool
  p_has_trace :: bool
  p_has_state_change :: bool
  p_one_shot :: "(request_key, 'h pending) omap"
  p_multi_shot :: "(request_key, 'h) omap"
  p_state :: session_state
  p_log_level :: log_level
  p_terminating :: bool
  p_next_id :: request_id
  p_max_tx :: nat
  p_is_router :: bool

datatype 'h peer_effect =
    Post_error 'h error_code
  | Call_handler 'h wamp_message
  | Call_kept 'h wamp_message
  | Destroyed 'h
  | Inbound_message wamp_message
  | State_changed session_state
  | Transport_start
  | Transport_send bytes
  | Transport_close
  | Log_message log_level log_text error_code
  | Warning_text log_text
  | Trace_text log_text
  | Assertion_failed
  | Null_transport
  | Threw_conversion
  | Threw_failure error_code

type_synonym 'h peer_result = "'h peer \<times> 'h peer_effect list"

text \<open>One step after another\<close>

definition and_then :: "'s \<times> 'o list \<Rightarrow> ('s \<Rightarrow> 's \<times> 'o list) \<Rightarrow> 's \<times> 'o list" where
  "and_then r f = (let (s, xs) = r; (s', ys) = f s in (s', xs @ ys))"

definition emit :: "'o list \<Rightarrow> 's \<Rightarrow> 's \<times> 'o list" where
  "emit xs s = (s, xs)"

definition check_that :: "bool \<Rightarrow> 'h peer_effect list" where
  "check_that b = (if b then [] else [Assertion_failed])"

definition max_request_id :: request_id where
  "max_request_id = 9007199254740992"

definition init_peer :: "bool \<Rightarrow> codec \<Rightarrow> 'h peer" where
  "init_peer is_router c =
    \<lparr>p_codec = c, p_transport = None, p_has_log = False, p_has_warning = False,
     p_has_trace = False, p_has_state_change = False, p_one_shot = [], p_multi_shot = [],
     p_state = Disconnected, p_log_level = Log_warning, p_terminating = False, p_next_id = 0,
     p_max_tx = 0, p_is_router = is_router\<rparr>"

subsection \<open>Logging and the state\<close>

definition current_log_level :: "'h peer \<Rightarrow> log_level" where
  "current_log_level p =
    (if p_has_log p then p_log_level p
     else if p_has_warning p then Log_warning
     else if p_has_trace p then Log_trace
     else Log_off)"

definition log_effects :: "'h peer \<Rightarrow> log_level \<Rightarrow> log_text \<Rightarrow> error_code \<Rightarrow> 'h peer_effect list" where
  "log_effects p severity message ec =
    (if p_has_log p \<and> p_log_level p \<le> severity then
       (if p_terminating p then [] else [Log_message severity message ec])
     else []) @
    (if p_has_warning p \<and> Log_warning \<le> severity then
       (if p_terminating p then [] else [Warning_text (message @ error_suffix ec)])
     else [])"

fun trace_fields :: "varray \<Rightarrow> log_text" where
  "trace_fields [] = []"
| "trace_fields (f # fs) = P_text '','' # P_variant f # trace_fields fs"

definition trace_text :: "wamp_msg_type \<Rightarrow> varray \<Rightarrow> string \<Rightarrow> log_text" where
  "trace_text t vs label =
    [P_text label, P_text ''[''] @
    (case vs of
       [] \<Rightarrow> []
     | f # fs \<Rightarrow>
         [P_text [CHR 0x7B, CHR 0x22], P_text (name_or (lookup_traits t) ''INVALID''),
          P_text [CHR 0x22, CHR 0x3A], P_variant f, P_text [CHR 0x7D]] @ trace_fields fs) @
    [P_text '']'']"

definition trace_effects :: "'h peer \<Rightarrow> wamp_msg_type \<Rightarrow> varray \<Rightarrow> string \<Rightarrow> 'h peer_effect list" where
  "trace_effects p t vs label =
    (if p_terminating p \<or> Log_trace < current_log_level p then []
     else
       (if p_has_log p then [Log_message Log_trace (trace_text t vs label) no_error] else []) @
       (if p_has_trace p then [Trace_text (trace_text t vs label)] else []))"

definition trace_rx :: "varray \<Rightarrow> 'h peer \<Rightarrow> 'h peer_effect list" where
  "trace_rx vs p = trace_effects p (parse_msg_type vs) vs ''Rx message: ''"

definition trace_tx :: "wamp_message \<Rightarrow> 'h peer \<Rightarrow> 'h peer_effect list" where
  "trace_tx msg p = trace_effects p (msg_type msg) (msg_fields msg) ''Tx message: ''"

definition set_state :: "session_state \<Rightarrow> 'h peer \<Rightarrow> 'h peer_result" where
  "set_state s p =
    (p\<lparr>p_state := s\<rparr>,
     if p_state p \<noteq> s \<and> p_has_state_change p \<and> \<not> p_terminating p then [State_changed s] else [])"

definition set_terminating :: "bool \<Rightarrow> 'h peer \<Rightarrow> 'h peer" where
  "set_terminating b p = p\<lparr>p_terminating := b\<rparr>"

definition set_log_level :: "log_level \<Rightarrow> 'h peer \<Rightarrow> 'h peer" where
  "set_log_level l p = p\<lparr>p_log_level := l\<rparr>"

definition set_log_handler :: "bool \<Rightarrow> 'h peer \<Rightarrow> 'h peer" where
  "set_log_handler present p = p\<lparr>p_has_log := present\<rparr>"

definition set_warning_handler :: "bool \<Rightarrow> 'h peer \<Rightarrow> 'h peer" where
  "set_warning_handler present p = p\<lparr>p_has_warning := present\<rparr>"

definition set_trace_handler :: "bool \<Rightarrow> 'h peer \<Rightarrow> 'h peer" where
  "set_trace_handler present p = p\<lparr>p_has_trace := present\<rparr>"

definition set_state_change_handler :: "bool \<Rightarrow> 'h peer \<Rightarrow> 'h peer" where
  "set_state_change_handler present p = p\<lparr>p_has_state_change := present\<rparr>"

subsection \<open>Failing and closing\<close>

definition pending_handlers :: "'h peer \<Rightarrow> 'h list" where
  "pending_handlers p =
    map (\<lambda>kv. pending_handler (snd kv)) (p_one_shot p) @ map snd (p_multi_shot p)"

definition abort_pending :: "error_code \<Rightarrow> 'h peer \<Rightarrow> 'h peer_result" where
  "abort_pending ec p =
    (p\<lparr>p_one_shot := [], p_multi_shot := []\<rparr>,
     if \<not> p_terminating p then map (\<lambda>h. Post_error h ec) (pending_handlers p)
     else map Destroyed (pending_handlers p))"

definition drop_transport :: "'h peer \<Rightarrow> 'h peer_result" where
  "drop_transport p =
    (case p_transport p of
       None \<Rightarrow> (p, [])
     | Some _ \<Rightarrow> (p\<lparr>p_transport := None\<rparr>, [Transport_close]))"

definition fail :: "error_code \<Rightarrow> log_text \<Rightarrow> 'h peer \<Rightarrow> 'h peer_result" where
  "fail ec info p =
    and_then (set_state Failed p)
      (if p_state p \<noteq> Failed then
         (\<lambda>q. and_then (and_then (abort_pending ec q) drop_transport)
            (\<lambda>r. (r, if info \<noteq> [] then log_effects r Log_error info ec else [])))
       else emit [])"

definition close :: "'h peer \<Rightarrow> 'h peer_result" where
  "close p =
    and_then (and_then (set_state Disconnected p) (abort_pending (session_ec SE_sessionEnded)))
      drop_transport"

definition destroy_peer :: "'h peer \<Rightarrow> 'h peer_result" where
  "destroy_peer p =
    and_then (drop_transport p)
      (\<lambda>q. (q\<lparr>p_one_shot := [], p_multi_shot := []\<rparr>, map Destroyed (pending_handlers q)))"

subsection \<open>Opening and starting\<close>

definition open_peer :: "peer_transport \<Rightarrow> codec \<Rightarrow> 'h peer \<Rightarrow> 'h peer_result" where
  "open_peer t c p =
    and_then (p, check_that (p_state p = Connecting))
      (\<lambda>q. and_then (set_state Closed (q\<lparr>p_transport := Some t, p_codec := c\<rparr>))
         (\<lambda>r. (r\<lparr>p_max_tx := tr_max_tx t\<rparr>, [])))"

definition start :: "'h peer \<Rightarrow> 'h peer_result" where
  "start p =
    and_then (p, check_that (p_state p \<in> {Closed, Disconnected}) @ check_that (p_transport p \<noteq> None))
      (\<lambda>q. and_then (set_state Establishing q)
         (\<lambda>r. case p_transport r of
            None \<Rightarrow> (r, [Null_transport])
          | Some t \<Rightarrow>
              if \<not> tr_started t then
                (r\<lparr>p_transport := Some (t\<lparr>tr_started := True\<rparr>)\<rparr>, [Transport_start])
              else (r, [])))"

subsection \<open>Sending\<close>

definition next_request_id :: "'h peer \<Rightarrow> request_id \<times> 'h peer" where
  "next_request_id p =
    (let n = (if max_request_id \<le> p_next_id p then 0 else p_next_id p)
     in (n + 1, p\<lparr>p_next_id := n + 1\<rparr>))"

definition set_message_request_id :: "wamp_message \<Rightarrow> 'h peer \<Rightarrow> request_id \<times> wamp_message \<times> 'h peer" where
  "set_message_request_id msg p =
    (if has_request_id msg then
       (let (i, q) = next_request_id p in (i, set_request_id i msg, q))
     else (0, msg, p))"

definition hand_to_transport :: "bytes \<Rightarrow> 'h peer \<Rightarrow> 'h peer_effect list" where
  "hand_to_transport b p =
    check_that (p_transport p \<noteq> None) @
    (if p_transport p \<noteq> None then [Transport_send b] else [Null_transport])"

definition send_message :: "wamp_message \<Rightarrow> 'h peer \<Rightarrow> (error_code + request_id) \<times> 'h peer_result" where
  "send_message msg p =
    (let checks = check_that (msg_type msg \<noteq> W_none);
         (i, msg1, q) = set_message_request_id msg p;
         buffer = encode (p_codec q) (msg_fields msg1)
     in if p_max_tx q < length buffer then
          (Inl (session_ec SE_payloadSizeExceeded), q, checks)
        else (Inr i, q, checks @ trace_tx msg1 q @ hand_to_transport buffer q))"

definition send :: "wamp_message \<Rightarrow> 'h peer \<Rightarrow> (error_code + bool) \<times> 'h peer_result" where
  "send msg p =
    (let (r, q) = send_message msg p in (case r of Inl ec \<Rightarrow> Inl ec | Inr _ \<Rightarrow> Inr True, q))"

text \<open>The arguments of an ERROR are its field 5 (\<open>payload.hpp\<close>, \<open>MessageWithPayload\<close>).\<close>

definition set_arg_list :: "nat \<Rightarrow> varray \<Rightarrow> wamp_message \<Rightarrow> wamp_message" where
  "set_arg_list j vs m =
    (let m1 = with_args j m in m1\<lparr>msg_fields := (msg_fields m1)[j := V_array vs]\<rparr>)"

definition set_kwargs :: "nat \<Rightarrow> vobject \<Rightarrow> wamp_message \<Rightarrow> wamp_message" where
  "set_kwargs j ob m =
    (let m1 = with_kwargs j m in m1\<lparr>msg_fields := (msg_fields m1)[j + 1 := V_object ob]\<rparr>)"

definition stripped_details :: string where
  "stripped_details = ''(Details removed due to transport limits)''"

definition send_error ::
    "wamp_msg_type \<Rightarrow> request_id \<Rightarrow> wamp_message \<Rightarrow> 'h peer \<Rightarrow> (error_code + bool) \<times> 'h peer_result" where
  "send_error req_type i err p =
    (let msg = set_request_info req_type i err;
         (done1, q, xs) = send msg p
     in if done1 = Inl (session_ec SE_payloadSizeExceeded) then
          (let msg1 = set_request_info req_type i
                 (set_kwargs 5 [] (set_arg_list 5 [V_string stripped_details] msg));
               (_, q1, ys) = send msg1 q;
               text = [P_text ''Stripped args of outbound ERROR message due to transport payload limits, with error URI '',
                       P_text (string_field msg1 4), P_text '' and request ID '', P_number i]
           in (done1, q1, xs @ ys @
                 (if current_log_level q1 \<le> Log_warning then log_effects q1 Log_warning text no_error else [])))
        else (done1, q, xs))"

text \<open>
  \<open>sendRequest\<close> is a template over the request map: \<open>get\<close> and \<open>upd\<close> read and change the map,
  \<open>handler_of\<close> gives the handler of an entry.
\<close>

definition send_request ::
    "('h peer \<Rightarrow> (request_key, 'v) omap) \<Rightarrow>
     (((request_key, 'v) omap \<Rightarrow> (request_key, 'v) omap) \<Rightarrow> 'h peer \<Rightarrow> 'h peer) \<Rightarrow> ('v \<Rightarrow> 'h) \<Rightarrow>
     wamp_message \<Rightarrow> 'v \<Rightarrow> 'h peer \<Rightarrow> request_id \<times> 'h peer_result" where
  "send_request get upd handler_of msg handler p =
    (let checks = check_that (msg_type msg \<noteq> W_none);
         (i, msg1, q) = set_message_request_id msg p;
         buffer = encode (p_codec q) (msg_fields msg1)
     in if p_max_tx q < length buffer then
          (i, q, checks @ [Post_error (handler_of handler) (session_ec SE_payloadSizeExceeded)])
        else
          (let key = request_key msg1;
               (q1, xs) = (case omap_find (get q) key of
                  None \<Rightarrow> (q, [])
                | Some old \<Rightarrow>
                    (upd (omap_erase key) q, [Post_error (handler_of old) (session_ec SE_cancelled)]));
               q2 = upd (omap_emplace key handler) q1
           in (i, q2, checks @ xs @ trace_tx msg1 q2 @ hand_to_transport buffer q2)))"

definition request_pending :: "wamp_message \<Rightarrow> 'h pending \<Rightarrow> 'h peer \<Rightarrow> request_id \<times> 'h peer_result" where
  "request_pending msg handler p = send_request p_one_shot p_one_shot_update pending_handler msg handler p"

definition request :: "wamp_message \<Rightarrow> 'h \<Rightarrow> 'h peer \<Rightarrow> request_id \<times> 'h peer_result" where
  "request msg handler p = request_pending msg (Plain handler) p"

definition ongoing_request :: "wamp_message \<Rightarrow> 'h \<Rightarrow> 'h peer \<Rightarrow> request_id \<times> 'h peer_result" where
  "ongoing_request msg handler p = send_request p_multi_shot p_multi_shot_update id msg handler p"

definition adjourn :: "wamp_message \<Rightarrow> 'h \<Rightarrow> 'h peer \<Rightarrow> 'h peer_result" where
  "adjourn reason handler p =
    and_then (p, check_that (p_state p = Established))
      (\<lambda>q. and_then (set_state Shutting_down q)
         (\<lambda>r. snd (request_pending reason (Requested handler) r)))"

text \<open>\<open>CallCancellation\<close> (\<open>internal/peerdata.ipp\<close>) and \<open>cancelCall\<close>\<close>

record call_cancellation =
  cc_message :: wamp_message
  cc_request_id :: request_id
  cc_mode :: call_cancel_mode

definition make_call_cancellation :: "request_id \<Rightarrow> call_cancel_mode \<Rightarrow> call_cancellation" where
  "make_call_cancellation i mode =
    \<lparr>cc_message = cancel_message i (omap_emplace ''mode''
       (V_string (case mode of Kill \<Rightarrow> ''kill'' | Kill_no_wait \<Rightarrow> ''killnowait'' | Skip \<Rightarrow> ''skip'')) []),
     cc_request_id = i, cc_mode = mode\<rparr>"

definition cancel_call :: "call_cancellation \<Rightarrow> 'h peer \<Rightarrow> (error_code + bool) \<times> 'h peer_result" where
  "cancel_call c p =
    (let key = (W_call, cc_request_id c); unex = session_ec SE_cancelled;
         (found, q, xs) =
           (case omap_find (p_one_shot p) key of
              Some handler \<Rightarrow>
                (True,
                 if cc_mode c \<noteq> Kill then
                   (p\<lparr>p_one_shot := omap_erase key (p_one_shot p)\<rparr>,
                    [Post_error (pending_handler handler) unex])
                 else (p, []))
            | None \<Rightarrow>
                (case omap_find (p_multi_shot p) key of
                   Some handler \<Rightarrow>
                     (True,
                      if cc_mode c \<noteq> Kill then
                        (p\<lparr>p_multi_shot := omap_erase key (p_multi_shot p)\<rparr>,
                         [Post_error handler unex])
                      else (p, []))
                 | None \<Rightarrow> (False, p, [])))
     in if found then
          (let (r, q1, ys) = send_message (cc_message c) q
           in (case r of Inl ec \<Rightarrow> Inl ec | Inr _ \<Rightarrow> Inr found, q1, xs @ ys))
        else (Inr found, q, xs))"

subsection \<open>Receiving\<close>

definition call_pending :: "'h pending \<Rightarrow> wamp_message \<Rightarrow> 'h peer \<Rightarrow> 'h peer_result" where
  "call_pending handler msg p =
    (case handler of
       Plain h \<Rightarrow> (p, [Call_handler h msg])
     | Requested h \<Rightarrow>
         and_then (and_then (set_state Closed p) (abort_pending (session_ec SE_sessionEnded)))
           (emit [Call_handler h msg]))"

definition process_wamp_reply :: "request_key \<Rightarrow> wamp_message \<Rightarrow> 'h peer \<Rightarrow> 'h peer_result" where
  "process_wamp_reply key msg p =
    (case omap_find (p_one_shot p) key of
       Some handler \<Rightarrow> call_pending handler msg (p\<lparr>p_one_shot := omap_erase key (p_one_shot p)\<rparr>)
     | None \<Rightarrow>
         (case omap_find (p_multi_shot p) key of
            None \<Rightarrow> (p, [])
          | Some h \<Rightarrow>
              (case is_progressive_response msg of
                 Inl Conversion_error \<Rightarrow> (p, [Threw_conversion])
               | Inr True \<Rightarrow> (p, [Call_kept h msg])
               | Inr False \<Rightarrow>
                   (p\<lparr>p_multi_shot := omap_erase key (p_multi_shot p)\<rparr>, [Call_handler h msg]))))"

definition process_hello :: "wamp_message \<Rightarrow> 'h peer \<Rightarrow> 'h peer_result" where
  "process_hello msg p =
    and_then (p, check_that (p_state p = Establishing))
      (\<lambda>q. and_then (set_state Established q) (emit [Inbound_message msg]))"

definition process_challenge :: "wamp_message \<Rightarrow> 'h peer \<Rightarrow> 'h peer_result" where
  "process_challenge msg p =
    and_then (p, check_that (p_state p = Establishing))
      (\<lambda>q. and_then (set_state Authenticating q) (emit [Inbound_message msg]))"

definition process_welcome :: "wamp_message \<Rightarrow> 'h peer \<Rightarrow> 'h peer_result" where
  "process_welcome msg p =
    and_then (p, check_that (p_state p \<in> {Establishing, Authenticating}))
      (\<lambda>q. and_then (set_state Established q) (process_wamp_reply (W_hello, 0) msg))"

text \<open>The text of an inbound reason: its URI and, when there are any, the options.\<close>

definition reason_text :: "string \<Rightarrow> wamp_message \<Rightarrow> log_text" where
  "reason_text prefix msg =
    [P_text prefix, P_text (string_field msg 2)] @
    (if object_field msg 1 \<noteq> [] then [P_text '' and details '', P_variant (V_object (object_field msg 1))]
     else [])"

definition process_abort :: "wamp_message \<Rightarrow> 'h peer \<Rightarrow> 'h peer_result" where
  "process_abort msg p =
    (if p_state p \<in> {Establishing, Authenticating} then
       and_then (set_state Closed p) (process_wamp_reply (W_hello, 0) msg)
     else if p_state p = Shutting_down then
       (p, log_effects p Log_warning
             [P_text ''Discarding received ABORT message while session is shutting down''] no_error)
     else
       (let errc = session_ec (snd (lookup_wamp_error_uri (string_field msg 2) SE_sessionAbortedByPeer))
        in if current_log_level p \<le> Log_error then
             fail errc (reason_text ''Session aborted by peer with reason URI '' msg) p
           else fail errc [] p))"

definition process_goodbye :: "wamp_message \<Rightarrow> 'h peer \<Rightarrow> 'h peer_result" where
  "process_goodbye msg p =
    (if p_state p = Shutting_down then
       and_then (set_state Closed p) (process_wamp_reply (request_key msg) msg)
     else
       (let errc = session_ec (snd (lookup_wamp_error_uri (string_field msg 2) SE_closeRealm));
            (q, xs) = abort_pending errc p;
            (r, q1, ys) = send (goodbye_message ''wamp.error.goodbye_and_out'' []) q
        in (case r of
              Inl ec \<Rightarrow> (q1, xs @ ys @ [Threw_failure ec])
            | Inr _ \<Rightarrow>
                and_then (and_then (q1, xs @ ys) (set_state Closed))
                  (\<lambda>s. (s, if current_log_level s \<le> Log_warning then
                             log_effects s Log_warning
                               (reason_text ''Session ended by peer with reason URI '' msg) no_error
                           else [])))))"

text \<open>\<open>WampMessage::name\<close> reads the type from the fields; \<open>None\<close> is the null pointer.\<close>

definition message_name :: "wamp_message \<Rightarrow> string option" where
  "message_name msg = tr_name (lookup_traits (parse_msg_type (msg_fields msg)))"

definition process_message :: "wamp_message \<Rightarrow> 'h peer \<Rightarrow> 'h peer_result" where
  "process_message msg p =
    (if message_replies_to msg \<noteq> W_none then
       process_wamp_reply (message_replies_to msg, request_id_of msg) msg p
     else
       (case msg_type msg of
          W_hello \<Rightarrow> process_hello msg p
        | W_challenge \<Rightarrow> process_challenge msg p
        | W_welcome \<Rightarrow> process_welcome msg p
        | W_abort \<Rightarrow> process_abort msg p
        | W_goodbye \<Rightarrow> process_goodbye msg p
        | W_error \<Rightarrow> process_wamp_reply (request_key msg) msg p
        | _ \<Rightarrow>
            if p_state p = Shutting_down then
              (p, log_effects p Log_warning
                    [P_text (''Discarding received '' @ (case message_name msg of None \<Rightarrow> '''' | Some n \<Rightarrow> n) @
                             '' message while session is shutting down'')] no_error)
            else (p, [Inbound_message msg])))"

definition ready_to_receive :: "session_state \<Rightarrow> bool" where
  "ready_to_receive s \<longleftrightarrow> s = Establishing \<or> s = Authenticating \<or> s = Established \<or> s = Shutting_down"

definition protocol_violation :: "string \<Rightarrow> 'h peer \<Rightarrow> 'h peer_result" where
  "protocol_violation info p = fail (session_ec SE_protocolViolation) [P_text info] p"

definition on_transport_rx :: "bytes \<Rightarrow> 'h peer \<Rightarrow> 'h peer_result" where
  "on_transport_rx buffer p =
    (if \<not> ready_to_receive (p_state p) then
       protocol_violation ''Received WAMP message while session unready to receive'' p
     else
       (let (ec, v) = decode (p_codec p) buffer
        in if ec_bool ec then fail ec [P_text ''Error deserializing received WAMP message''] p
           else
             (case v of
                V_array vs \<Rightarrow>
                  and_then (p, trace_rx vs p)
                    (case parse_message vs of
                       Inl _ \<Rightarrow>
                         protocol_violation
                           ''Received WAMP message has invalid type number or field schema''
                     | Inr msg \<Rightarrow>
                         if \<not> is_valid_rx (lookup_traits (msg_type msg)) (p_state p) (p_is_router p) then
                           protocol_violation ''Received invalid WAMP message for peer role''
                         else process_message msg)
              | _ \<Rightarrow> protocol_violation ''Received WAMP message is not an array'' p)))"

definition on_transport_failure :: "error_code \<Rightarrow> string \<Rightarrow> 'h peer \<Rightarrow> 'h peer_result" where
  "on_transport_failure ec info p =
    (if p_state p \<noteq> Disconnected then fail ec [P_text info] p else (p, []))"

subsection \<open>Everything that can happen to a peer\<close>

datatype 'h peer_event =
    Do_open peer_transport codec
  | Do_start
  | Do_adjourn wamp_message 'h
  | Do_close
  | Do_send wamp_message
  | Do_send_error wamp_msg_type request_id wamp_message
  | Do_request wamp_message 'h
  | Do_ongoing_request wamp_message 'h
  | Do_cancel_call call_cancellation
  | Do_set_state session_state
  | Do_set_terminating bool
  | Do_set_log_level log_level
  | Do_set_handlers bool bool bool bool
  | Rx bytes
  | Rx_failed error_code
  | Tx_failed error_code

primrec peer_step :: "'h peer \<Rightarrow> 'h peer_event \<Rightarrow> 'h peer_result" where
  "peer_step p (Do_open t c) = open_peer t c p"
| "peer_step p Do_start = start p"
| "peer_step p (Do_adjourn msg h) = adjourn msg h p"
| "peer_step p Do_close = close p"
| "peer_step p (Do_send msg) = snd (send msg p)"
| "peer_step p (Do_send_error t i err) = snd (send_error t i err p)"
| "peer_step p (Do_request msg h) = snd (request msg h p)"
| "peer_step p (Do_ongoing_request msg h) = snd (ongoing_request msg h p)"
| "peer_step p (Do_cancel_call c) = snd (cancel_call c p)"
| "peer_step p (Do_set_state s) = set_state s p"
| "peer_step p (Do_set_terminating b) = (set_terminating b p, [])"
| "peer_step p (Do_set_log_level l) = (set_log_level l p, [])"
| "peer_step p (Do_set_handlers a b c d) =
     (set_log_handler a (set_warning_handler b (set_trace_handler c (set_state_change_handler d p))), [])"
| "peer_step p (Rx buffer) = on_transport_rx buffer p"
| "peer_step p (Rx_failed ec) = on_transport_failure ec ''Transport receive failure'' p"
| "peer_step p (Tx_failed ec) = on_transport_failure ec ''Transport send failure'' p"

end
