(* ===== verification/Peer_Handlers.thy ===== *)
theory Peer_Handlers
  imports Peer
begin

section \<open>Every handler is accounted for\<close>

text \<open>
  The handlers that the tables hold, those that an effect hands over for good, and those that
  an operation receives.
\<close>

definition held :: "'h peer \<Rightarrow> 'h multiset" where
  "held p = mset (pending_handlers p)"

primrec released_by :: "'h peer_effect \<Rightarrow> 'h multiset" where
  "released_by (Post_error h ec) = {#h#}"
| "released_by (Call_handler h m) = {#h#}"
| "released_by (Call_kept h m) = {#}"
| "released_by (Destroyed h) = {#h#}"
| "released_by (Inbound_message m) = {#}"
| "released_by (State_changed s) = {#}"
| "released_by Transport_start = {#}"
| "released_by (Transport_send b) = {#}"
| "released_by Transport_close = {#}"
| "released_by (Log_message l t ec) = {#}"
| "released_by (Warning_text t) = {#}"
| "released_by (Trace_text t) = {#}"
| "released_by Assertion_failed = {#}"
| "released_by Null_transport = {#}"
| "released_by Threw_conversion = {#}"
| "released_by (Threw_failure ec) = {#}"

definition released :: "'h peer_effect list \<Rightarrow> 'h multiset" where
  "released xs = (\<Sum>x \<leftarrow> xs. released_by x)"

primrec brought_by :: "'h peer_event \<Rightarrow> 'h multiset" where
  "brought_by (Do_open t c) = {#}"
| "brought_by Do_start = {#}"
| "brought_by (Do_adjourn m h) = {#h#}"
| "brought_by Do_close = {#}"
| "brought_by (Do_send m) = {#}"
| "brought_by (Do_send_error t i m) = {#}"
| "brought_by (Do_request m h) = {#h#}"
| "brought_by (Do_ongoing_request m h) = {#h#}"
| "brought_by (Do_cancel_call c) = {#}"
| "brought_by (Do_set_state s) = {#}"
| "brought_by (Do_set_terminating b) = {#}"
| "brought_by (Do_set_log_level l) = {#}"
| "brought_by (Do_set_handlers a b c d) = {#}"
| "brought_by (Rx b) = {#}"
| "brought_by (Rx_failed ec) = {#}"
| "brought_by (Tx_failed ec) = {#}"

definition peer_ok :: "'h peer \<Rightarrow> bool" where
  "peer_ok p \<longleftrightarrow> omap_ok (p_one_shot p) \<and> omap_ok (p_multi_shot p)"

text \<open>A result that keeps the tables in order and accounts_for for the handlers \<open>hs\<close>\<close>

definition accounts_for :: "'h multiset \<Rightarrow> 'h peer_result \<Rightarrow> bool" where
  "accounts_for hs r \<longleftrightarrow> peer_ok (fst r) \<and> held (fst r) + released (snd r) = hs"

lemma released_simps [simp]:
  "released [] = {#}" "released (x # xs) = released_by x + released xs"
  "released (xs @ ys) = released xs + released ys"
  by (simp_all add: released_def)

lemma released_none: "\<forall>x \<in> set xs. released_by x = {#} \<Longrightarrow> released xs = {#}"
  by (induction xs) simp_all

lemma released_map_handlers [simp]:
  "released (map (\<lambda>h. Post_error h ec) hs) = mset hs" "released (map Destroyed hs) = mset hs"
  by (induction hs) simp_all

lemma released_assert [simp]: "released (check_that b) = {#}"
  by (simp add: check_that_def)

lemma released_log [simp]: "released (log_effects p l t ec) = {#}"
  by (simp add: log_effects_def)

lemma released_trace [simp]: "released (trace_rx vs p) = {#}" "released (trace_tx m p) = {#}"
  by (simp_all add: trace_rx_def trace_tx_def trace_effects_def)

lemma released_hand_to_transport [simp]: "released (hand_to_transport b p) = {#}"
  by (simp add: hand_to_transport_def)

lemma held_mset:
  "held p = image_mset pending_handler (omap_values (p_one_shot p)) + omap_values (p_multi_shot p)"
  by (simp add: held_def pending_handlers_def multiset.map_comp comp_def)

lemma accounts_self: "peer_ok p \<Longrightarrow> released xs = {#} \<Longrightarrow> accounts_for (held p) (p, xs)"
  by (simp add: accounts_for_def)

lemma accounts_and_then:
  assumes "accounts_for hs r" and "\<And>q. peer_ok q \<Longrightarrow> accounts_for (held q) (f q)"
  shows "accounts_for hs (and_then r f)"
proof -
  obtain q xs where r: "r = (q, xs)" by force
  with assms(1) have "accounts_for (held q) (f q)" and "held q + released xs = hs"
    using assms(2) by (auto simp: accounts_for_def)
  then show ?thesis
    by (auto simp: and_then_def r accounts_for_def Let_def case_prod_beta union_assoc [symmetric])
qed

lemma accounts_emit: "peer_ok p \<Longrightarrow> released xs = {#} \<Longrightarrow> accounts_for (held p) (emit xs p)"
  by (simp add: emit_def accounts_self)

lemma accounts_set_state: "peer_ok p \<Longrightarrow> accounts_for (held p) (set_state s p)"
  by (simp add: set_state_def accounts_for_def held_mset peer_ok_def)

lemma accounts_abort_pending: "accounts_for (held p) (abort_pending ec p)"
proof -
  have "pending_handlers (p\<lparr>p_one_shot := [], p_multi_shot := []\<rparr>) = []"
    by (simp add: pending_handlers_def)
  then show ?thesis by (simp add: abort_pending_def accounts_for_def peer_ok_def omap_ok_def held_def)
qed

lemma accounts_drop_transport: "peer_ok p \<Longrightarrow> accounts_for (held p) (drop_transport p)"
  by (simp add: drop_transport_def accounts_for_def held_mset peer_ok_def split: option.split)

lemmas accounts_steps = accounts_and_then accounts_set_state accounts_abort_pending
  accounts_drop_transport accounts_emit accounts_self

lemma accounts_fail: "peer_ok p \<Longrightarrow> accounts_for (held p) (fail ec info p)"
  by (auto simp: fail_def intro!: accounts_steps)

lemma accounts_close: "peer_ok p \<Longrightarrow> accounts_for (held p) (close p)"
  by (auto simp: close_def intro!: accounts_steps)

lemma accounts_upd:
  "peer_ok p \<Longrightarrow> held q = held p \<Longrightarrow> peer_ok q \<Longrightarrow> released xs = {#} \<Longrightarrow> accounts_for (held p) (q, xs)"
  by (simp add: accounts_for_def)

lemma accounts_cong: "accounts_for hs r \<Longrightarrow> hs = hs' \<Longrightarrow> accounts_for hs' r" by simp

lemma held_upd [simp]:
  "held (p\<lparr>p_transport := t\<rparr>) = held p" "held (p\<lparr>p_codec := c\<rparr>) = held p"
  "held (p\<lparr>p_max_tx := n\<rparr>) = held p" "held (p\<lparr>p_next_id := i\<rparr>) = held p"
  "peer_ok (p\<lparr>p_transport := t\<rparr>) = peer_ok p" "peer_ok (p\<lparr>p_codec := c\<rparr>) = peer_ok p"
  "peer_ok (p\<lparr>p_max_tx := n\<rparr>) = peer_ok p" "peer_ok (p\<lparr>p_next_id := i\<rparr>) = peer_ok p"
  by (simp_all add: held_mset peer_ok_def)

lemma accounts_open: "peer_ok p \<Longrightarrow> accounts_for (held p) (open_peer t c p)"
  unfolding open_peer_def
  apply (intro accounts_and_then accounts_self) apply simp_all
  apply (rule accounts_cong [OF accounts_set_state]) apply simp_all
  by (simp add: accounts_for_def)

lemma accounts_start: "peer_ok p \<Longrightarrow> accounts_for (held p) (start p)"
  unfolding start_def
  by (intro accounts_and_then accounts_self accounts_set_state)
    (auto intro: accounts_upd accounts_self split: option.splits)

subsubsection \<open>Sending\<close>

lemma next_request_id_snd: "snd (next_request_id p) = p\<lparr>p_next_id := fst (next_request_id p)\<rparr>"
  by (simp add: next_request_id_def Let_def)

lemma set_message_request_id_peer:
  "snd (snd (set_message_request_id m p)) =
     (if has_request_id m then p\<lparr>p_next_id := fst (next_request_id p)\<rparr> else p)"
  by (simp add: set_message_request_id_def case_prod_beta next_request_id_snd)

lemma send_message_peer:
  "fst (snd (send_message m p)) = snd (snd (set_message_request_id m p))"
  by (simp add: send_message_def Let_def case_prod_beta)

lemma accounts_send_message: "peer_ok p \<Longrightarrow> accounts_for (held p) (snd (send_message m p))"
  by (simp add: send_message_def Let_def case_prod_beta set_message_request_id_peer accounts_for_def)

lemma accounts_send: "peer_ok p \<Longrightarrow> accounts_for (held p) (snd (send m p))"
  by (simp add: send_def case_prod_beta accounts_send_message)

lemma accounts_chain:
  assumes "accounts_for hs r" and "accounts_for (held (fst r)) r'" and "released zs = {#}"
  shows "accounts_for hs (fst r', snd r @ snd r' @ zs)"
  using assms by (auto simp: accounts_for_def ac_simps)

lemma accounts_ok: "accounts_for hs r \<Longrightarrow> peer_ok (fst r)"
  by (simp add: accounts_for_def)

lemma accounts_send_error: "peer_ok p \<Longrightarrow> accounts_for (held p) (snd (send_error t i err p))"
proof -
  assume p: "peer_ok p"
  let ?r = "snd (send (set_request_info t i err) p)"
  have 1: "accounts_for (held p) ?r" by (rule accounts_send [OF p])
  then have 2: "accounts_for (held (fst ?r)) (snd (send m (fst ?r)))" for m
    by (intro accounts_send accounts_ok)
  show ?thesis
    using accounts_chain [OF 1 2] 1
    by (auto simp: send_error_def Let_def case_prod_beta)
qed

lemma omap_values_emplace:
  "omap_find m k = None \<Longrightarrow> omap_values (omap_emplace k v m) = add_mset v (omap_values m)"
  by (simp add: omap_emplace_def omap_values_put del: mset_map)

text \<open>What \<open>sendRequest\<close> relies on of the map it is used with\<close>

locale request_map =
  fixes get :: "'h peer \<Rightarrow> (request_key, 'v) omap"
    and upd :: "((request_key, 'v) omap \<Rightarrow> (request_key, 'v) omap) \<Rightarrow> 'h peer \<Rightarrow> 'h peer"
    and handler_of :: "'v \<Rightarrow> 'h"
    and rest :: "'h peer \<Rightarrow> 'h multiset"
  assumes get_upd: "get (upd f p) = f (get p)"
    and held_split: "held p = image_mset handler_of (omap_values (get p)) + rest p"
    and rest_upd: "rest (upd f p) = rest p"
    and ok_get: "peer_ok p \<Longrightarrow> omap_ok (get p)"
    and ok_upd: "peer_ok p \<Longrightarrow> omap_ok (f (get p)) \<Longrightarrow> peer_ok (upd f p)"
begin

lemma erase_ok: "peer_ok p \<Longrightarrow> peer_ok (upd (omap_erase k) p)"
  by (simp add: ok_upd ok_get omap_ok_erase)

lemma erase_accounts:
  assumes "peer_ok p" and "omap_find (get p) k = Some v"
  shows "held p = add_mset (handler_of v) (held (upd (omap_erase k) p))"
  using omap_values_erase [OF ok_get [OF assms(1)] assms(2)]
  by (simp add: held_split get_upd rest_upd flip: omap_values_erase)
    (metis image_mset_add_mset add_mset_add_single union_mset_add_mset_left)

lemma emplace_accounts:
  assumes "peer_ok p" and "omap_find (get p) k = None"
  shows "accounts_for (add_mset (handler_of v) (held p)) (upd (omap_emplace k v) p, [])"
  using assms
  by (simp add: accounts_for_def held_split get_upd rest_upd omap_values_emplace ok_upd ok_get
      omap_emplace_ok del: mset_map)

lemma send_request_accounts:
  assumes p: "peer_ok p"
  shows "accounts_for (add_mset (handler_of v) (held p)) (snd (send_request get upd handler_of m v p))"
proof -
  define q where "q = snd (snd (set_message_request_id m p))"
  define k where "k = request_key (fst (snd (set_message_request_id m p)))"
  have q: "peer_ok q" "held q = held p"
    using p by (simp_all add: q_def set_message_request_id_peer)
  show ?thesis
  proof (cases "omap_find (get q) k")
    case None
    from emplace_accounts [OF q(1) None, of v] q p show ?thesis
      by (simp add: send_request_def Let_def case_prod_beta k_def [symmetric] q_def [symmetric] None)
        (simp add: accounts_for_def)
  next
    case (Some old)
    have "omap_find (get (upd (omap_erase k) q)) k = None"
      by (simp add: get_upd omap_find_erase)
    from emplace_accounts [OF erase_ok [OF q(1)] this, of v] q p erase_accounts [OF q(1) Some]
    show ?thesis
      by (simp add: send_request_def Let_def case_prod_beta k_def [symmetric] q_def [symmetric] Some)
        (simp add: accounts_for_def)
  qed
qed

end

interpretation one_shot: request_map p_one_shot p_one_shot_update pending_handler
  "\<lambda>p. omap_values (p_multi_shot p)"
  by unfold_locales (simp_all add: held_mset peer_ok_def)

interpretation multi_shot: request_map p_multi_shot p_multi_shot_update id
  "\<lambda>p. image_mset pending_handler (omap_values (p_one_shot p))"
  by unfold_locales (simp_all add: held_mset peer_ok_def)

lemma accounts_request_pending:
  "peer_ok p \<Longrightarrow> accounts_for (add_mset (pending_handler h) (held p)) (snd (request_pending m h p))"
  unfolding request_pending_def by (rule one_shot.send_request_accounts)

lemma accounts_ongoing: "peer_ok p \<Longrightarrow> accounts_for (add_mset h (held p)) (snd (ongoing_request m h p))"
  unfolding ongoing_request_def using multi_shot.send_request_accounts [of p h m] by simp

lemma accounts_and_then_add:
  assumes "accounts_for hs r" and "\<And>q. peer_ok q \<Longrightarrow> accounts_for (add_mset h (held q)) (f q)"
  shows "accounts_for (add_mset h hs) (and_then r f)"
  using assms(2) [of "fst r"] assms(1)
  by (auto simp: and_then_def accounts_for_def Let_def case_prod_beta ac_simps)

lemma accounts_adjourn: "peer_ok p \<Longrightarrow> accounts_for (add_mset h (held p)) (adjourn m h p)"
  unfolding adjourn_def
  by (intro accounts_and_then_add accounts_self accounts_set_state
      accounts_request_pending [where h = "Requested h", simplified])
    simp_all

lemma upd_as_set:
  "p_one_shot_update f p = p\<lparr>p_one_shot := f (p_one_shot p)\<rparr>"
  "p_multi_shot_update g p = p\<lparr>p_multi_shot := g (p_multi_shot p)\<rparr>"
  by (cases p; simp)+

text \<open>Taking a handler out of its table and handing it over\<close>

lemma accounts_erase_one_shot:
  assumes "peer_ok p" and "omap_find (p_one_shot p) k = Some v"
    and "\<And>q. peer_ok q \<Longrightarrow> accounts_for (add_mset (pending_handler v) (held q)) (f q)"
  shows "accounts_for (held p) (f (p\<lparr>p_one_shot := omap_erase k (p_one_shot p)\<rparr>))"
  using one_shot.erase_accounts [OF assms(1,2)] one_shot.erase_ok [OF assms(1), of k] assms(3)
  by (simp add: upd_as_set(1) [of "omap_erase k"])

lemma accounts_erase_multi_shot:
  assumes "peer_ok p" and "omap_find (p_multi_shot p) k = Some v"
    and "\<And>q. peer_ok q \<Longrightarrow> accounts_for (add_mset v (held q)) (f q)"
  shows "accounts_for (held p) (f (p\<lparr>p_multi_shot := omap_erase k (p_multi_shot p)\<rparr>))"
  using multi_shot.erase_accounts [OF assms(1,2)] multi_shot.erase_ok [OF assms(1), of k] assms(3)
  by (simp add: upd_as_set(2) [of "omap_erase k"])

lemma accounts_hand_over:
  "peer_ok q \<Longrightarrow> released xs = {#h#} \<Longrightarrow> accounts_for (add_mset h (held q)) (q, xs)"
  by (simp add: accounts_for_def)

lemma accounts_call_pending:
  assumes q: "peer_ok q"
  shows "accounts_for (add_mset (pending_handler v) (held q)) (call_pending v m q)"
proof (cases v)
  case (Plain h)
  with q show ?thesis by (simp add: call_pending_def accounts_for_def)
next
  case (Requested h)
  have "accounts_for (held q) (and_then (set_state Closed q) (abort_pending (session_ec SE_sessionEnded)))"
    by (rule accounts_and_then [OF accounts_set_state [OF q] accounts_abort_pending])
  with Requested show ?thesis
    by (auto simp: call_pending_def emit_def intro!: accounts_and_then_add accounts_hand_over)
qed

lemma accounts_process_wamp_reply:
  assumes p: "peer_ok p"
  shows "accounts_for (held p) (process_wamp_reply k m p)"
proof (cases "omap_find (p_one_shot p) k")
  case (Some v)
  then show ?thesis
    using accounts_erase_one_shot [OF p Some, of "call_pending v m", OF accounts_call_pending]
    by (simp add: process_wamp_reply_def)
next
  case None
  show ?thesis
  proof (cases "omap_find (p_multi_shot p) k")
    case (Some h)
    have "accounts_for (held p) ((\<lambda>q. (q, [Call_handler h m]))
        (p\<lparr>p_multi_shot := omap_erase k (p_multi_shot p)\<rparr>))"
      by (rule accounts_erase_multi_shot [OF p Some]) (simp add: accounts_hand_over)
    with p show ?thesis
      by (simp add: process_wamp_reply_def None Some accounts_self
          split: sum.split bool.split conversion_error.split)
  qed (simp add: process_wamp_reply_def None p accounts_self)
qed

lemma accounts_then_send_message:
  "accounts_for hs r \<Longrightarrow> accounts_for hs (fst (snd (send_message m (fst r))),
     snd r @ snd (snd (send_message m (fst r))))"
  using accounts_chain [of hs r "snd (send_message m (fst r))" "[]"]
  by (simp add: accounts_send_message accounts_ok)

lemma accounts_cancel_call:
  assumes p: "peer_ok p"
  shows "accounts_for (held p) (snd (cancel_call c p))"
proof -
  let ?k = "(W_call, cc_request_id c)"
  note step = accounts_then_send_message [of "held p"]
  show ?thesis
  proof (cases "omap_find (p_one_shot p) ?k")
    case (Some v)
    have "accounts_for (held p) ((\<lambda>q. (q, [Post_error (pending_handler v) (session_ec SE_cancelled)]))
        (p\<lparr>p_one_shot := omap_erase ?k (p_one_shot p)\<rparr>))"
      by (rule accounts_erase_one_shot [OF p Some]) (simp add: accounts_hand_over)
    from step [OF this] step [OF accounts_self [OF p, of "[]"]] show ?thesis
      by (simp add: cancel_call_def Let_def case_prod_beta Some)
  next
    case None
    show ?thesis
    proof (cases "omap_find (p_multi_shot p) ?k")
      case (Some h)
      have "accounts_for (held p) ((\<lambda>q. (q, [Post_error h (session_ec SE_cancelled)]))
          (p\<lparr>p_multi_shot := omap_erase ?k (p_multi_shot p)\<rparr>))"
        by (rule accounts_erase_multi_shot [OF p Some]) (simp add: accounts_hand_over)
      from step [OF this] step [OF accounts_self [OF p, of "[]"]] show ?thesis
        by (simp add: cancel_call_def Let_def case_prod_beta None Some)
    qed (simp add: cancel_call_def None p accounts_self)
  qed
qed

lemmas accounts_receiving = accounts_steps accounts_process_wamp_reply accounts_fail

lemma accounts_process_hello: "peer_ok p \<Longrightarrow> accounts_for (held p) (process_hello m p)"
  by (auto simp: process_hello_def intro!: accounts_receiving)

lemma accounts_process_challenge: "peer_ok p \<Longrightarrow> accounts_for (held p) (process_challenge m p)"
  by (auto simp: process_challenge_def intro!: accounts_receiving)

lemma accounts_process_welcome: "peer_ok p \<Longrightarrow> accounts_for (held p) (process_welcome m p)"
  by (auto simp: process_welcome_def intro!: accounts_receiving)

lemma accounts_process_abort: "peer_ok p \<Longrightarrow> accounts_for (held p) (process_abort m p)"
  by (auto simp: process_abort_def Let_def intro!: accounts_receiving)

lemma accounts_process_goodbye:
  assumes p: "peer_ok p"
  shows "accounts_for (held p) (process_goodbye m p)"
proof (cases "p_state p = Shutting_down")
  case True
  with p show ?thesis by (auto simp: process_goodbye_def intro!: accounts_receiving)
next
  case False
  define ec where "ec = session_ec (snd (lookup_wamp_error_uri (string_field m 2) SE_closeRealm))"
  define r where "r = send (goodbye_message ''wamp.error.goodbye_and_out'' []) (fst (abort_pending ec p))"
  have 1: "accounts_for (held p) (abort_pending ec p)" by (rule accounts_abort_pending)
  then have 2: "accounts_for (held (fst (abort_pending ec p))) (snd r)"
    unfolding r_def by (intro accounts_send accounts_ok)
  have sent: "accounts_for (held p) (fst (snd r), snd (abort_pending ec p) @ snd (snd r) @ zs)"
    if "released zs = {#}" for zs
    using accounts_chain [OF 1 2 that] .
  have unfold: "process_goodbye m p =
     (case fst r of
        Inl e \<Rightarrow> (fst (snd r), snd (abort_pending ec p) @ snd (snd r) @ [Threw_failure e])
      | Inr _ \<Rightarrow>
          and_then (and_then (fst (snd r), snd (abort_pending ec p) @ snd (snd r)) (set_state Closed))
            (\<lambda>s. (s, if current_log_level s \<le> Log_warning then
                       log_effects s Log_warning
                         (reason_text ''Session ended by peer with reason URI '' m) no_error
                     else [])))"
    unfolding process_goodbye_def Let_def case_prod_beta ec_def r_def using False by simp
  show ?thesis
    unfolding unfold using sent [of "[]"]
    by (auto split: sum.split intro!: accounts_and_then accounts_set_state accounts_self sent)
qed

lemma accounts_process_message: "peer_ok p \<Longrightarrow> accounts_for (held p) (process_message m p)"
  by (simp add: process_message_def accounts_process_wamp_reply accounts_process_hello
      accounts_process_challenge accounts_process_welcome accounts_process_abort
      accounts_process_goodbye accounts_self split: wamp_msg_type.split)

lemma accounts_on_transport_rx: "peer_ok p \<Longrightarrow> accounts_for (held p) (on_transport_rx b p)"
  by (auto simp: on_transport_rx_def protocol_violation_def case_prod_beta Let_def
      split: variant.split sum.split
      intro!: accounts_and_then accounts_self accounts_fail accounts_process_message)

lemma accounts_setters:
  assumes "peer_ok p"
  shows "accounts_for (held p) (set_terminating b p, [])" "accounts_for (held p) (set_log_level l p, [])"
    "accounts_for (held p) (set_log_handler x (set_warning_handler y (set_trace_handler z
       (set_state_change_handler u p))), [])"
  using assms
  by (simp_all add: set_terminating_def set_log_level_def set_log_handler_def set_warning_handler_def
      set_trace_handler_def set_state_change_handler_def accounts_for_def held_mset peer_ok_def)

lemma accounts_step: "peer_ok p \<Longrightarrow> accounts_for (held p + brought_by e) (peer_step p e)"
proof (cases e)
  case (Do_request m h)
  then show "peer_ok p \<Longrightarrow> accounts_for (held p + brought_by e) (peer_step p e)"
    using accounts_request_pending [of p "Plain h" m] by (simp add: request_def)
qed (simp_all add: accounts_open accounts_start accounts_adjourn accounts_close accounts_send
    accounts_send_error accounts_ongoing accounts_cancel_call accounts_set_state
    accounts_on_transport_rx on_transport_failure_def accounts_fail accounts_self accounts_setters)

interpretation handlers: machine_conservation peer_step peer_ok held "\<lambda>p. brought_by" released
  using accounts_step by unfold_locales (fastforce simp: accounts_for_def)+

lemma brought_by_run_sum: "handlers.brought_by_run p es = (\<Sum>e \<leftarrow> es. brought_by e)"
  by (induction es arbitrary: p) simp_all

text \<open>
  C3: whatever happens to a peer, every handler that was given to it with a request, an ongoing
  request or a GOODBYE is either still in a table or has been handed over exactly once: posted
  with an error, called with its reply or destroyed.
\<close>

theorem handlers_accounted:
  fixes es :: "'h peer_event list"
  shows "held (fst (run_machine peer_step (init_peer is_router c) es)) +
      released (snd (run_machine peer_step (init_peer is_router c) es)) =
    (\<Sum>e \<leftarrow> es. brought_by e)"
proof -
  have "peer_ok (init_peer is_router c :: 'h peer)" "held (init_peer is_router c :: 'h peer) = {#}"
    by (simp_all add: init_peer_def peer_ok_def omap_ok_def held_def pending_handlers_def)
  from handlers.run_conserves [OF this(1), of es] this(2) show ?thesis
    by (simp only: brought_by_run_sum) simp
qed

end
