(* ===== verification/Peer_Limits.thy ===== *)
theory Peer_Limits
  imports Peer_Handlers
begin

section \<open>Request IDs and the size of what is sent\<close>

definition id_in_range :: "'h peer \<Rightarrow> bool" where
  "id_in_range p \<longleftrightarrow> 0 \<le> p_next_id p \<and> p_next_id p \<le> max_request_id"

text \<open>A result with the message limit \<open>n\<close>, an ID in range, and nothing sent that is too long\<close>

definition limited :: "codec \<Rightarrow> nat \<Rightarrow> 'h peer \<Rightarrow> bool" where
  "limited d n p \<longleftrightarrow> p_codec p = d \<and> p_max_tx p = n \<and> id_in_range p"

definition short :: "codec \<Rightarrow> nat \<Rightarrow> 'h peer_effect list \<Rightarrow> bool" where
  "short d n xs \<longleftrightarrow> (\<forall>b. Transport_send b \<in> set xs \<longrightarrow> length b \<le> n \<and> b \<in> range (encode d))"

definition tame :: "codec \<Rightarrow> nat \<Rightarrow> 'h peer_result \<Rightarrow> bool" where
  "tame d n r \<longleftrightarrow> limited d n (fst r) \<and> short d n (snd r)"

lemma short_simps [simp]:
  "short d n []" "short d n (xs @ ys) \<longleftrightarrow> short d n xs \<and> short d n ys"
  "short d n (x # xs) \<longleftrightarrow> (\<forall>b. x = Transport_send b \<longrightarrow> length b \<le> n \<and> b \<in> range (encode d)) \<and> short d n xs"
  "short d n (check_that c)" "short d n (log_effects p l t ec)" "short d n (trace_rx vs p)"
  "short d n (trace_tx m p)" "short d n (map (\<lambda>h. Post_error h ec) hs)" "short d n (map Destroyed hs)"
  by (auto simp: short_def check_that_def log_effects_def trace_rx_def trace_tx_def
      trace_effects_def)

lemma limited_upd [simp]:
  "limited d n (p\<lparr>p_transport := t\<rparr>) = limited d n p" "limited d n (p\<lparr>p_state := s\<rparr>) = limited d n p"
  "limited d n (p\<lparr>p_one_shot := m1\<rparr>) = limited d n p"
  "limited d n (p\<lparr>p_multi_shot := m2\<rparr>) = limited d n p" "limited d n (p\<lparr>p_log_level := l\<rparr>) = limited d n p"
  "limited d n (p\<lparr>p_terminating := b\<rparr>) = limited d n p" "limited d n (p\<lparr>p_has_log := b\<rparr>) = limited d n p"
  "limited d n (p\<lparr>p_has_warning := b\<rparr>) = limited d n p" "limited d n (p\<lparr>p_has_trace := b\<rparr>) = limited d n p"
  "limited d n (p\<lparr>p_has_state_change := b\<rparr>) = limited d n p"
  by (simp_all add: limited_def id_in_range_def)

lemma tame_pair [simp]: "tame d n (p, xs) \<longleftrightarrow> limited d n p \<and> short d n xs"
  by (simp add: tame_def)

lemma tame_and_then:
  "tame d n r \<Longrightarrow> (\<And>q. limited d n q \<Longrightarrow> tame d n (f q)) \<Longrightarrow> tame d n (and_then r f)"
  by (auto simp: and_then_def tame_def Let_def case_prod_beta)

lemma tame_basic:
  assumes "limited d n p"
  shows "tame d n (set_state s p)" "tame d n (abort_pending ec p)" "tame d n (drop_transport p)"
    "short d n xs \<Longrightarrow> tame d n (emit xs p)"
  using assms
  by (simp_all add: set_state_def abort_pending_def drop_transport_def emit_def split: option.split)

lemma tame_fail: "limited d n p \<Longrightarrow> tame d n (fail ec info p)"
  by (auto simp: fail_def intro!: tame_and_then tame_basic)

lemma tame_close: "limited d n p \<Longrightarrow> tame d n (close p)"
  by (auto simp: close_def intro!: tame_and_then tame_basic)

lemma tame_start: "limited d n p \<Longrightarrow> tame d n (start p)"
  by (auto simp: start_def intro!: tame_and_then tame_basic split: option.splits)

lemma next_request_id_range: "id_in_range p \<Longrightarrow> fst (next_request_id p) \<in> {1..max_request_id}"
  by (auto simp: id_in_range_def next_request_id_def Let_def max_request_id_def)

lemma limited_set_message_request_id:
  "limited d n p \<Longrightarrow> limited d n (snd (snd (set_message_request_id m p)))"
  using next_request_id_range [of p]
  by (auto simp: set_message_request_id_peer limited_def id_in_range_def)

lemma short_hand_to_transport:
  "length b \<le> n \<Longrightarrow> b \<in> range (encode d) \<Longrightarrow> short d n (hand_to_transport b p)"
  by (auto simp: hand_to_transport_def)

lemma tame_send_message: "limited d n p \<Longrightarrow> tame d n (snd (send_message m p))"
  using limited_set_message_request_id [of d n p m]
  by (auto simp: send_message_def Let_def case_prod_beta limited_def intro!: short_hand_to_transport)

lemma tame_send: "limited d n p \<Longrightarrow> tame d n (snd (send m p))"
  by (simp add: send_def case_prod_beta tame_send_message)

lemma tame_fst: "tame d n r \<Longrightarrow> limited d n (fst r)" and tame_snd: "tame d n r \<Longrightarrow> short d n (snd r)"
  by (simp_all add: tame_def)

lemma tame_send_error: "limited d n p \<Longrightarrow> tame d n (snd (send_error t i err p))"
  by (auto simp: send_error_def Let_def case_prod_beta
      intro!: tame_send tame_fst [OF tame_send] tame_snd [OF tame_send])

text \<open>The tables of requests do not matter to the limit.\<close>

locale limited_map =
  fixes get :: "'h peer \<Rightarrow> (request_key, 'v) omap"
    and upd :: "((request_key, 'v) omap \<Rightarrow> (request_key, 'v) omap) \<Rightarrow> 'h peer \<Rightarrow> 'h peer"
    and handler_of :: "'v \<Rightarrow> 'h"
  assumes limited_map: "limited d n (upd f p) = limited d n p"
begin

lemma tame_send_request: "limited d n p \<Longrightarrow> tame d n (snd (send_request get upd handler_of m h p))"
  using limited_set_message_request_id [of d n p m]
  by (auto simp: send_request_def Let_def case_prod_beta limited_map
      intro!: short_hand_to_transport split: option.split) (auto simp: limited_def)

end

interpretation one_shot_limit: limited_map p_one_shot p_one_shot_update pending_handler
  by unfold_locales (simp add: limited_def id_in_range_def)

interpretation multi_shot_limit: limited_map p_multi_shot p_multi_shot_update id
  by unfold_locales (simp add: limited_def id_in_range_def)

lemma tame_requests:
  assumes "limited d n p"
  shows "tame d n (snd (request_pending m v p))" "tame d n (snd (request m h p))"
    "tame d n (snd (ongoing_request m h p))"
  using one_shot_limit.tame_send_request [OF assms] multi_shot_limit.tame_send_request [OF assms]
  by (simp_all add: request_pending_def request_def ongoing_request_def)

lemma tame_adjourn: "limited d n p \<Longrightarrow> tame d n (adjourn m h p)"
  by (auto simp: adjourn_def intro!: tame_and_then tame_basic tame_requests)

lemma tame_cancel_call: "limited d n p \<Longrightarrow> tame d n (snd (cancel_call c p))"
  by (auto simp: cancel_call_def Let_def case_prod_beta split: option.split
      intro!: tame_fst [OF tame_send_message] tame_snd [OF tame_send_message])

lemma tame_process_wamp_reply: "limited d n p \<Longrightarrow> tame d n (process_wamp_reply k m p)"
  by (auto simp: process_wamp_reply_def call_pending_def intro!: tame_and_then tame_basic
      split: option.split pending.split sum.split bool.split conversion_error.split)

lemma tame_process_goodbye: "limited d n p \<Longrightarrow> tame d n (process_goodbye m p)"
  by (auto simp: process_goodbye_def Let_def case_prod_beta split: sum.split
      intro!: tame_and_then tame_basic tame_process_wamp_reply tame_fst [OF tame_send]
        tame_snd [OF tame_send] tame_fst [OF tame_basic(2)] tame_snd [OF tame_basic(2)])

lemma tame_process_message: "limited d n p \<Longrightarrow> tame d n (process_message m p)"
  by (auto simp: process_message_def process_hello_def process_challenge_def process_welcome_def
      process_abort_def Let_def split: wamp_msg_type.split
      intro!: tame_and_then tame_basic tame_process_wamp_reply tame_process_goodbye tame_fail)

lemma tame_on_transport_rx: "limited d n p \<Longrightarrow> tame d n (on_transport_rx b p)"
  by (auto simp: on_transport_rx_def protocol_violation_def Let_def case_prod_beta
      split: variant.split sum.split intro!: tame_and_then tame_fail tame_process_message)

lemma tame_step: "limited d n p \<Longrightarrow> (\<forall>t c. e \<noteq> Do_open t c) \<Longrightarrow> tame d n (peer_step p e)"
  by (cases e)
    (simp_all add: tame_start tame_adjourn tame_close tame_send tame_send_error tame_requests
      tame_cancel_call tame_basic tame_on_transport_rx on_transport_failure_def tame_fail
      set_terminating_def set_log_level_def set_log_handler_def set_warning_handler_def
      set_trace_handler_def set_state_change_handler_def)

lemma open_effects:
  "id_in_range (fst (open_peer t c p)) = id_in_range p" "Transport_send b \<notin> set (snd (open_peer t c p))"
  by (auto simp: open_peer_def and_then_def set_state_def check_that_def id_in_range_def Let_def)

lemma id_in_range_step: "id_in_range p \<Longrightarrow> id_in_range (fst (peer_step p e))"
  using tame_step [of "p_codec p" "p_max_tx p" p e] open_effects(1) [of _ _ p]
  by (cases "\<exists>t c. e = Do_open t c") (auto simp: limited_def tame_def)

interpretation request_ids: machine_invariant peer_step id_in_range
  by unfold_locales (rule id_in_range_step)

lemma id_in_range_init [simp]: "id_in_range (init_peer is_router c)"
  by (simp add: id_in_range_def init_peer_def max_request_id_def)


text \<open>The IDs of the next \<open>k\<close> requests\<close>

fun take_ids :: "nat \<Rightarrow> 'h peer \<Rightarrow> request_id list" where
  "take_ids 0 p = []"
| "take_ids (Suc k) p = (let (i, q) = next_request_id p in i # take_ids k q)"

lemma next_request_id_mod:
  "id_in_range p \<Longrightarrow> fst (next_request_id p) = p_next_id p mod max_request_id + 1"
  by (auto simp: next_request_id_def Let_def id_in_range_def max_request_id_def)

lemma take_ids_mod:
  "id_in_range p \<Longrightarrow> take_ids k p = map (\<lambda>i. (p_next_id p + int i) mod max_request_id + 1) [0..<k]"
proof (induction k arbitrary: p)
  case 0
  then show ?case by simp
next
  case (Suc k)
  let ?q = "snd (next_request_id p)"
  have q: "p_next_id ?q = p_next_id p mod max_request_id + 1"
    using next_request_id_mod [OF Suc.prems] by (simp add: next_request_id_snd)
  then have "id_in_range ?q"
    using next_request_id_range [OF Suc.prems] Suc.prems
    by (simp add: id_in_range_def next_request_id_mod)
  then have "take_ids k ?q = map (\<lambda>i. (p_next_id ?q + int i) mod max_request_id + 1) [0..<k]"
    by (rule Suc.IH)
  moreover have "(p_next_id ?q + int i) mod max_request_id =
      (p_next_id p + int (Suc i)) mod max_request_id" for i
    unfolding q using mod_add_right_eq [of "int i + 1" "p_next_id p" max_request_id]
    by (simp add: ac_simps)
  ultimately show ?case
    using next_request_id_mod [OF Suc.prems]
    by (simp add: case_prod_beta map_upt_Suc del: upt_Suc)
qed


text \<open>A codec and a peer to evaluate on: the buffer \<open>[n]\<close> decodes to the \<open>n\<close>th message of a list.\<close>

definition demo_codec :: "varray list \<Rightarrow> codec" where
  "demo_codec ms = \<lparr>encode = \<lambda>_. [0, 0, 0],
     decode = \<lambda>b. case b of [n] \<Rightarrow> (no_error, V_array (ms ! unat n)) | _ \<Rightarrow> (decoding_ec DE_failure, V_null)\<rparr>"

definition demo_events :: "varray list \<Rightarrow> 'h peer_event list" where
  "demo_events ms = [Do_set_state Connecting, Do_open \<lparr>tr_started = False, tr_max_tx = 512\<rparr> (demo_codec ms)]"

definition demo_peer :: "varray list \<Rightarrow> session_state \<Rightarrow> 'h peer" where
  "demo_peer ms s = (init_peer False (demo_codec ms))
     \<lparr>p_transport := Some \<lparr>tr_started = True, tr_max_tx = 512\<rparr>, p_max_tx := 512, p_state := s\<rparr>"



end
