(* ===== verification/Peer_Session.thy ===== *)
theory Peer_Session
  imports Peer_Limits
begin

section \<open>Requests and their replies\<close>

text \<open>The request that a message answers\<close>

definition reply_key :: "wamp_message \<Rightarrow> request_key option" where
  "reply_key m =
    (if message_replies_to m \<noteq> W_none then Some (message_replies_to m, request_id_of m)
     else if msg_type m = W_error then Some (request_key m) else None)"

lemma process_message_reply: "reply_key m = Some k \<Longrightarrow> process_message m p = process_wamp_reply k m p"
  by (auto simp: reply_key_def process_message_def split: if_splits)

lemma omap_erase_put [simp]: "omap_erase k (omap_put k v m) = omap_erase k m"
  by (induction k v m rule: omap_put.induct) (auto simp: omap_erase_def)

lemma omap_erase_twice [simp]: "omap_erase k (omap_erase k m) = omap_erase k m"
  by (simp add: omap_erase_def)

lemma omap_erase_emplace [simp]: "omap_erase k (omap_emplace k v m) = omap_erase k m"
  by (simp add: omap_emplace_def)

lemma id_position_in_fields:
  "conforms t fs \<Longrightarrow> id_position (lookup_traits t) < length fs"
  by (cases t) (auto simp: conforms_def lookup_named named_code)

lemma request_key_set_id:
  assumes "parse_message (msg_fields m) = Inr m" and "has_request_id m"
    and "- (2 ^ 63) \<le> i" and "i < 2 ^ 63"
  shows "request_key (set_request_id i m) = (msg_type m, i)"
proof -
  have "id_position (lookup_traits (msg_type m)) < length (msg_fields m)"
    using assms(1) id_position_in_fields by (auto simp: parse_message_iff)
  moreover have "msg_type m \<noteq> W_error" using assms(2) by (auto simp: has_request_id_def lookup_named)
  ultimately show ?thesis
    using assms(2-4)
    by (simp add: request_key_def request_id_of_def set_request_id_def has_request_id_def Let_def
        int_field_def vec_at_def id_variant_def sint_word_of_int)
qed

lemma is_valid_rx_ready: "is_valid_rx tr s r \<Longrightarrow> ready_to_receive s"
  by (cases s) (auto simp: is_valid_rx_def ready_to_receive_def Let_def split: if_splits)

lemma no_error_bool [simp]: "\<not> ec_bool no_error"
  by (simp add: ec_bool_def no_error_def)

text \<open>The messages that get through to \<open>processMessage\<close>\<close>

definition rx_message :: "'h peer \<Rightarrow> bytes \<Rightarrow> wamp_message option" where
  "rx_message p buffer =
    (case decode (p_codec p) buffer of
       (ec, V_array vs) \<Rightarrow>
         if ec_bool ec then None
         else (case parse_message vs of
             Inl _ \<Rightarrow> None
           | Inr m \<Rightarrow>
               if is_valid_rx (lookup_traits (msg_type m)) (p_state p) (p_is_router p) then Some m
               else None)
     | _ \<Rightarrow> None)"

lemma parse_message_fields: "parse_message vs = Inr m \<Longrightarrow> msg_fields m = vs"
  by (simp add: parse_message_iff)

lemma rx_message_Some:
  "rx_message p buffer = Some m \<longleftrightarrow>
     (\<exists>ec. decode (p_codec p) buffer = (ec, V_array (msg_fields m)) \<and> \<not> ec_bool ec) \<and>
     parse_message (msg_fields m) = Inr m \<and>
     is_valid_rx (lookup_traits (msg_type m)) (p_state p) (p_is_router p)"
  by (auto simp: rx_message_def split: prod.splits variant.splits sum.splits if_splits
      dest: parse_message_fields)

lemma on_transport_rx_accepted:
  assumes "rx_message p buffer = Some m"
  shows "on_transport_rx buffer p =
    and_then (p, trace_rx (msg_fields m) p) (process_message m)"
  using assms by (auto simp: rx_message_Some on_transport_rx_def is_valid_rx_ready)

text \<open>
  A reply, even after an error or with progress, to a request that was just made calls the
  handler of that request, with the reply, and nothing else but the trace; the other requests
  stay as they were before.
\<close>

theorem request_reply:
  assumes "request msg h p = (i, q, xs)" and "id_in_range p"
    and "parse_message (msg_fields msg) = Inr msg" and "has_request_id msg"
    and "length (encode (p_codec p) (msg_fields (set_request_id i msg))) \<le> p_max_tx p"
    and "rx_message p buffer = Some reply" and "reply_key reply = Some (msg_type msg, i)"
  shows "\<exists>q'. on_transport_rx buffer q = (q', trace_rx (msg_fields reply) q @ [Call_handler h reply]) \<and>
    p_one_shot q' = omap_erase (msg_type msg, i) (p_one_shot p) \<and> p_multi_shot q' = p_multi_shot p \<and>
    p_state q' = p_state p"
proof -
  let ?p1 = "p\<lparr>p_next_id := i\<rparr>"
  let ?k = "(msg_type msg, i)"
  have i: "i = fst (next_request_id p)"
    using assms(1,4)
    by (auto simp: request_def request_pending_def send_request_def set_message_request_id_def Let_def
        case_prod_beta split: if_splits)
  then have "i \<in> {1..max_request_id}" using next_request_id_range [OF assms(2)] by simp
  then have key: "request_key (set_request_id i msg) = ?k"
    by (intro request_key_set_id assms) (auto simp: max_request_id_def)
  have sent: "set_message_request_id msg p = (i, set_request_id i msg, ?p1)"
    using assms(4) by (simp add: set_message_request_id_def case_prod_beta next_request_id_snd i)
  have "\<exists>m. q = ?p1\<lparr>p_one_shot := omap_emplace ?k (Plain h) m\<rparr> \<and> omap_find m ?k = None \<and>
      omap_erase ?k m = omap_erase ?k (p_one_shot p)"
  proof (cases "omap_find (p_one_shot p) ?k")
    case None
    with assms(1,5) show ?thesis
      by (auto simp: request_def request_pending_def send_request_def sent key Let_def
          case_prod_beta upd_as_set(1) [of "omap_emplace _ _"])
  next
    case (Some old)
    with assms(1,5) show ?thesis
      by (auto simp: request_def request_pending_def send_request_def sent key Let_def
          case_prod_beta upd_as_set(1) [of "omap_emplace _ _"] upd_as_set(1) [of "omap_erase _"]
          omap_find_erase intro!: exI [of _ "omap_erase ?k (p_one_shot p)"])
  qed
  then obtain m where m: "q = ?p1\<lparr>p_one_shot := omap_emplace ?k (Plain h) m\<rparr>" "omap_find m ?k = None"
      "omap_erase ?k m = omap_erase ?k (p_one_shot p)" by blast
  have "rx_message q buffer = Some reply"
    using assms(6) m(1) by (simp add: rx_message_Some)
  then have "on_transport_rx buffer q =
      and_then (q, trace_rx (msg_fields reply) q) (process_wamp_reply ?k reply)"
    by (simp add: on_transport_rx_accepted process_message_reply [OF assms(7)] and_then_def)
  also have "\<dots> = (q\<lparr>p_one_shot := omap_erase ?k (p_one_shot p)\<rparr>,
      trace_rx (msg_fields reply) q @ [Call_handler h reply])"
    using m by (simp add: and_then_def process_wamp_reply_def omap_emplace_find call_pending_def)
  finally show ?thesis using m(1) by simp
qed

theorem request_reply_witness:
  "let p = demo_peer [[V_int 50, V_int 1, V_object []]] Established :: nat peer
   in \<exists>q'. on_transport_rx [0] (fst (snd (request (call_message ''f'' []) 7 p))) =
     (q', [Call_handler 7 \<lparr>msg_type = W_result, msg_fields = [V_int 50, V_int 1, V_object []]\<rparr>]) \<and>
     p_one_shot q' = []"
proof -
  let ?p = "demo_peer [[V_int 50, V_int 1, V_object []]] Established :: nat peer"
  let ?m = "\<lparr>msg_type = W_result, msg_fields = [V_int 50, V_int 1, V_object []]\<rparr>"
  let ?q = "fst (snd (request (call_message ''f'' []) 7 ?p))"
  have "\<exists>q'. on_transport_rx [0] ?q = (q', trace_rx (msg_fields ?m) ?q @ [Call_handler 7 ?m]) \<and>
      p_one_shot q' = omap_erase (msg_type (call_message ''f'' []), 1) (p_one_shot ?p) \<and>
      p_multi_shot q' = p_multi_shot ?p \<and> p_state q' = p_state ?p"
  proof (rule request_reply [where xs = "snd (snd (request (call_message ''f'' []) 7 ?p))"])
    show "request (call_message ''f'' []) 7 ?p = (1, ?q, snd (snd (request (call_message ''f'' []) 7 ?p)))"
      by (simp add: request_def request_pending_def send_request_def set_message_request_id_def Let_def
          case_prod_beta next_request_id_def has_request_id_def call_message_def make_message_def
          lookup_named demo_peer_def demo_codec_def init_peer_def max_request_id_def prod_eq_iff)
  qed (simp_all add: id_in_range_def demo_peer_def init_peer_def max_request_id_def demo_codec_def
      call_message_def make_message_def parse_message_iff conforms_def named_code lookup_named
      id_variant_def has_request_id_def rx_message_Some is_valid_rx_def reply_key_def
      message_replies_to_def request_id_of_def int_field_def vec_at_def)
  moreover have "trace_rx (msg_fields ?m) ?q = []"
    by (simp add: trace_rx_def trace_effects_def current_log_level_def request_def request_pending_def
        send_request_def set_message_request_id_def Let_def case_prod_beta next_request_id_def
        has_request_id_def call_message_def make_message_def lookup_named demo_peer_def demo_codec_def
        init_peer_def log_level_order)
  ultimately show ?thesis by (auto simp: demo_peer_def init_peer_def)
qed

subsection \<open>Input that is not acceptable\<close>

definition failed_peer :: "'h peer \<Rightarrow> 'h peer" where
  "failed_peer p = p\<lparr>p_state := Failed, p_transport := None, p_one_shot := [], p_multi_shot := []\<rparr>"

lemma fail_result:
  assumes "p_state p \<noteq> Failed"
  shows "fail ec info p = (failed_peer p,
     snd (set_state Failed p) @ snd (abort_pending ec p) @
     (if p_transport p = None then [] else [Transport_close]) @
     (if info = [] then [] else log_effects p Log_error info ec))"
proof -
  have "log_effects (failed_peer p) Log_error info ec = log_effects p Log_error info ec"
    by (simp add: log_effects_def failed_peer_def)
  moreover have "pending_handlers (p\<lparr>p_state := s\<rparr>) = pending_handlers p" for s
    by (simp add: pending_handlers_def)
  moreover have "p_transport p = None \<Longrightarrow>
      p\<lparr>p_state := Failed, p_one_shot := [], p_multi_shot := []\<rparr> = failed_peer p"
    by (cases p) (simp add: failed_peer_def)
  moreover have "p\<lparr>p_state := Failed, p_one_shot := [], p_multi_shot := [], p_transport := None\<rparr> = failed_peer p"
    by (cases p) (simp add: failed_peer_def)
  ultimately show ?thesis
    using assms
    by (cases "p_transport p")
      (simp_all add: fail_def and_then_def emit_def set_state_def abort_pending_def drop_transport_def)
qed

lemma fail_when_failed: "p_state p = Failed \<Longrightarrow> fail ec info p = (p, [])"
  by (cases p) (simp add: fail_def and_then_def emit_def set_state_def)

lemma on_transport_rx_rejected:
  assumes "rx_message p buffer = None"
  obtains ec info xs where "on_transport_rx buffer p = and_then (p, xs) (fail ec info)"
    and "ec_bool ec" and "info \<noteq> []" and "xs = [] \<or> (\<exists>vs. xs = trace_rx vs p)"
    and "ec = fst (decode (p_codec p) buffer) \<or> ec = session_ec SE_protocolViolation"
proof -
  have unready: "\<not> ready_to_receive (p_state p) \<Longrightarrow> \<not> is_valid_rx tr (p_state p) (p_is_router p)" for tr
    using is_valid_rx_ready by blast
  have fail: "fail ec t p = and_then (p, []) (fail ec t)" for ec t
    by (simp add: and_then_def)
  have bool: "ec_bool (session_ec SE_protocolViolation)" by (simp add: ec_bool_def session_ec_def)
  obtain ec v where d: "decode (p_codec p) buffer = (ec, v)" by force
  consider "\<not> ready_to_receive (p_state p)" | "ready_to_receive (p_state p)" "ec_bool ec"
    | "ready_to_receive (p_state p)" "\<not> ec_bool ec" "\<forall>vs. v \<noteq> V_array vs"
    | vs where "ready_to_receive (p_state p)" "\<not> ec_bool ec" "v = V_array vs" by blast
  then show ?thesis
  proof cases
    case 1
    then show ?thesis
      by (intro that [of "[]" "session_ec SE_protocolViolation"
            "[P_text ''Received WAMP message while session unready to receive'']"])
        (simp_all add: on_transport_rx_def protocol_violation_def fail [symmetric] bool)
  next
    case 2
    with d show ?thesis
      by (intro that [of "[]" ec "[P_text ''Error deserializing received WAMP message'']"])
        (simp_all add: on_transport_rx_def fail [symmetric])
  next
    case 3
    with d show ?thesis
      by (intro that [of "[]" "session_ec SE_protocolViolation"
            "[P_text ''Received WAMP message is not an array'']"])
        (simp_all add: on_transport_rx_def protocol_violation_def fail [symmetric] bool split: variant.split)
  next
    case 4
    show ?thesis
    proof (cases "parse_message vs")
      case (Inl e)
      with 4 d show ?thesis
        by (intro that [of "trace_rx vs p" "session_ec SE_protocolViolation"
              "[P_text ''Received WAMP message has invalid type number or field schema'']"])
          (auto simp: on_transport_rx_def protocol_violation_def and_then_def bool)
    next
      case (Inr m)
      with 4 d assms have "\<not> is_valid_rx (lookup_traits (msg_type m)) (p_state p) (p_is_router p)"
        by (auto simp: rx_message_def)
      with Inr 4 d show ?thesis
        by (intro that [of "trace_rx vs p" "session_ec SE_protocolViolation"
              "[P_text ''Received invalid WAMP message for peer role'']"])
          (auto simp: on_transport_rx_def protocol_violation_def and_then_def bool)
    qed
  qed
qed

definition is_posted :: "'h peer_effect \<Rightarrow> bool" where
  "is_posted x = (case x of Post_error h ec \<Rightarrow> True | _ \<Rightarrow> False)"

lemma is_posted_simps [simp]:
  "is_posted (Post_error h ec)" "\<not> is_posted (Log_message l t ec)" "\<not> is_posted (Warning_text t)"
  "\<not> is_posted (Trace_text t)" "\<not> is_posted (State_changed s)" "\<not> is_posted Transport_close"
  by (simp_all add: is_posted_def)

lemma no_posts [simp]:
  "filter is_posted (log_effects p l t ec) = []" "filter is_posted (trace_rx vs p) = []"
  "filter is_posted (snd (set_state s p)) = []"
  by (auto simp: log_effects_def trace_rx_def trace_effects_def set_state_def)

lemma no_calls [simp]:
  "Call_handler h m \<notin> set (trace_rx vs p)" "Call_kept h m \<notin> set (trace_rx vs p)"
  by (auto simp: trace_rx_def trace_effects_def)

lemma posts_all [simp]: "filter is_posted (map (\<lambda>h. Post_error h ec) hs) = map (\<lambda>h. Post_error h ec) hs"
  by (induction hs) (simp_all add: is_posted_def)

lemma no_close_effects [simp]:
  "Transport_close \<notin> set (log_effects p l t ec)" "Transport_close \<notin> set (trace_rx vs p)"
  "Transport_close \<notin> set (snd (set_state s p))" "Transport_close \<notin> set (snd (abort_pending ec p))"
  by (auto simp: log_effects_def trace_rx_def trace_effects_def set_state_def abort_pending_def)

text \<open>
  C16: a buffer that is not a message which the peer may receive in its state and role makes the
  session fail: every pending request is given the same error, in the order of the tables, the
  tables are emptied and the transport is closed and let go, and no handler is called.
\<close>

theorem invalid_input_fails:
  assumes "rx_message p buffer = None" and "p_state p \<noteq> Failed" and "\<not> p_terminating p"
  shows "fst (on_transport_rx buffer p) = failed_peer p \<and>
    (\<exists>ec. ec_bool ec \<and> filter is_posted (snd (on_transport_rx buffer p)) =
       map (\<lambda>h. Post_error h ec) (pending_handlers p)) \<and>
    (Transport_close \<in> set (snd (on_transport_rx buffer p)) \<longleftrightarrow> p_transport p \<noteq> None) \<and>
    (\<forall>h m. Call_handler h m \<notin> set (snd (on_transport_rx buffer p)) \<and>
       Call_kept h m \<notin> set (snd (on_transport_rx buffer p)))"
proof -
  from assms(1) obtain ec info xs where rx: "on_transport_rx buffer p = and_then (p, xs) (fail ec info)"
      and ec: "ec_bool ec" and xs: "xs = [] \<or> (\<exists>vs. xs = trace_rx vs p)"
    by (rule on_transport_rx_rejected)
  let ?ys = "snd (fail ec info p)"
  have r: "on_transport_rx buffer p = (failed_peer p, xs @ ?ys)"
    using assms(2) by (simp add: rx and_then_def fail_result)
  have "filter is_posted xs = [] \<and> Transport_close \<notin> set xs \<and>
      (\<forall>h m. Call_handler h m \<notin> set xs \<and> Call_kept h m \<notin> set xs)"
    using xs by auto
  moreover have "filter is_posted ?ys = map (\<lambda>h. Post_error h ec) (pending_handlers p)"
    using assms(2,3)
    by (simp add: fail_result abort_pending_def)
  moreover have "Transport_close \<in> set ?ys \<longleftrightarrow> p_transport p \<noteq> None"
    using assms(2) by (auto simp: fail_result)
  moreover have "\<forall>h m. Call_handler h m \<notin> set ?ys \<and> Call_kept h m \<notin> set ?ys"
    using assms(2) by (auto simp: fail_result log_effects_def set_state_def abort_pending_def)
  ultimately show ?thesis using ec by (auto simp: r)
qed

theorem invalid_input_fails_witness:
  "let p = (demo_peer [[V_int 48]] Established)\<lparr>p_multi_shot := [((W_call, 1), 7)]\<rparr> :: nat peer
   in fst (on_transport_rx [0] p) = failed_peer p \<and>
     (\<exists>ec. ec_bool ec \<and> filter is_posted (snd (on_transport_rx [0] p)) = [Post_error 7 ec])"
proof -
  let ?p = "(demo_peer [[V_int 48]] Established)\<lparr>p_multi_shot := [((W_call, 1), 7)]\<rparr> :: nat peer"
  have "rx_message ?p [0] = None"
    by (simp add: rx_message_def demo_peer_def demo_codec_def init_peer_def parse_message_def
        parse_msg_type_def msg_type_of_code_def named_msg_types_def is_valid_type_def lookup_named)
  from invalid_input_fails [OF this] show ?thesis
    by (auto simp: demo_peer_def init_peer_def pending_handlers_def)
qed

end
