(* ===== verification/Peer_Refinement.thy ===== *)
theory Peer_Refinement
  imports Peer_Session
begin

section \<open>The life of a client session\<close>

text \<open>
  The session as WAMP describes it, without tables, codec or transport: what can happen to it
  and what it becomes.
\<close>

datatype session_event =
    A_open
  | A_start
  | A_leave
  | A_close
  | A_message wamp_msg_type
  | A_garbage
  | A_lost
  | A_other

inductive session_move :: "session_state \<Rightarrow> session_event \<Rightarrow> session_state \<Rightarrow> bool" where
  move_open: "session_move Connecting A_open Closed"
| move_start: "s \<in> {Closed, Disconnected} \<Longrightarrow> session_move s A_start Establishing"
| move_challenge: "session_move Establishing (A_message W_challenge) Authenticating"
| move_welcome: "s \<in> {Establishing, Authenticating} \<Longrightarrow> session_move s (A_message W_welcome) Established"
| move_refused: "s \<in> {Establishing, Authenticating} \<Longrightarrow> session_move s (A_message W_abort) Closed"
| move_aborted: "session_move Established (A_message W_abort) Failed"
| move_late_abort: "session_move Shutting_down (A_message W_abort) Shutting_down"
| move_leave: "session_move Established A_leave Shutting_down"
| move_goodbye: "s \<in> {Established, Shutting_down} \<Longrightarrow> session_move s (A_message W_goodbye) Closed"
| move_goodbye_error: "session_move Shutting_down (A_message W_error) Closed"
| move_message: "s \<in> {Established, Shutting_down} \<Longrightarrow>
    t \<notin> {W_hello, W_challenge, W_welcome, W_abort, W_goodbye} \<Longrightarrow> session_move s (A_message t) s"
| move_close: "session_move s A_close Disconnected"
| move_garbage: "session_move s A_garbage Failed"
| move_lost: "s \<noteq> Disconnected \<Longrightarrow> session_move s A_lost Failed"
| move_lost_closed: "session_move Disconnected A_lost Disconnected"
| move_other: "session_move s A_other s"

inductive_cases into_established: "session_move s a Established"
inductive_simps out_of_failed: "session_move Failed a s"

definition session_event :: "'h peer \<Rightarrow> 'h peer_event \<Rightarrow> session_event" where
  "session_event p e =
    (case e of
       Do_open t c \<Rightarrow> A_open
     | Do_start \<Rightarrow> A_start
     | Do_adjourn m h \<Rightarrow> A_leave
     | Do_close \<Rightarrow> A_close
     | Rx b \<Rightarrow> (case rx_message p b of None \<Rightarrow> A_garbage | Some m \<Rightarrow> A_message (msg_type m))
     | Rx_failed ec \<Rightarrow> A_lost
     | Tx_failed ec \<Rightarrow> A_lost
     | _ \<Rightarrow> A_other)"

text \<open>
  A client ends its session with a GOODBYE and does not set the state of a session that is
  being shut down.  A step is undisturbed when no assertion fails in it and it throws nothing.
\<close>

definition well_used :: "'h peer \<Rightarrow> 'h peer_event \<Rightarrow> bool" where
  "well_used p e =
    (case e of
       Do_adjourn m h \<Rightarrow> msg_type m = W_goodbye
     | Do_set_state s \<Rightarrow> p_state p \<noteq> Shutting_down
     | _ \<Rightarrow> True)"

definition undisturbed :: "'h peer_effect list \<Rightarrow> bool" where
  "undisturbed xs \<longleftrightarrow> Assertion_failed \<notin> set xs \<and> (\<forall>ec. Threw_failure ec \<notin> set xs)"

inductive client_run :: "'h peer \<Rightarrow> bool" where
  run_init: "client_run (init_peer False c)"
| run_step: "client_run p \<Longrightarrow> well_used p e \<Longrightarrow> undisturbed (snd (peer_step p e)) \<Longrightarrow>
    client_run (fst (peer_step p e))"

text \<open>The wrapper of \<open>adjourn\<close> is only in the table while the session is being shut down.\<close>

definition wrapped :: "'h peer \<Rightarrow> bool" where
  "wrapped p \<longleftrightarrow> \<not> p_is_router p \<and>
     (\<forall>k h. (k, Requested h) \<in> set (p_one_shot p) \<longrightarrow> k = (W_goodbye, 0) \<and> p_state p = Shutting_down)"

text \<open>Operations that at most take entries from the table of one-shot requests or add plain ones\<close>

definition same_session :: "'h peer \<Rightarrow> 'h peer \<Rightarrow> bool" where
  "same_session p q \<longleftrightarrow> p_state q = p_state p \<and> p_is_router q = p_is_router p \<and>
     (\<forall>k h. (k, Requested h) \<in> set (p_one_shot q) \<longrightarrow> (k, Requested h) \<in> set (p_one_shot p))"

lemma same_session_wrapped: "same_session p q \<Longrightarrow> wrapped p \<Longrightarrow> wrapped q"
  unfolding same_session_def wrapped_def by metis

lemma same_session_trans: "same_session p q \<Longrightarrow> same_session q r \<Longrightarrow> same_session p r"
  by (auto simp: same_session_def)

lemma same_session_upd [simp]:
  "same_session p p" "same_session p (p\<lparr>p_next_id := i\<rparr>)" "same_session p (p\<lparr>p_multi_shot := m\<rparr>)"
  "same_session p (p\<lparr>p_terminating := b\<rparr>)" "same_session p (p\<lparr>p_log_level := l\<rparr>)"
  "same_session p (p\<lparr>p_has_state_change := b1, p_has_trace := b2, p_has_warning := b3, p_has_log := b4\<rparr>)"
  "same_session p (p\<lparr>p_one_shot := omap_erase k (p_one_shot p)\<rparr>)"
  "same_session p (p\<lparr>p_one_shot := [], p_multi_shot := []\<rparr>)"
  by (auto simp: same_session_def omap_erase_def)

lemma same_session_send_message: "same_session p (fst (snd (send_message m p)))"
  by (simp add: send_message_peer set_message_request_id_peer)

lemma same_session_send: "same_session p (fst (snd (send m p)))"
  by (simp add: send_def case_prod_beta same_session_send_message)

lemma same_session_send_error: "same_session p (fst (snd (send_error t i m p)))"
  using same_session_send same_session_trans
  by (auto simp: send_error_def Let_def case_prod_beta) blast

lemma Requested_emplace:
  "(k, Requested h) \<in> set (omap_emplace k' v m) \<Longrightarrow> (k, Requested h) = (k', v) \<or> (k, Requested h) \<in> set m"
  using set_omap_put_subset [of k' v m] by (auto simp: omap_emplace_def split: if_splits)

lemma request_pending_table:
  fixes p :: "'h peer" and m :: wamp_message and v :: "'h pending"
  defines "q \<equiv> fst (snd (request_pending m v p))"
  shows "p_state q = p_state p" "p_is_router q = p_is_router p"
    "(k, Requested h) \<in> set (p_one_shot q) \<Longrightarrow>
       (k, Requested h) = (request_key (fst (snd (set_message_request_id m p))), v) \<or>
       (k, Requested h) \<in> set (p_one_shot p)"
  by (auto simp: q_def request_pending_def send_request_def Let_def case_prod_beta
      set_message_request_id_peer omap_erase_def split: option.splits if_splits dest!: Requested_emplace)

lemma same_session_request: "same_session p (fst (snd (request m h p)))"
  using request_pending_table [where m = m and v = "Plain h" and p = p] by (auto simp: same_session_def request_def)

lemma same_session_ongoing: "same_session p (fst (snd (ongoing_request m h p)))"
  by (simp add: same_session_def ongoing_request_def send_request_def Let_def case_prod_beta
      set_message_request_id_peer split: option.split)

lemma same_session_cancel: "same_session p (fst (snd (cancel_call c p)))"
proof -
  have "same_session p (fst (snd (send_message m q)))" if "same_session p q" for m q
    by (rule same_session_trans [OF that same_session_send_message])
  then show ?thesis
    by (simp add: cancel_call_def Let_def case_prod_beta split: option.split)
qed

lemma same_session_reply:
  assumes "\<forall>h. omap_find (p_one_shot p) k \<noteq> Some (Requested h)"
  shows "same_session p (fst (process_wamp_reply k m p))"
proof (cases "omap_find (p_one_shot p) k")
  case None
  then show ?thesis
    by (simp add: process_wamp_reply_def split: option.split sum.split bool.split conversion_error.split)
next
  case (Some v)
  with assms obtain h where "v = Plain h" by (cases v) auto
  with Some show ?thesis by (simp add: process_wamp_reply_def call_pending_def)
qed

lemma wrapped_reply_found:
  assumes "wrapped p" and "omap_find (p_one_shot p) k = Some (Requested h)"
  shows "k = (W_goodbye, 0)" "p_state p = Shutting_down"
    "p_state (fst (process_wamp_reply k m p)) = Closed" "wrapped (fst (process_wamp_reply k m p))"
proof -
  show "k = (W_goodbye, 0)" "p_state p = Shutting_down"
    using assms(1) omap_find_SomeD [OF assms(2)] unfolding wrapped_def by blast+
  show "p_state (fst (process_wamp_reply k m p)) = Closed" "wrapped (fst (process_wamp_reply k m p))"
    using assms
    by (simp_all add: process_wamp_reply_def call_pending_def and_then_def set_state_def
        abort_pending_def emit_def wrapped_def)
qed

text \<open>A step of the state that leaves the tables alone, up to emptying them\<close>

lemma wrapped_set_state: "wrapped p \<Longrightarrow> p_state p \<noteq> Shutting_down \<Longrightarrow> wrapped (p\<lparr>p_state := s\<rparr>)"
  by (auto simp: wrapped_def)

lemma set_state_fst [simp]: "fst (set_state s p) = p\<lparr>p_state := s\<rparr>"
  by (simp add: set_state_def)

lemma undisturbed_simps [simp]:
  "undisturbed (xs @ ys) \<longleftrightarrow> undisturbed xs \<and> undisturbed ys" "undisturbed []"
  "undisturbed (check_that b) \<longleftrightarrow> b"
  by (auto simp: undisturbed_def check_that_def)

lemma and_then_fst: "fst (and_then r f) = fst (f (fst r))"
  and and_then_snd: "snd (and_then r f) = snd r @ snd (f (fst r))"
  by (simp_all add: and_then_def Let_def case_prod_beta)

lemma fail_fst:
  "fst (fail ec info p) = (if p_state p = Failed then p else failed_peer p)"
  by (simp add: fail_result fail_when_failed)

lemma wrapped_failed [simp]: "wrapped p \<Longrightarrow> wrapped (failed_peer p)"
  by (simp add: wrapped_def failed_peer_def)

lemma fail_state: "p_state (fst (fail ec info p)) = Failed" "wrapped p \<Longrightarrow> wrapped (fst (fail ec info p))"
  by (simp_all add: fail_fst) (simp add: failed_peer_def)

text \<open>A reply in any state but during shutdown leaves the state alone.\<close>

lemma reply_in_session:
  assumes "wrapped p"
  shows "wrapped (fst (process_wamp_reply k m p)) \<and>
    (p_state (fst (process_wamp_reply k m p)) = p_state p \<or>
     k = (W_goodbye, 0) \<and> p_state p = Shutting_down \<and> p_state (fst (process_wamp_reply k m p)) = Closed)"
proof (cases "\<exists>h. omap_find (p_one_shot p) k = Some (Requested h)")
  case True
  with wrapped_reply_found [OF assms] show ?thesis by blast
next
  case False
  then have "same_session p (fst (process_wamp_reply k m p))" by (intro same_session_reply) simp
  with same_session_wrapped [OF this assms] show ?thesis by (simp add: same_session_def)
qed

lemma same_session_state: "same_session p q \<Longrightarrow> p_state q = p_state p"
  by (simp add: same_session_def)

lemma erase_wrapper:
  assumes "wrapped p"
  shows "wrapped (p\<lparr>p_state := s, p_one_shot := omap_erase (W_goodbye, 0) (p_one_shot p)\<rparr>)"
  using assms by (simp add: wrapped_def omap_erase_def)

lemma reply_to_goodbye:
  fixes p :: "'h peer"
  assumes "wrapped p"
  defines "q \<equiv> p\<lparr>p_state := Closed\<rparr>"
  shows "wrapped (fst (process_wamp_reply (W_goodbye, 0) m q)) \<and>
    p_state (fst (process_wamp_reply (W_goodbye, 0) m q)) = Closed"
proof (cases "omap_find (p_one_shot p) (W_goodbye, 0)")
  case None
  have "(k, Requested h) \<notin> set (p_one_shot p)" for k h
  proof
    assume e: "(k, Requested h) \<in> set (p_one_shot p)"
    then have "k = (W_goodbye, 0)" using assms(1) unfolding wrapped_def by blast
    with e have "(W_goodbye, 0) \<in> fst ` set (p_one_shot p)" by (auto intro: rev_image_eqI)
    with None show False by (simp add: omap_find_None_iff)
  qed
  then have "wrapped q" using assms(1) by (simp add: wrapped_def q_def)
  moreover from None have "same_session q (fst (process_wamp_reply (W_goodbye, 0) m q))"
    by (intro same_session_reply) (simp add: q_def)
  ultimately show ?thesis
    using same_session_wrapped same_session_state by (fastforce simp: q_def)
next
  case (Some v)
  show ?thesis
  proof (cases v)
    case (Plain h)
    with Some erase_wrapper [OF assms(1), of Closed] show ?thesis
      by (simp add: process_wamp_reply_def call_pending_def q_def)
  next
    case (Requested h)
    with Some assms(1) show ?thesis
      by (simp add: process_wamp_reply_def call_pending_def q_def and_then_fst abort_pending_def
          emit_def wrapped_def)
  qed
qed

text \<open>One case per message that a client may receive\<close>

lemma simulate_challenge:
  assumes "wrapped p" and "undisturbed (snd (process_challenge m p))"
  shows "p_state p = Establishing \<and> p_state (fst (process_challenge m p)) = Authenticating \<and>
    wrapped (fst (process_challenge m p))"
  using assms by (simp add: process_challenge_def and_then_fst and_then_snd emit_def wrapped_set_state)

lemma simulate_welcome:
  assumes "wrapped p" and "undisturbed (snd (process_welcome m p))"
  shows "p_state p \<in> {Establishing, Authenticating} \<and> p_state (fst (process_welcome m p)) = Established \<and>
    wrapped (fst (process_welcome m p))"
proof -
  from assms(2) have s: "p_state p \<in> {Establishing, Authenticating}"
    by (simp add: process_welcome_def and_then_snd)
  then have "wrapped (p\<lparr>p_state := Established\<rparr>)" using assms(1) by (auto intro: wrapped_set_state)
  from reply_in_session [OF this, of "(W_hello, 0)" m] s show ?thesis
    by (simp add: process_welcome_def and_then_fst)
qed

lemma simulate_abort:
  assumes "wrapped p" and "p_state p \<in> {Establishing, Authenticating, Established, Shutting_down}"
  shows "session_move (p_state p) (A_message W_abort) (p_state (fst (process_abort m p))) \<and>
    wrapped (fst (process_abort m p))"
proof (cases "p_state p \<in> {Establishing, Authenticating}")
  case True
  then have "wrapped (p\<lparr>p_state := Closed\<rparr>)" using assms(1) by (auto intro: wrapped_set_state)
  from reply_in_session [OF this, of "(W_hello, 0)" m] True show ?thesis
    by (auto simp: process_abort_def and_then_fst intro: move_refused)
next
  case False
  with assms show ?thesis
    by (auto simp: process_abort_def Let_def fail_state intro: move_aborted move_late_abort)
qed

lemma goodbye_key: "msg_type m = W_goodbye \<Longrightarrow> request_key m = (W_goodbye, 0)"
  by (simp add: request_key_def request_id_of_def lookup_named)

lemma simulate_goodbye:
  assumes "wrapped p" and "msg_type m = W_goodbye" and "undisturbed (snd (process_goodbye m p))"
  shows "p_state (fst (process_goodbye m p)) = Closed \<and> wrapped (fst (process_goodbye m p))"
proof (cases "p_state p = Shutting_down")
  case True
  with reply_to_goodbye [OF assms(1), of m] assms(2) show ?thesis
    by (simp add: process_goodbye_def and_then_fst goodbye_key)
next
  case False
  define ec where "ec = session_ec (snd (lookup_wamp_error_uri (string_field m 2) SE_closeRealm))"
  define r where "r = send (goodbye_message ''wamp.error.goodbye_and_out'' []) (fst (abort_pending ec p))"
  have "wrapped (fst (abort_pending ec p))"
    using assms(1) by (simp add: abort_pending_def wrapped_def)
  then have w: "wrapped (fst (snd r))"
    unfolding r_def using same_session_wrapped same_session_send by blast
  have s: "p_state (fst (snd r)) = p_state p"
    unfolding r_def by (simp add: same_session_state [OF same_session_send]) (simp add: abort_pending_def)
  show ?thesis
  proof (cases "fst r")
    case (Inl e)
    with False assms(3) show ?thesis
      by (simp add: process_goodbye_def Let_def case_prod_beta ec_def r_def) (simp add: undisturbed_def)
  next
    case (Inr b)
    with False w s show ?thesis
      by (simp add: process_goodbye_def Let_def case_prod_beta ec_def r_def and_then_fst wrapped_set_state)
  qed
qed

lemma simulate_reply:
  assumes "wrapped p" and "p_state p \<in> {Established, Shutting_down}"
    and "t \<notin> {W_hello, W_challenge, W_welcome, W_abort, W_goodbye}" and "fst k = W_goodbye \<Longrightarrow> t = W_error"
  shows "session_move (p_state p) (A_message t) (p_state (fst (process_wamp_reply k m p))) \<and>
    wrapped (fst (process_wamp_reply k m p))"
  using reply_in_session [OF assms(1), of k m] assms(2-)
  by (auto intro: move_message move_goodbye_error)

lemma simulate_message:
  assumes p: "wrapped p" and m: "rx_message p b = Some m"
    and u: "undisturbed (snd (process_message m p))"
  shows "session_move (p_state p) (A_message (msg_type m)) (p_state (fst (process_message m p))) \<and>
    wrapped (fst (process_message m p))"
proof -
  let ?t = "msg_type m"
  from m have t: "?t \<in> set named_msg_types"
    by (auto simp: rx_message_Some parse_message_iff conforms_def)
  with m p have rx: "is_valid_rx (lookup_traits ?t) (p_state p) False"
    by (simp add: rx_message_Some wrapped_def)
  then have live: "p_state p \<in> {Establishing, Authenticating, Established, Shutting_down}"
    using is_valid_rx_ready by (auto simp: ready_to_receive_def)
  note matrix = client_rx_matrix [OF t]
  have session: "p_state p \<in> {Established, Shutting_down}"
    if "?t \<notin> {W_welcome, W_abort, W_challenge}"
    using rx that unfolding matrix by (cases "p_state p") auto
  have no_hello: "?t \<noteq> W_hello \<and> ?t \<noteq> W_authenticate \<and> ?t \<noteq> W_yield"
    using rx unfolding matrix by (cases "p_state p") auto
  show ?thesis
  proof (cases "message_replies_to m = W_none")
    case False
    then have special: "?t \<notin> {W_hello, W_challenge, W_welcome, W_abort, W_goodbye}" "message_replies_to m \<noteq> W_goodbye"
      using t by (cases ?t; simp add: message_replies_to_def lookup_named named_code)+
    with simulate_reply [OF p session special(1), of "(message_replies_to m, request_id_of m)" m] False
    show ?thesis by (simp add: process_message_def)
  next
    case True
    consider "?t = W_challenge" | "?t = W_welcome" | "?t = W_abort" | "?t = W_goodbye" | "?t = W_error"
      | "?t \<notin> {W_hello, W_challenge, W_welcome, W_abort, W_goodbye, W_error}"
      using no_hello by auto
    then show ?thesis
    proof cases
      case 1
      with True u simulate_challenge [OF p, of m] show ?thesis
        by (auto simp: process_message_def intro: move_challenge)
    next
      case 2
      with True u simulate_welcome [OF p, of m] show ?thesis
        by (auto simp: process_message_def intro: move_welcome)
    next
      case 3
      with True simulate_abort [OF p live] show ?thesis by (simp add: process_message_def)
    next
      case 4
      with True u simulate_goodbye [OF p] session show ?thesis
        by (auto simp: process_message_def intro: move_goodbye)
    next
      case 5
      with True simulate_reply [OF p session, of W_error "request_key m" m] show ?thesis
        by (simp add: process_message_def)
    next
      case 6
      with True have "fst (process_message m p) = p"
        by (cases ?t) (simp_all add: process_message_def)
      with 6 p session show ?thesis by (auto intro: move_message)
    qed
  qed
qed

lemma rejected_result:
  "rx_message p b = None \<Longrightarrow> fst (on_transport_rx b p) = (if p_state p = Failed then p else failed_peer p)"
  by (erule on_transport_rx_rejected) (simp add: and_then_fst fail_fst)

lemma simulate_rx:
  assumes "wrapped p" and "undisturbed (snd (on_transport_rx b p))"
  shows "session_move (p_state p) (session_event p (Rx b)) (p_state (fst (on_transport_rx b p))) \<and>
    wrapped (fst (on_transport_rx b p))"
proof (cases "rx_message p b")
  case None
  with assms(1) rejected_result [OF None] show ?thesis
    by (auto simp: session_event_def failed_peer_def wrapped_def intro: move_garbage)
next
  case (Some m)
  with assms(2) have "undisturbed (snd (process_message m p))"
    by (simp add: on_transport_rx_accepted and_then_snd)
  with simulate_message [OF assms(1) Some] Some show ?thesis
    by (simp add: session_event_def on_transport_rx_accepted and_then_fst)
qed

lemma simulate_adjourn:
  assumes "wrapped p" and "msg_type m = W_goodbye" and "undisturbed (snd (adjourn m h p))"
  shows "session_move (p_state p) A_leave (p_state (fst (adjourn m h p))) \<and> wrapped (fst (adjourn m h p))"
proof -
  let ?p = "p\<lparr>p_state := Shutting_down\<rparr>"
  have m: "\<not> has_request_id m" using assms(2) by (simp add: has_request_id_def lookup_named)
  have s: "p_state p = Established" using assms(3) by (simp add: adjourn_def and_then_snd)
  have "(k, Requested x) \<in> set (p_one_shot (fst (snd (request_pending m (Requested h) ?p)))) \<Longrightarrow>
      k = (W_goodbye, 0)" for k x
  proof -
    assume "(k, Requested x) \<in> set (p_one_shot (fst (snd (request_pending m (Requested h) ?p))))"
    then have "k = request_key (fst (snd (set_message_request_id m ?p))) \<or> (k, Requested x) \<in> set (p_one_shot p)"
      using request_pending_table(3) [where m = m and v = "Requested h" and p = ?p and k = k and h = x] by auto
    moreover have "(k, Requested x) \<in> set (p_one_shot p) \<Longrightarrow> k = (W_goodbye, 0)"
      using assms(1) unfolding wrapped_def by blast
    ultimately show ?thesis using m assms(2) by (auto simp: set_message_request_id_def goodbye_key)
  qed
  with assms(1) s show ?thesis
    using request_pending_table(1,2) [where m = m and v = "Requested h" and p = ?p]
    by (auto simp: adjourn_def and_then_fst wrapped_def intro: move_leave)
qed

lemma drop_transport_same [simp]:
  "p_state (fst (drop_transport p)) = p_state p" "wrapped (fst (drop_transport p)) = wrapped p"
  by (simp_all add: drop_transport_def wrapped_def split: option.split)

lemma simulate_step:
  assumes p: "wrapped p" and use: "well_used p e" and u: "undisturbed (snd (peer_step p e))"
  shows "wrapped (fst (peer_step p e)) \<and> ((\<forall>s. e \<noteq> Do_set_state s) \<longrightarrow>
    session_move (p_state p) (session_event p e) (p_state (fst (peer_step p e))))"
proof -
  have same: "wrapped q \<and> session_move (p_state p) A_other (p_state q)" if "same_session p q" for q
    using same_session_wrapped [OF that p] same_session_state [OF that] by (simp add: move_other)
  show ?thesis
  proof (cases e)
    case (Do_open t c)
    with u have "p_state p = Connecting" by (simp add: open_peer_def and_then_snd)
    with Do_open p show ?thesis
      by (auto simp: session_event_def open_peer_def and_then_fst wrapped_def intro: move_open)
  next
    case Do_start
    with u have "p_state p \<in> {Closed, Disconnected}" by (simp add: start_def and_then_snd)
    with Do_start p show ?thesis
      by (auto simp: session_event_def start_def and_then_fst wrapped_def intro: move_start
          split: option.split)
  next
    case (Do_adjourn m h)
    with use u simulate_adjourn [OF p, of m h] show ?thesis
      by (simp add: session_event_def well_used_def)
  next
    case Do_close
    have "wrapped (p\<lparr>p_state := Disconnected, p_one_shot := [], p_multi_shot := []\<rparr>)"
      using p by (simp add: wrapped_def)
    with Do_close show ?thesis
      by (simp add: session_event_def close_def and_then_fst abort_pending_def move_close)
  next
    case (Do_set_state s)
    with p use show ?thesis by (simp add: well_used_def wrapped_set_state)
  next
    case (Do_set_handlers a b c d)
    with Do_set_handlers same [OF same_session_upd(6)] show ?thesis
      by (simp add: session_event_def set_log_handler_def set_warning_handler_def
          set_trace_handler_def set_state_change_handler_def)
  next
    case (Rx b)
    with u simulate_rx [OF p, of b] show ?thesis by simp
  qed (use p in \<open>auto simp: session_event_def same same_session_send same_session_send_error
      same_session_request same_session_ongoing same_session_cancel set_terminating_def
      set_log_level_def on_transport_failure_def fail_state intro: move_lost move_lost_closed\<close>)
qed

lemma client_run_wrapped: "client_run p \<Longrightarrow> wrapped p"
proof (induction rule: client_run.induct)
  case (run_init c)
  then show ?case by (simp add: wrapped_def init_peer_def)
next
  case (run_step p e)
  then show ?case using simulate_step by blast
qed

text \<open>
  C2: as long as no assertion fails, what a client peer makes of its state is a move of the
  session as WAMP describes it: \<open>Peer\<close> refines \<open>session_move\<close>.
\<close>

theorem session_refinement:
  assumes "client_run p" and "well_used p e" and "undisturbed (snd (peer_step p e))"
    and "\<And>s. e \<noteq> Do_set_state s"
  shows "session_move (p_state p) (session_event p e) (p_state (fst (peer_step p e)))"
  using simulate_step [OF client_run_wrapped [OF assms(1)] assms(2,3)] assms(4) by blast

text \<open>A client that has sent its HELLO and gets a WELCOME\<close>

definition welcome_fields :: varray where
  "welcome_fields = [V_int 2, V_int 1, V_object []]"

definition greeted_peer :: "nat peer" where
  "greeted_peer = fst (run_machine peer_step (init_peer False (demo_codec [welcome_fields]))
     (demo_events [welcome_fields] @ [Do_start, Do_request (hello_message ''r'') 7]))"

lemma greeted_peer:
  "greeted_peer = (demo_peer [welcome_fields] Establishing)
     \<lparr>p_one_shot := [((W_hello, 0), Plain 7)]\<rparr>"
  "client_run greeted_peer"
proof -
  show "greeted_peer = (demo_peer [welcome_fields] Establishing)\<lparr>p_one_shot := [((W_hello, 0), Plain 7)]\<rparr>"
    by (simp add: greeted_peer_def demo_events_def open_peer_def start_def and_then_def set_state_def
        request_def request_pending_def send_request_def set_message_request_id_def has_request_id_def
        hello_message_def make_message_def lookup_named request_key_def request_id_of_def
        demo_peer_def demo_codec_def init_peer_def Let_def case_prod_beta omap_emplace_def)
  have "client_run (fst (peer_step (fst (peer_step (fst (peer_step (fst (peer_step
      (init_peer False (demo_codec [welcome_fields])) (Do_set_state Connecting)))
      (Do_open \<lparr>tr_started = False, tr_max_tx = 512\<rparr> (demo_codec [welcome_fields])))) Do_start))
      (Do_request (hello_message ''r'') (7 :: nat))))"
    by (intro run_step run_init)
      (simp_all add: well_used_def open_peer_def start_def and_then_def set_state_def
        request_def request_pending_def send_request_def set_message_request_id_def has_request_id_def
        hello_message_def make_message_def lookup_named request_key_def request_id_of_def
        demo_peer_def demo_codec_def init_peer_def Let_def case_prod_beta omap_emplace_def
        undisturbed_def check_that_def hand_to_transport_def trace_tx_def trace_effects_def current_log_level_def)
  then show "client_run greeted_peer"
    by (simp only: greeted_peer_def demo_events_def append_Cons append_Nil run_machine_Cons_fst)
      (simp only: run_machine.simps fst_conv)
qed

lemma welcome_received:
  "rx_message greeted_peer [0] = Some \<lparr>msg_type = W_welcome, msg_fields = welcome_fields\<rparr>"
  by (simp add: greeted_peer rx_message_Some demo_peer_def demo_codec_def init_peer_def
      parse_message_iff conforms_def named_code lookup_named is_valid_rx_def welcome_fields_def)

lemma greeted_welcomed:
  "undisturbed (snd (on_transport_rx [0] greeted_peer)) \<and>
   p_state (fst (on_transport_rx [0] greeted_peer)) = Established"
  unfolding on_transport_rx_accepted [OF welcome_received]
  by (simp add: process_message_def message_replies_to_def lookup_named process_welcome_def
      and_then_def set_state_def process_wamp_reply_def call_pending_def greeted_peer(1)
      demo_peer_def init_peer_def undisturbed_def check_that_def trace_rx_def trace_effects_def
      current_log_level_def Let_def)

theorem session_refinement_witness:
  "session_move Establishing (A_message W_welcome) Established \<and>
   p_state (fst (peer_step greeted_peer (Rx [0]))) = Established"
  using session_refinement [OF greeted_peer(2), of "Rx [0]"] welcome_received greeted_welcomed
  by (simp add: well_used_def session_event_def) (simp add: greeted_peer demo_peer_def)

text \<open>
  A client peer enters the state \<open>established\<close> only by a WELCOME that it receives while its
  session is being established.
\<close>

theorem only_welcome_establishes:
  assumes "client_run p" and "well_used p e" and "undisturbed (snd (peer_step p e))"
    and "\<And>s. e \<noteq> Do_set_state s"
    and "p_state p \<noteq> Established" and "p_state (fst (peer_step p e)) = Established"
  shows "p_state p \<in> {Establishing, Authenticating} \<and>
    (\<exists>b m. e = Rx b \<and> rx_message p b = Some m \<and> msg_type m = W_welcome)"
proof -
  have "session_move (p_state p) (session_event p e) Established"
    using simulate_step [OF client_run_wrapped [OF assms(1)] assms(2,3)] assms(4,6) by auto
  then have "p_state p \<in> {Establishing, Authenticating} \<and> session_event p e = A_message W_welcome"
    by (rule into_established) (use assms(5) in auto)
  then show ?thesis
    by (cases e) (auto simp: session_event_def split: option.splits)
qed

theorem only_welcome_establishes_witness:
  "\<exists>b m. Rx [0] = (Rx b :: nat peer_event) \<and> rx_message greeted_peer b = Some m \<and> msg_type m = W_welcome"
  using only_welcome_establishes [OF greeted_peer(2), of "Rx [0]"] greeted_welcomed
  by (simp add: well_used_def) (simp add: greeted_peer demo_peer_def)

subsection \<open>Cancelled calls\<close>

lemma cancel_message_plain [simp]: "\<not> has_request_id (cancel_message i opts)" "msg_type (cancel_message i opts) = W_cancel"
  by (simp_all add: has_request_id_def cancel_message_def make_message_def lookup_named)



subsection \<open>The end of a session\<close>

text \<open>
  A GOODBYE of the router during an established session answers every pending request with
  the error of its reason, sends a GOODBYE back and closes the session but keeps the transport,
  unless the answer does not fit the transport: then the exception leaves the session
  established.
\<close>

theorem goodbye_from_router:
  assumes "p_state p = Established" and "msg_type m = W_goodbye" and "\<not> p_terminating p"
    and "p_transport p \<noteq> None"
  defines "reply \<equiv> goodbye_message ''wamp.error.goodbye_and_out'' []"
    and "ec \<equiv> session_ec (snd (lookup_wamp_error_uri (string_field m 2) SE_closeRealm))"
  shows "filter is_posted (snd (process_message m p)) = map (\<lambda>h. Post_error h ec) (pending_handlers p) \<and>
    pending_handlers (fst (process_message m p)) = [] \<and>
    p_transport (fst (process_message m p)) = p_transport p \<and>
    (if length (encode (p_codec p) (msg_fields reply)) \<le> p_max_tx p then
       p_state (fst (process_message m p)) = Closed \<and>
       Transport_send (encode (p_codec p) (msg_fields reply)) \<in> set (snd (process_message m p))
     else p_state (fst (process_message m p)) = Established \<and>
       Threw_failure (session_ec SE_payloadSizeExceeded) \<in> set (snd (process_message m p)))"
proof -
  let ?q = "p\<lparr>p_one_shot := [], p_multi_shot := []\<rparr>"
  have r: "\<not> has_request_id reply" "msg_type reply = W_goodbye"
    by (simp_all add: reply_def has_request_id_def goodbye_message_def make_message_def lookup_named)
  have sent: "send reply ?q =
      (if length (encode (p_codec p) (msg_fields reply)) \<le> p_max_tx p then
         (Inr True, ?q, trace_tx reply ?q @ [Transport_send (encode (p_codec p) (msg_fields reply))])
       else (Inl (session_ec SE_payloadSizeExceeded), ?q, []))"
    using r assms(4)
    by (auto simp: send_def send_message_def set_message_request_id_def hand_to_transport_def check_that_def)
  have a: "abort_pending ec p = (?q, map (\<lambda>h. Post_error h ec) (pending_handlers p))"
    using assms(3) by (simp add: abort_pending_def)
  have traces: "filter is_posted (trace_tx m' p') = []" for m' and p' :: "'a peer"
    by (simp add: trace_tx_def trace_effects_def)
  have "process_message m p = process_goodbye m p"
    using assms(2) by (simp add: process_message_def message_replies_to_def lookup_named)
  also have "\<dots> = (if length (encode (p_codec p) (msg_fields reply)) \<le> p_max_tx p then
         and_then (and_then (?q, map (\<lambda>h. Post_error h ec) (pending_handlers p) @
             trace_tx reply ?q @ [Transport_send (encode (p_codec p) (msg_fields reply))]) (set_state Closed))
           (\<lambda>s. (s, if current_log_level s \<le> Log_warning then
                      log_effects s Log_warning
                        (reason_text ''Session ended by peer with reason URI '' m) no_error
                    else []))
       else (?q, map (\<lambda>h. Post_error h ec) (pending_handlers p) @
               [Threw_failure (session_ec SE_payloadSizeExceeded)]))"
    using assms(1) by (simp add: process_goodbye_def Let_def flip: ec_def reply_def) (simp add: a sent)
  finally show ?thesis
    using assms(1)
    by (simp add: and_then_fst and_then_snd pending_handlers_def traces) (simp add: is_posted_def)
qed

theorem goodbye_from_router_witness:
  "let p = (demo_peer [] Established)\<lparr>p_multi_shot := [((W_call, 1), 7)]\<rparr> :: nat peer;
       m = goodbye_message ''wamp.error.system_shutdown'' []
   in filter is_posted (snd (process_message m p)) = [Post_error 7 (session_ec SE_systemShutdown)] \<and>
      p_state (fst (process_message m p)) = Closed"
proof -
  let ?p = "(demo_peer [] Established)\<lparr>p_multi_shot := [((W_call, 1), 7)]\<rparr> :: nat peer"
  let ?m = "goodbye_message ''wamp.error.system_shutdown'' []"
  have "msg_type ?m = W_goodbye \<and> string_field ?m 2 = ''wamp.error.system_shutdown''"
    by (simp add: goodbye_message_def make_message_def string_field_def vec_at_def)
  moreover have "snd (lookup_wamp_error_uri ''wamp.error.system_shutdown'' SE_closeRealm) = SE_systemShutdown"
    by (simp add: lookup_wamp_error_uri_def wamp_error_table_def)
  ultimately show ?thesis
    using goodbye_from_router [of ?p ?m]
    by (simp add: demo_peer_def init_peer_def demo_codec_def pending_handlers_def)
qed

text \<open>
  A client that leaves with a GOODBYE too long for the transport sends nothing and its
  handler gets the error, but the session is left in the state \<open>shuttingDown\<close>, in which another
  \<open>adjourn\<close> trips the assertion.
\<close>

theorem oversized_goodbye_stalls:
  assumes "p_state p = Established" and "msg_type m = W_goodbye"
    and "p_max_tx p < length (encode (p_codec p) (msg_fields m))"
  shows "p_state (fst (adjourn m h p)) = Shutting_down \<and>
    Post_error h (session_ec SE_payloadSizeExceeded) \<in> set (snd (adjourn m h p)) \<and>
    (\<forall>b. Transport_send b \<notin> set (snd (adjourn m h p))) \<and>
    Assertion_failed \<in> set (snd (adjourn m' h' (fst (adjourn m h p))))"
proof -
  have m: "\<not> has_request_id m" using assms(2) by (simp add: has_request_id_def lookup_named)
  have "adjourn m h p = and_then (set_state Shutting_down p)
      (\<lambda>r. (r, [Post_error h (session_ec SE_payloadSizeExceeded)]))"
    using assms m
    by (simp add: adjourn_def request_pending_def send_request_def set_message_request_id_def
        check_that_def and_then_def set_state_def)
  moreover have "Assertion_failed \<in> set (snd (adjourn m' h' q))" if "p_state q = Shutting_down" for q :: "'a peer"
    using that by (simp add: adjourn_def and_then_snd check_that_def)
  ultimately show ?thesis by (auto simp: and_then_fst and_then_snd) (auto simp: set_state_def)
qed

theorem oversized_goodbye_stalls_witness:
  "let p = (demo_peer [] Established)\<lparr>p_max_tx := 2\<rparr> :: nat peer
   in p_state (fst (adjourn (goodbye_message '''' []) 7 p)) = Shutting_down \<and>
      Post_error 7 (session_ec SE_payloadSizeExceeded) \<in> set (snd (adjourn (goodbye_message '''' []) 7 p))"
  using oversized_goodbye_stalls [of "(demo_peer [] Established)\<lparr>p_max_tx := 2\<rparr> :: nat peer" "goodbye_message '''' []" 7]
  by (simp add: demo_peer_def init_peer_def demo_codec_def goodbye_message_def make_message_def)

text \<open>
  A second CHALLENGE is a message that the table of traits lets through while the session is
  being authenticated, and it trips the assertion of \<open>processChallenge\<close>: what a router sends can
  end a client built with assertions.
\<close>

theorem second_challenge_trips_assertion:
  assumes "p_state p = Authenticating" and "\<not> p_is_router p"
    and "decode (p_codec p) b = (no_error, V_array [V_int 4, V_string method, V_object opts])"
  shows "Assertion_failed \<in> set (snd (on_transport_rx b p))"
proof -
  let ?m = "\<lparr>msg_type = W_challenge, msg_fields = [V_int 4, V_string method, V_object opts]\<rparr>"
  have "rx_message p b = Some ?m"
    using assms by (simp add: rx_message_Some parse_message_iff conforms_def named_code lookup_named is_valid_rx_def)
  then show ?thesis
    using assms(1)
    by (simp add: on_transport_rx_accepted and_then_snd process_message_def message_replies_to_def
        lookup_named process_challenge_def check_that_def)
qed

theorem second_challenge_trips_assertion_witness:
  "Assertion_failed \<in> set (snd (on_transport_rx [0]
     (demo_peer [[V_int 4, V_string ''ticket'', V_object []]] Authenticating :: nat peer)))"
  by (rule second_challenge_trips_assertion [of _ _ "''ticket''" "[]"])
    (simp_all add: demo_peer_def init_peer_def demo_codec_def)

text \<open>
  With only the deprecated handlers set, a warning handler silences the trace handler, since the
  log level is then that of warnings.
\<close>

lemma warning_handler_silences_trace:
  "\<not> p_has_log p \<Longrightarrow> p_has_warning p \<Longrightarrow> trace_rx vs p = [] \<and> trace_tx m p = []"
  by (simp add: trace_rx_def trace_tx_def trace_effects_def current_log_level_def log_level_order)

end
