(* ===== verification/Peer_Data.thy ===== *)
theory Peer_Data
  imports Peer
begin

section \<open>What the user hands over and gets (\<open>peerdata.hpp\<close>, \<open>internal/peerdata.ipp\<close>)\<close>

text \<open>
  The classes derived from \<open>Options\<close> and \<open>Payload\<close> are messages; those with members of their own
  are records around one.  The setters return the changed object.  Reading an option at a type
  may throw: \<open>Bad_conversion\<close> is \<open>error::Conversion\<close>, \<open>Bad_access\<close> is \<open>error::Access\<close>.
\<close>

datatype value_error = Bad_conversion | Bad_access

subsection \<open>Options and payloads (\<open>options.hpp\<close>, \<open>payload.hpp\<close>, \<open>internal/wampmessage.hpp\<close>)\<close>

text \<open>Where \<open>MessageWithOptions\<close> and \<open>MessageWithPayload\<close> find the options and the arguments\<close>

definition options_position :: "wamp_msg_type \<Rightarrow> nat" where
  "options_position t =
    (if t \<in> {W_abort, W_goodbye} then 1
     else if t \<in> {W_error, W_event, W_invocation} then 3
     else 2)"

definition args_position :: "wamp_msg_type \<Rightarrow> nat" where
  "args_position t =
    (if t = W_error then 5 else if t \<in> {W_yield, W_result} then 3 else 4)"

definition message_options :: "wamp_message \<Rightarrow> vobject" where
  "message_options m = object_field m (options_position (msg_type m))"

definition set_options :: "vobject \<Rightarrow> wamp_message \<Rightarrow> wamp_message" where
  "set_options ob m =
    m\<lparr>msg_fields := (msg_fields m)[options_position (msg_type m) := V_object ob]\<rparr>"

definition with_option :: "string \<Rightarrow> variant \<Rightarrow> wamp_message \<Rightarrow> wamp_message" where
  "with_option key v m = set_options (omap_emplace key v (message_options m)) m"

definition option_by_key :: "string \<Rightarrow> wamp_message \<Rightarrow> variant" where
  "option_by_key key m =
    (case omap_find (message_options m) key of None \<Rightarrow> V_null | Some v \<Rightarrow> v)"

text \<open>\<open>Variant::to\<close> for the target types that the options are read at\<close>

definition to_bool :: "variant \<Rightarrow> value_error + bool" where
  "to_bool v =
    (case v of
       V_bool b \<Rightarrow> Inr b
     | V_int n \<Rightarrow> Inr (n \<noteq> 0)
     | V_uint n \<Rightarrow> Inr (n \<noteq> 0)
     | V_real x \<Rightarrow> Inr (\<not> double_eq x double_zero)
     | _ \<Rightarrow> Inl Bad_conversion)"

definition to_string :: "variant \<Rightarrow> value_error + string" where
  "to_string v = (case v of V_string s \<Rightarrow> Inr s | _ \<Rightarrow> Inl Bad_conversion)"

definition to_object :: "variant \<Rightarrow> value_error + vobject" where
  "to_object v = (case v of V_object ob \<Rightarrow> Inr ob | _ \<Rightarrow> Inl Bad_conversion)"

definition option_or :: "(variant \<Rightarrow> value_error + 'a) \<Rightarrow> string \<Rightarrow> 'a \<Rightarrow> wamp_message \<Rightarrow> value_error + 'a" where
  "option_or conv key fallback m =
    (case omap_find (message_options m) key of None \<Rightarrow> Inr fallback | Some v \<Rightarrow> conv v)"

definition message_args :: "wamp_message \<Rightarrow> varray" where
  "message_args m = array_field (with_args (args_position (msg_type m)) m) (args_position (msg_type m))"

definition message_kwargs :: "wamp_message \<Rightarrow> vobject" where
  "message_kwargs m =
    object_field (with_kwargs (args_position (msg_type m)) m) (args_position (msg_type m) + 1)"

definition with_arg_list :: "varray \<Rightarrow> wamp_message \<Rightarrow> wamp_message" where
  "with_arg_list vs m = set_arg_list (args_position (msg_type m)) vs m"

definition with_keyword_args :: "vobject \<Rightarrow> wamp_message \<Rightarrow> wamp_message" where
  "with_keyword_args ob m = set_kwargs (args_position (msg_type m)) ob m"

text \<open>\<open>operator[]\<close> of a payload: out of range throws, a new keyword is inserted as null.\<close>

definition payload_arg :: "nat \<Rightarrow> wamp_message \<Rightarrow> variant option" where
  "payload_arg i m = vec_at (message_args m) i"

definition payload_keyword :: "string \<Rightarrow> wamp_message \<Rightarrow> variant \<times> wamp_message" where
  "payload_keyword key m =
    (case omap_find (message_kwargs m) key of
       Some v \<Rightarrow> (v, m)
     | None \<Rightarrow> (V_null, with_keyword_args (omap_put key V_null (message_kwargs m)) m))"

text \<open>Moving the arguments out leaves them empty.\<close>

definition take_args :: "wamp_message \<Rightarrow> varray \<times> wamp_message" where
  "take_args m = (message_args m, with_arg_list [] m)"

definition take_kwargs :: "wamp_message \<Rightarrow> vobject \<times> wamp_message" where
  "take_kwargs m = (message_kwargs m, with_keyword_args [] m)"

subsection \<open>Realms, sessions and authentication\<close>

record realm =
  realm_message :: wamp_message
  realm_captures_abort :: bool

definition make_realm :: "string \<Rightarrow> realm" where
  "make_realm uri = \<lparr>realm_message = hello_message uri, realm_captures_abort = False\<rparr>"

definition realm_uri :: "realm \<Rightarrow> string" where
  "realm_uri r = string_field (realm_message r) 1"

definition capture_abort :: "realm \<Rightarrow> realm" where
  "capture_abort r = r\<lparr>realm_captures_abort := True\<rparr>"

definition realm_with_option :: "string \<Rightarrow> variant \<Rightarrow> realm \<Rightarrow> realm" where
  "realm_with_option key v r = r\<lparr>realm_message := with_option key v (realm_message r)\<rparr>"

definition with_auth_methods :: "string list \<Rightarrow> realm \<Rightarrow> realm" where
  "with_auth_methods methods r = realm_with_option ''authmethods'' (V_array (map V_string methods)) r"

definition with_auth_id :: "string \<Rightarrow> realm \<Rightarrow> realm" where
  "with_auth_id auth_id r = realm_with_option ''authid'' (V_string auth_id) r"

record session_info =
  info_message :: wamp_message
  info_realm :: string

definition session_id :: "session_info \<Rightarrow> session_id" where
  "session_id i = int_field (info_message i) 1"

definition agent_string :: "session_info \<Rightarrow> value_error + string" where
  "agent_string i = option_or to_string ''agent'' '''' (info_message i)"

definition session_roles :: "session_info \<Rightarrow> value_error + vobject" where
  "session_roles i = option_or to_object ''roles'' [] (info_message i)"

definition as_object :: "variant \<Rightarrow> value_error + vobject" where
  "as_object v = (case v of V_object ob \<Rightarrow> Inr ob | _ \<Rightarrow> Inl Bad_access)"

definition supports_roles :: "string list \<Rightarrow> session_info \<Rightarrow> value_error + bool" where
  "supports_roles roles i =
    (if roles = [] then Inr True
     else (case omap_find (message_options (info_message i)) ''roles'' of
         None \<Rightarrow> Inr False
       | Some v \<Rightarrow>
           (case as_object v of
              Inl e \<Rightarrow> Inl e
            | Inr router_roles \<Rightarrow> Inr (list_all (\<lambda>role. omap_find router_roles role \<noteq> None) roles))))"

text \<open>A feature is supported when the router's entry is the boolean true and nothing else.\<close>

fun all_features :: "string list \<Rightarrow> vobject \<Rightarrow> bool" where
  "all_features [] router_features = True"
| "all_features (f # fs) router_features =
    (case omap_find router_features f of
       None \<Rightarrow> False
     | Some v \<Rightarrow> if v \<noteq> V_bool True then False else all_features fs router_features)"

fun role_features :: "(string \<times> string list) list \<Rightarrow> vobject \<Rightarrow> value_error + bool" where
  "role_features [] router_roles = Inr True"
| "role_features ((role, req) # rest) router_roles =
    (case omap_find router_roles role of
       None \<Rightarrow> Inr False
     | Some role_map \<Rightarrow>
         (case as_object role_map of
            Inl e \<Rightarrow> Inl e
          | Inr router_role \<Rightarrow>
              (case omap_find router_role ''features'' of
                 None \<Rightarrow> Inr False
               | Some feature_map \<Rightarrow>
                   (case as_object feature_map of
                      Inl e \<Rightarrow> Inl e
                    | Inr router_features \<Rightarrow>
                        if all_features req router_features then role_features rest router_roles
                        else Inr False))))"

definition supports_features :: "(string \<times> string list) list \<Rightarrow> session_info \<Rightarrow> value_error + bool" where
  "supports_features features i =
    (if features = [] then Inr True
     else (case omap_find (message_options (info_message i)) ''roles'' of
         None \<Rightarrow> Inr False
       | Some v \<Rightarrow>
           (case as_object v of Inl e \<Rightarrow> Inl e | Inr router_roles \<Rightarrow> role_features features router_roles)))"

definition session_auth_id :: "session_info \<Rightarrow> variant" where
  "session_auth_id i = option_by_key ''authid'' (info_message i)"

definition session_auth_role :: "session_info \<Rightarrow> variant" where
  "session_auth_role i = option_by_key ''authrole'' (info_message i)"

definition session_auth_method :: "session_info \<Rightarrow> variant" where
  "session_auth_method i = option_by_key ''authmethod'' (info_message i)"

definition session_auth_provider :: "session_info \<Rightarrow> variant" where
  "session_auth_provider i = option_by_key ''authprovider'' (info_message i)"

text \<open>The optional parts of what \<open>operator<<\<close> prints\<close>

definition show_dict :: "string \<Rightarrow> vobject \<Rightarrow> log_text" where
  "show_dict label ob = (if ob \<noteq> [] then [P_text label, P_variant (V_object ob)] else [])"

definition show_list :: "string \<Rightarrow> varray \<Rightarrow> log_text" where
  "show_list label vs = (if vs \<noteq> [] then [P_text label, P_variant (V_array vs)] else [])"

definition show_payload :: "wamp_message \<Rightarrow> log_text" where
  "show_payload m =
    show_dict '', Details|dict = '' (message_options m) @
    show_list '', Arguments|list = '' (message_args m) @
    show_dict '', ArgumentsKw|dict = '' (message_kwargs m) @ [P_text '' ]'']"

definition show_session_info :: "session_info \<Rightarrow> log_text" where
  "show_session_info i =
    [P_text ''[ Realm|uri = '', P_text (info_realm i), P_text '', Session|id = '', P_number (session_id i)] @
    show_dict '', Details|dict = '' (message_options (info_message i)) @ [P_text '' ]'']"

definition reason_message :: "string \<Rightarrow> wamp_message" where
  "reason_message uri = goodbye_message uri []"

definition authentication :: "string \<Rightarrow> wamp_message" where
  "authentication sig = authenticate_message sig []"

definition with_nonce :: "string \<Rightarrow> wamp_message \<Rightarrow> wamp_message" where
  "with_nonce nonce m = with_option ''nonce'' (V_string nonce) m"

definition with_channel_binding :: "string \<Rightarrow> string \<Rightarrow> wamp_message \<Rightarrow> wamp_message" where
  "with_channel_binding ty dat m =
    with_option ''cbind_data'' (V_string dat) (with_option ''channel_binding'' (V_string ty) m)"

definition challenge_method :: "wamp_message \<Rightarrow> string" where
  "challenge_method m = string_field m 1"

definition challenge_detail :: "wamp_message \<Rightarrow> variant" where
  "challenge_detail m = option_by_key ''challenge'' m"

definition challenge_salt :: "wamp_message \<Rightarrow> variant" where
  "challenge_salt m = option_by_key ''salt'' m"

definition challenge_key_length :: "wamp_message \<Rightarrow> variant" where
  "challenge_key_length m = option_by_key ''keylen'' m"

definition challenge_iterations :: "wamp_message \<Rightarrow> variant" where
  "challenge_iterations m = option_by_key ''iterations'' m"

definition challenge_kdf :: "wamp_message \<Rightarrow> variant" where
  "challenge_kdf m = option_by_key ''kdf'' m"

definition challenge_memory :: "wamp_message \<Rightarrow> variant" where
  "challenge_memory m = option_by_key ''memory'' m"

subsection \<open>Topics, publications and events\<close>

definition make_topic :: "string \<Rightarrow> wamp_message" where
  "make_topic uri = subscribe_message uri"

definition using_prefix_match :: "wamp_message \<Rightarrow> wamp_message" where
  "using_prefix_match m = with_option ''match'' (V_string ''prefix'') m"

definition using_wildcard_match :: "wamp_message \<Rightarrow> wamp_message" where
  "using_wildcard_match m = with_option ''match'' (V_string ''wildcard'') m"

definition topic_uri_of :: "wamp_message \<Rightarrow> string" where
  "topic_uri_of m = string_field m 3"

definition make_pub :: "string \<Rightarrow> wamp_message" where
  "make_pub topic = publish_message topic []"

definition with_excluded_sessions :: "varray \<Rightarrow> wamp_message \<Rightarrow> wamp_message" where
  "with_excluded_sessions ids m = with_option ''exclude'' (V_array ids) m"

definition with_excluded_auth_ids :: "varray \<Rightarrow> wamp_message \<Rightarrow> wamp_message" where
  "with_excluded_auth_ids ids m = with_option ''exclude_authid'' (V_array ids) m"

definition with_excluded_auth_roles :: "varray \<Rightarrow> wamp_message \<Rightarrow> wamp_message" where
  "with_excluded_auth_roles roles m = with_option ''exclude_authrole'' (V_array roles) m"

definition with_eligible_sessions :: "varray \<Rightarrow> wamp_message \<Rightarrow> wamp_message" where
  "with_eligible_sessions ids m = with_option ''eligible'' (V_array ids) m"

definition with_eligible_auth_ids :: "varray \<Rightarrow> wamp_message \<Rightarrow> wamp_message" where
  "with_eligible_auth_ids ids m = with_option ''eligible_authid'' (V_array ids) m"

definition with_eligible_auth_roles :: "varray \<Rightarrow> wamp_message \<Rightarrow> wamp_message" where
  "with_eligible_auth_roles roles m = with_option ''eligible_authrole'' (V_array roles) m"

definition with_exclude_me :: "bool \<Rightarrow> wamp_message \<Rightarrow> wamp_message" where
  "with_exclude_me b m = with_option ''exclude_me'' (V_bool b) m"

definition with_disclose_me :: "bool \<Rightarrow> wamp_message \<Rightarrow> wamp_message" where
  "with_disclose_me b m = with_option ''disclose_me'' (V_bool b) m"

definition event_sub_id :: "wamp_message \<Rightarrow> int" where
  "event_sub_id m = int_field m 1"

definition event_pub_id :: "wamp_message \<Rightarrow> int" where
  "event_pub_id m = int_field m 2"

definition event_publisher :: "wamp_message \<Rightarrow> variant" where
  "event_publisher m = option_by_key ''publisher'' m"

definition event_trust_level :: "wamp_message \<Rightarrow> variant" where
  "event_trust_level m = option_by_key ''trustlevel'' m"

definition event_topic :: "wamp_message \<Rightarrow> variant" where
  "event_topic m = option_by_key ''topic'' m"

definition show_event :: "wamp_message \<Rightarrow> log_text" where
  "show_event m = [P_text ''[ Publication|id = '', P_number (event_pub_id m)] @ show_payload m"

subsection \<open>Procedures, calls and results\<close>

definition make_procedure :: "string \<Rightarrow> wamp_message" where
  "make_procedure uri = register_message uri []"

definition procedure_using_prefix_match :: "wamp_message \<Rightarrow> wamp_message" where
  "procedure_using_prefix_match m = with_option ''match'' (V_string ''prefix'') m"

definition procedure_using_wildcard_match :: "wamp_message \<Rightarrow> wamp_message" where
  "procedure_using_wildcard_match m = with_option ''match'' (V_string ''wildcard'') m"

definition with_disclose_caller :: "bool \<Rightarrow> wamp_message \<Rightarrow> wamp_message" where
  "with_disclose_caller b m = with_option ''disclose_caller'' (V_bool b) m"

text \<open>An \<open>Rpc\<close>; the caller's timeout is in milliseconds.\<close>

record rpc =
  rpc_message :: wamp_message
  rpc_captures_error :: bool
  rpc_caller_timeout :: int
  rpc_cancel_mode :: call_cancel_mode
  rpc_progressive :: bool

definition make_rpc :: "string \<Rightarrow> rpc" where
  "make_rpc uri = \<lparr>rpc_message = call_message uri [], rpc_captures_error = False,
     rpc_caller_timeout = 0, rpc_cancel_mode = Kill, rpc_progressive = False\<rparr>"

definition capture_error :: "rpc \<Rightarrow> rpc" where
  "capture_error r = r\<lparr>rpc_captures_error := True\<rparr>"

definition rpc_with_option :: "string \<Rightarrow> variant \<Rightarrow> rpc \<Rightarrow> rpc" where
  "rpc_with_option key v r = r\<lparr>rpc_message := with_option key v (rpc_message r)\<rparr>"

definition with_progressive_results :: "bool \<Rightarrow> rpc \<Rightarrow> rpc" where
  "with_progressive_results enabled r =
    rpc_with_option ''receive_progress'' (V_bool enabled) (r\<lparr>rpc_progressive := enabled\<rparr>)"

definition with_dealer_timeout :: "u64 \<Rightarrow> rpc \<Rightarrow> rpc" where
  "with_dealer_timeout ms r = rpc_with_option ''timeout'' (V_uint ms) r"

text \<open>A negative timeout throws \<open>error::Logic\<close>: \<open>None\<close>.\<close>

definition set_caller_timeout :: "int \<Rightarrow> rpc \<Rightarrow> rpc option" where
  "set_caller_timeout duration r =
    (if duration < 0 then None else Some (r\<lparr>rpc_caller_timeout := duration\<rparr>))"

text \<open>
  The overloads with a duration or with milliseconds.  A caller's timeout is kept in nanoseconds, the
  ticks of the clock; the outer \<open>None\<close> is the overflow of their count, which is undefined.
\<close>

definition with_dealer_timeout_duration :: "int \<Rightarrow> rpc \<Rightarrow> rpc" where
  "with_dealer_timeout_duration ms r = with_dealer_timeout (word_of_int ms) r"

definition with_caller_timeout :: "int \<Rightarrow> rpc \<Rightarrow> rpc option option" where
  "with_caller_timeout ms r =
    (if - (2 ^ 63) \<le> ms * 1000000 \<and> ms * 1000000 < 2 ^ 63 then Some (set_caller_timeout (ms * 1000000) r) else None)"

definition with_caller_timeout_ms :: "u64 \<Rightarrow> rpc \<Rightarrow> rpc option option" where
  "with_caller_timeout_ms ms r = with_caller_timeout (sint ms) r"

definition rpc_with_disclose_me :: "bool \<Rightarrow> rpc \<Rightarrow> rpc" where
  "rpc_with_disclose_me b r = rpc_with_option ''disclose_me'' (V_bool b) r"

definition with_cancel_mode :: "call_cancel_mode \<Rightarrow> rpc \<Rightarrow> rpc" where
  "with_cancel_mode mode r = r\<lparr>rpc_cancel_mode := mode\<rparr>"

definition make_result :: "varray \<Rightarrow> wamp_message" where
  "make_result vs = with_arg_list vs (result_message [])"

definition with_progress :: "bool \<Rightarrow> wamp_message \<Rightarrow> wamp_message" where
  "with_progress b m = with_option ''progress'' (V_bool b) m"

definition result_is_progressive :: "wamp_message \<Rightarrow> value_error + bool" where
  "result_is_progressive m = option_or to_bool ''progress'' False m"

definition result_request_id :: "wamp_message \<Rightarrow> request_id" where
  "result_request_id m = int_field m 1"

definition show_result :: "wamp_message \<Rightarrow> log_text" where
  "show_result m = [P_text ''[ Request|id = '', P_number (result_request_id m)] @ show_payload m"

text \<open>\<open>Result::yieldMessage\<close>: the request ID is set while the message is still a RESULT.\<close>

definition result_yield_message :: "request_id \<Rightarrow> wamp_message \<Rightarrow> wamp_message" where
  "result_yield_message i m = transform_to_yield (set_request_id i m)"

text \<open>An \<open>Error\<close>, and the one that stands for a thrown \<open>error::BadType\<close>\<close>

definition make_error :: "string \<Rightarrow> wamp_message" where
  "make_error reason = error_message reason []"

definition error_of_bad_type :: "string \<Rightarrow> wamp_message" where
  "error_of_bad_type what = with_arg_list [V_string what] (make_error ''wamp.error.invalid_argument'')"

definition error_reason :: "wamp_message \<Rightarrow> string" where
  "error_reason m = string_field m 4"

definition error_is_set :: "wamp_message \<Rightarrow> bool" where
  "error_is_set m \<longleftrightarrow> error_reason m \<noteq> []"

subsection \<open>Outcomes\<close>

text \<open>
  \<open>Outcome\<close> keeps a result or an error in a union that it constructs and destroys by hand.  The
  storage is the tag and the member that is alive.  Destroying or reading a member that is not
  alive, and constructing over one that is, is undefined: \<open>None\<close>.  A moved-from \<open>Result\<close> or
  \<open>Error\<close> is alive and holds a message without fields.
\<close>

datatype outcome_type = Type_deferred | Type_result | Type_error

datatype outcome_value = No_value | Result_value wamp_message | Error_value wamp_message

record outcome =
  oc_type :: outcome_type
  oc_value :: outcome_value

definition outcome_deferred :: outcome where
  "outcome_deferred = \<lparr>oc_type = Type_deferred, oc_value = No_value\<rparr>"

definition outcome_of_result :: "wamp_message \<Rightarrow> outcome" where
  "outcome_of_result m = \<lparr>oc_type = Type_result, oc_value = Result_value m\<rparr>"

definition outcome_of_error :: "wamp_message \<Rightarrow> outcome" where
  "outcome_of_error m = \<lparr>oc_type = Type_error, oc_value = Error_value m\<rparr>"

definition moved_out :: "wamp_message \<Rightarrow> wamp_message" where
  "moved_out m = m\<lparr>msg_fields := []\<rparr>"

definition outcome_as_result :: "outcome \<Rightarrow> wamp_message option" where
  "outcome_as_result o1 = (case oc_value o1 of Result_value m \<Rightarrow> Some m | _ \<Rightarrow> None)"

definition outcome_as_error :: "outcome \<Rightarrow> wamp_message option" where
  "outcome_as_error o1 = (case oc_value o1 of Error_value m \<Rightarrow> Some m | _ \<Rightarrow> None)"

definition outcome_destruct :: "outcome \<Rightarrow> outcome option" where
  "outcome_destruct this =
    (case oc_type this of
       Type_result \<Rightarrow>
         (case oc_value this of Result_value m \<Rightarrow> Some (this\<lparr>oc_value := No_value\<rparr>) | _ \<Rightarrow> None)
     | Type_error \<Rightarrow>
         (case oc_value this of Error_value m \<Rightarrow> Some (this\<lparr>oc_value := No_value\<rparr>) | _ \<Rightarrow> None)
     | Type_deferred \<Rightarrow> Some this)"

text \<open>Placement new\<close>

definition outcome_construct :: "outcome_value \<Rightarrow> outcome \<Rightarrow> outcome option" where
  "outcome_construct v this = (if oc_value this = No_value then Some (this\<lparr>oc_value := v\<rparr>) else None)"

definition outcome_copy_from :: "outcome \<Rightarrow> outcome \<Rightarrow> outcome option" where
  "outcome_copy_from other this =
    (let this1 = this\<lparr>oc_type := oc_type other\<rparr>
     in case oc_type this1 of
          Type_result \<Rightarrow>
            (case outcome_as_result other of None \<Rightarrow> None | Some m \<Rightarrow> outcome_construct (Result_value m) this1)
        | Type_error \<Rightarrow>
            (case outcome_as_error other of None \<Rightarrow> None | Some m \<Rightarrow> outcome_construct (Error_value m) this1)
        | Type_deferred \<Rightarrow> Some this1)"

text \<open>The new values of the target and of the source\<close>

definition outcome_move_from :: "outcome \<Rightarrow> outcome \<Rightarrow> (outcome \<times> outcome) option" where
  "outcome_move_from other this =
    (case outcome_copy_from other this of
       None \<Rightarrow> None
     | Some this1 \<Rightarrow>
         let other1 = (case oc_value other of
               Result_value m \<Rightarrow> other\<lparr>oc_value := Result_value (moved_out m)\<rparr>
             | Error_value m \<Rightarrow> other\<lparr>oc_value := Error_value (moved_out m)\<rparr>
             | No_value \<Rightarrow> other)
         in case outcome_destruct other1 of
              None \<Rightarrow> None
            | Some other2 \<Rightarrow> Some (this1, other2\<lparr>oc_type := Type_deferred\<rparr>))"

definition outcome_copy_assign :: "outcome \<Rightarrow> outcome \<Rightarrow> outcome option" where
  "outcome_copy_assign other this =
    (if oc_type this \<noteq> oc_type other then
       (case outcome_destruct this of None \<Rightarrow> None | Some this1 \<Rightarrow> outcome_copy_from other this1)
     else case (oc_type this, oc_value this, oc_value other) of
         (Type_result, Result_value m, Result_value m') \<Rightarrow> Some (this\<lparr>oc_value := Result_value m'\<rparr>)
       | (Type_error, Error_value m, Error_value m') \<Rightarrow> Some (this\<lparr>oc_value := Error_value m'\<rparr>)
       | (Type_deferred, _, _) \<Rightarrow> Some this
       | _ \<Rightarrow> None)"

definition outcome_move_assign :: "outcome \<Rightarrow> outcome \<Rightarrow> (outcome \<times> outcome) option" where
  "outcome_move_assign other this =
    (if oc_type this \<noteq> oc_type other then
       (case outcome_destruct this of None \<Rightarrow> None | Some this1 \<Rightarrow> outcome_move_from other this1)
     else case (oc_type this, oc_value this, oc_value other) of
         (Type_result, Result_value m, Result_value m') \<Rightarrow>
           Some (this\<lparr>oc_value := Result_value m'\<rparr>, other\<lparr>oc_value := Result_value (moved_out m')\<rparr>)
       | (Type_error, Error_value m, Error_value m') \<Rightarrow>
           Some (this\<lparr>oc_value := Error_value m'\<rparr>, other\<lparr>oc_value := Error_value (moved_out m')\<rparr>)
       | (Type_deferred, _, _) \<Rightarrow> Some (this, other)
       | _ \<Rightarrow> None)"

definition outcome_destroy :: "outcome \<Rightarrow> outcome option" where
  "outcome_destroy this = map_option (\<lambda>o1. o1\<lparr>oc_type := Type_deferred\<rparr>) (outcome_destruct this)"

subsection \<open>Invocations and interruptions\<close>

definition invocation_request_id :: "wamp_message \<Rightarrow> request_id" where
  "invocation_request_id m = int_field m 1"

definition invocation_registration_id :: "wamp_message \<Rightarrow> int" where
  "invocation_registration_id m = int_field m 2"

definition invocation_is_progressive :: "wamp_message \<Rightarrow> value_error + bool" where
  "invocation_is_progressive m = option_or to_bool ''receive_progress'' False m"

definition invocation_caller :: "wamp_message \<Rightarrow> variant" where
  "invocation_caller m = option_by_key ''caller'' m"

definition invocation_trust_level :: "wamp_message \<Rightarrow> variant" where
  "invocation_trust_level m = option_by_key ''trustlevel'' m"

definition invocation_procedure :: "wamp_message \<Rightarrow> variant" where
  "invocation_procedure m = option_by_key ''procedure'' m"

definition show_invocation :: "wamp_message \<Rightarrow> log_text" where
  "show_invocation m = [P_text ''[ Request|id = '', P_number (invocation_request_id m)] @ show_payload m"

definition interrupt_request_id :: "wamp_message \<Rightarrow> request_id" where
  "interrupt_request_id m = int_field m 1"

definition show_interruption :: "wamp_message \<Rightarrow> log_text" where
  "show_interruption m = [P_text ''[ Request|id = '', P_number (interrupt_request_id m)] @
    show_dict '', Details|dict = '' (message_options m) @ [P_text '' ]'']"

subsection \<open>Messages stay well-formed\<close>

lemma conforms_update:
  assumes "conforms t fs" and "0 < i" and "i < length fs"
    and "type_id_of v = field_types (lookup_traits t) ! i"
  shows "conforms t (fs[i := v])"
proof -
  let ?ts = "field_types (lookup_traits t)"
  from assms(1) have types: "map type_id_of fs = take (length fs) ?ts" by (simp add: conforms_def)
  then have "length ?ts \<ge> length fs" by (metis length_map length_take min.absorb_iff2 min.commute)
  with assms(3,4) types have "map type_id_of (fs[i := v]) = take (length fs) ?ts"
    by (simp add: map_update list_update_same_conv)
  then show ?thesis
    using assms(1,2) by (cases fs; cases i) (auto simp: conforms_def)
qed

lemma conforms_append:
  assumes "conforms t fs" and "length fs < max_size (lookup_traits t)"
    and "type_id_of v = field_types (lookup_traits t) ! length fs"
    and "length fs < length (field_types (lookup_traits t))"
  shows "conforms t (fs @ [v])"
  using assms by (cases fs) (auto simp: conforms_def take_Suc_conv_app_nth)

definition option_types :: "wamp_msg_type list" where
  "option_types = [W_hello, W_welcome, W_abort, W_challenge, W_authenticate, W_goodbye, W_error,
     W_publish, W_subscribe, W_event, W_call, W_cancel, W_result, W_enroll, W_invocation,
     W_interrupt, W_yield]"

definition payload_types :: "wamp_msg_type list" where
  "payload_types = [W_error, W_publish, W_event, W_call, W_result, W_invocation, W_yield]"

lemma options_field:
  assumes "t \<in> set option_types"
  shows "0 < options_position t \<and> options_position t < min_size (lookup_traits t) \<and>
    field_types (lookup_traits t) ! options_position t = T_object"
  using assms by (auto simp: option_types_def options_position_def lookup_named)

lemma payload_fields:
  assumes "t \<in> set payload_types"
  shows "args_position t = min_size (lookup_traits t) \<and>
    max_size (lookup_traits t) = min_size (lookup_traits t) + 2 \<and> 0 < args_position t \<and>
    length (field_types (lookup_traits t)) = 7 \<and> max_size (lookup_traits t) \<le> 7 \<and>
    field_types (lookup_traits t) ! args_position t = T_array \<and>
    field_types (lookup_traits t) ! Suc (args_position t) = T_object"
  using assms by (auto simp: payload_types_def args_position_def lookup_named)

lemma conforms_size: "conforms t fs \<Longrightarrow> min_size (lookup_traits t) \<le> length fs"
  by (simp add: conforms_def)

definition well_formed :: "wamp_message \<Rightarrow> bool" where
  "well_formed m \<longleftrightarrow> conforms (msg_type m) (msg_fields m)"

lemma well_formed_options:
  assumes "well_formed m" and "msg_type m \<in> set option_types"
  shows "well_formed (set_options ob m)"
  using assms options_field [OF assms(2)] conforms_size [of "msg_type m" "msg_fields m"]
  by (auto simp: well_formed_def set_options_def intro!: conforms_update)

lemma well_formed_with_args:
  assumes "well_formed m" and "msg_type m \<in> set payload_types"
  shows "well_formed (with_args (args_position (msg_type m)) m) \<and>
    args_position (msg_type m) < length (msg_fields (with_args (args_position (msg_type m)) m))"
  using assms payload_fields [OF assms(2)] conforms_size [of "msg_type m" "msg_fields m"]
  by (auto simp: well_formed_def with_args_def intro!: conforms_append)

lemma with_args_type [simp]: "msg_type (with_args j m) = msg_type m"
  by (simp add: with_args_def)

lemma well_formed_with_kwargs:
  assumes "well_formed m" and "msg_type m \<in> set payload_types"
  shows "well_formed (with_kwargs (args_position (msg_type m)) m) \<and>
    Suc (args_position (msg_type m)) < length (msg_fields (with_kwargs (args_position (msg_type m)) m))"
proof (cases "length (msg_fields m) \<le> Suc (args_position (msg_type m))")
  case False
  with assms(1) show ?thesis by (simp add: with_kwargs_def)
next
  case True
  let ?m = "with_args (args_position (msg_type m)) m"
  have m: "well_formed ?m" "args_position (msg_type m) < length (msg_fields ?m)"
    using well_formed_with_args [OF assms] by auto
  moreover have "length (msg_fields ?m) \<le> Suc (args_position (msg_type m))"
    using True by (simp add: with_args_def)
  ultimately have "length (msg_fields ?m) = Suc (args_position (msg_type m))" by simp
  with True m payload_fields [OF assms(2)] show ?thesis
    by (auto simp: well_formed_def with_kwargs_def Let_def intro!: conforms_append)
qed

text \<open>What a user can do to a message before it is sent\<close>

datatype edit =
    Add_option string variant
  | Set_options vobject
  | Set_args varray
  | Set_kwargs vobject

primrec apply_edit :: "edit \<Rightarrow> wamp_message \<Rightarrow> wamp_message" where
  "apply_edit (Add_option k v) m = with_option k v m"
| "apply_edit (Set_options ob) m = set_options ob m"
| "apply_edit (Set_args vs) m = with_arg_list vs m"
| "apply_edit (Set_kwargs ob) m = with_keyword_args ob m"

definition editable :: "wamp_msg_type \<Rightarrow> edit \<Rightarrow> bool" where
  "editable t e = (case e of
     Add_option k v \<Rightarrow> t \<in> set option_types | Set_options ob \<Rightarrow> t \<in> set option_types
   | _ \<Rightarrow> t \<in> set payload_types)"

lemma apply_edit_type [simp]: "msg_type (apply_edit e m) = msg_type m"
  by (cases e) (simp_all add: with_option_def set_options_def with_arg_list_def set_arg_list_def
      with_keyword_args_def set_kwargs_def with_kwargs_def with_args_def Let_def)

lemma well_formed_edit:
  assumes "well_formed m" and "editable (msg_type m) e"
  shows "well_formed (apply_edit e m)"
proof (cases e)
  case (Set_args vs)
  with assms(2) have t: "msg_type m \<in> set payload_types" by (simp add: editable_def)
  with well_formed_with_args [OF assms(1) t] payload_fields [OF t] Set_args show ?thesis
    by (auto simp: well_formed_def with_arg_list_def set_arg_list_def Let_def intro!: conforms_update)
next
  case (Set_kwargs ob)
  with assms(2) have t: "msg_type m \<in> set payload_types" by (simp add: editable_def)
  have "msg_type (with_kwargs j m) = msg_type m" for j
    by (simp add: with_kwargs_def with_args_def Let_def)
  with well_formed_with_kwargs [OF assms(1) t] payload_fields [OF t] Set_kwargs show ?thesis
    by (auto simp: well_formed_def with_keyword_args_def set_kwargs_def Let_def intro!: conforms_update)
qed (use assms in \<open>simp_all add: editable_def with_option_def well_formed_options\<close>)

text \<open>
  C23: options, arguments and keyword arguments can be set in any order and number: a message
  with the fields of its type keeps them, so that the receiver's parser takes it as it is.
\<close>

theorem edited_message_parses:
  assumes "parse_message (msg_fields m) = Inr m" and "list_all (editable (msg_type m)) es"
  shows "parse_message (msg_fields (fold apply_edit es m)) = Inr (fold apply_edit es m)"
proof -
  from assms(1) have "well_formed m" by (simp add: parse_message_iff well_formed_def)
  with assms(2) have "well_formed (fold apply_edit es m)"
    by (induction es arbitrary: m) (simp_all add: well_formed_edit)
  then show ?thesis by (simp add: parse_message_iff well_formed_def)
qed

theorem edited_message_parses_witness:
  "parse_message (msg_fields (fold apply_edit
       [Set_kwargs [(''k'', V_null)], Add_option ''disclose_me'' (V_bool True), Set_args [V_int 1]]
       (make_pub ''com.x''))) =
   Inr (with_arg_list [V_int 1] (with_disclose_me True (with_keyword_args [(''k'', V_null)] (make_pub ''com.x''))))"
  using edited_message_parses [of "make_pub ''com.x''"
      "[Set_kwargs [(''k'', V_null)], Add_option ''disclose_me'' (V_bool True), Set_args [V_int 1]]"]
  by (simp add: parse_message_iff conforms_def named_code lookup_named make_pub_def publish_message_def
      make_message_def id_variant_def editable_def option_types_def payload_types_def with_disclose_me_def)

text \<open>
  The first value set for an option stays: a later one for the same key is dropped without
  notice, while other options are not touched.
\<close>

theorem first_option_stays:
  assumes "parse_message (msg_fields m) = Inr m" and "msg_type m \<in> set option_types"
    and "omap_find (message_options m) k = None"
  shows "option_by_key k (with_option k w (with_option k v m)) = v \<and>
    (j \<noteq> k \<longrightarrow> option_by_key j (with_option k w (with_option k v m)) = option_by_key j m)"
proof -
  have options: "message_options (set_options ob m') = ob"
    if "well_formed m'" "msg_type m' \<in> set option_types" for ob m'
    using conforms_size [OF that(1) [unfolded well_formed_def]] options_field [OF that(2)]
    by (auto simp: message_options_def set_options_def object_field_def vec_at_def well_formed_def)
  have m: "well_formed m" using assms(1) by (simp add: parse_message_iff well_formed_def)
  let ?m = "with_option k v m"
  have 1: "message_options ?m = omap_emplace k v (message_options m)"
    using options [OF m assms(2)] by (simp add: with_option_def)
  have "well_formed ?m" "msg_type ?m = msg_type m"
    using m assms(2) by (simp_all add: with_option_def well_formed_options) (simp add: set_options_def)
  then have "message_options (with_option k w ?m) = omap_emplace k w (message_options ?m)"
    using options assms(2) by (simp add: with_option_def)
  then show ?thesis
    using assms(3) by (auto simp: option_by_key_def 1 omap_emplace_find)
qed

theorem first_option_stays_witness:
  "let r = with_progressive_results True (with_progressive_results False (make_rpc ''com.x''))
   in rpc_progressive r \<and> option_by_key ''receive_progress'' (rpc_message r) = V_bool False"
  using first_option_stays [of "call_message ''com.x'' []" "''receive_progress''" "V_bool True" "V_bool False" "[]"]
  by (simp add: with_progressive_results_def rpc_with_option_def make_rpc_def parse_message_iff
      conforms_def named_code lookup_named call_message_def make_message_def id_variant_def
      option_types_def message_options_def object_field_def options_position_def vec_at_def)

subsection \<open>Features of the router\<close>

lemma all_features_iff: "all_features fs ob \<longleftrightarrow> (\<forall>f \<in> set fs. omap_find ob f = Some (V_bool True))"
  by (induction fs) (auto split: option.split)

definition router_feature :: "vobject \<Rightarrow> string \<Rightarrow> string \<Rightarrow> bool" where
  "router_feature roles role f \<longleftrightarrow>
     (\<exists>rm fm. omap_find roles role = Some (V_object rm) \<and> omap_find rm ''features'' = Some (V_object fm) \<and>
        omap_find fm f = Some (V_bool True))"

definition router_role :: "vobject \<Rightarrow> string \<Rightarrow> bool" where
  "router_role roles role \<longleftrightarrow>
     (\<exists>rm fm. omap_find roles role = Some (V_object rm) \<and> omap_find rm ''features'' = Some (V_object fm))"

lemma as_object_simps [simp]: "as_object v = Inr ob \<longleftrightarrow> v = V_object ob" "as_object (V_object ob) = Inr ob"
  by (cases v) (simp_all add: as_object_def)

lemma role_features_iff:
  "role_features fs roles = Inr True \<longleftrightarrow>
     (\<forall>(role, req) \<in> set fs. router_role roles role \<and> (\<forall>f \<in> set req. router_feature roles role f))"
proof (induction fs roles rule: role_features.induct)
  case (2 role req rest roles)
  then show ?case
    by (auto simp: router_role_def router_feature_def all_features_iff split: option.split sum.split)
qed simp

text \<open>
  \<open>supportsFeatures\<close> answers yes exactly when the router's WELCOME has, for every role asked
  for, a dictionary of features in which every feature asked for is the boolean true.
\<close>

theorem supports_features_iff:
  "supports_features fs i = Inr True \<longleftrightarrow>
     fs = [] \<or> (\<exists>roles. omap_find (message_options (info_message i)) ''roles'' = Some (V_object roles) \<and>
       (\<forall>(role, req) \<in> set fs. router_role roles role \<and> (\<forall>f \<in> set req. router_feature roles role f)))"
  by (auto simp: supports_features_def role_features_iff split: option.split sum.split)

definition demo_info :: session_info where
  "demo_info = \<lparr>info_message = make_message W_welcome [id_variant 0, V_int 1, V_object [(''roles'',
     V_object [(''broker'', V_object [(''features'', V_object [(''publisher_exclusion'', V_bool True)])])])]],
     info_realm = ''r''\<rparr>"

theorem supports_features_iff_witness:
  "supports_features [(''broker'', [''publisher_exclusion''])] demo_info = Inr True"
  using supports_features_iff [of "[(''broker'', [''publisher_exclusion''])]" demo_info]
  by (simp add: demo_info_def make_message_def message_options_def object_field_def vec_at_def
      options_position_def router_role_def router_feature_def)

subsection \<open>The storage of outcomes\<close>

definition outcome_ok :: "outcome \<Rightarrow> bool" where
  "outcome_ok o1 =
    (case oc_type o1 of
       Type_deferred \<Rightarrow> oc_value o1 = No_value
     | Type_result \<Rightarrow> (\<exists>m. oc_value o1 = Result_value m)
     | Type_error \<Rightarrow> (\<exists>m. oc_value o1 = Error_value m))"

lemmas outcome_defs = outcome_ok_def outcome_deferred_def outcome_destruct_def outcome_construct_def
  outcome_copy_from_def outcome_move_from_def outcome_copy_assign_def outcome_move_assign_def
  outcome_destroy_def outcome_as_result_def outcome_as_error_def

text \<open>
  No copy, move, assignment or destruction of an outcome touches a member that is not alive
  or leaks one, and the target gets the value of the source.  A moved-from outcome is deferred,
  except after a move assignment between outcomes of the same type.
\<close>

theorem outcome_storage_sound:
  assumes "outcome_ok a" and "outcome_ok b"
  shows "outcome_copy_from b outcome_deferred = Some b \<and>
    outcome_move_from b outcome_deferred = Some (b, outcome_deferred) \<and>
    outcome_copy_assign b a = Some b \<and>
    (\<exists>b'. outcome_move_assign b a = Some (b, b') \<and> outcome_ok b' \<and>
       (oc_type b' = Type_deferred \<longleftrightarrow> oc_type a \<noteq> oc_type b \<or> oc_type b = Type_deferred)) \<and>
    outcome_destroy a = Some outcome_deferred"
proof -
  obtain t v t' v' where "a = \<lparr>oc_type = t, oc_value = v\<rparr>" "b = \<lparr>oc_type = t', oc_value = v'\<rparr>"
    by (cases a; cases b) auto
  with assms show ?thesis by (cases t; cases t') (auto simp: outcome_defs Let_def)
qed

theorem outcome_storage_sound_witness:
  "outcome_copy_assign (outcome_of_error (make_error ''e'')) (outcome_of_result (make_result [])) =
     Some (outcome_of_error (make_error ''e''))"
  using outcome_storage_sound [of "outcome_of_result (make_result [])" "outcome_of_error (make_error ''e'')"]
  by (simp add: outcome_ok_def outcome_of_result_def outcome_of_error_def)

subsection \<open>Timeouts\<close>

lemma caller_timeout_cases:
  "with_caller_timeout_ms ms r =
     (if sint ms < - 9223372036854 \<or> 9223372036854 < sint ms then None
      else if sint ms < 0 then Some None
      else Some (Some (r\<lparr>rpc_caller_timeout := sint ms * 1000000\<rparr>)))"
  by (auto simp: with_caller_timeout_ms_def with_caller_timeout_def set_caller_timeout_def)

text \<open>A negative timeout is an error of the caller's kind, and a long time for the dealer.\<close>

lemma negative_timeouts:
  "with_caller_timeout (-1) r = Some None"
  "with_dealer_timeout_duration (-1) r = with_dealer_timeout (-1) r" "unat (-1 :: u64) = 2 ^ 64 - 1"
  by (simp_all add: with_caller_timeout_def set_caller_timeout_def with_dealer_timeout_duration_def unsigned_minus_1_eq_mask mask_eq_exp_minus_1)

end
