(* ===== verification/Client.thy ===== *)
theory Client
  imports Caller_Timeout Peer_Data
begin

section \<open>The client (\<open>internal/client.hpp\<close>)\<close>

text \<open>
  The state is the members of \<open>Client\<close>, with a \<open>Peer\<close> among them whose handlers are the function
  objects \<open>Requested\<close> and \<open>Adjourned\<close> of the client: a constructor per kind, with what the object
  captures.  \<open>c_posted\<close> are the handlers that the peer has posted to the strand with an error,
  \<open>c_establishing\<close> the \<open>Established\<close> objects that connectors hold.  Whatever the user supplies (completion
  handlers, slots) is an opaque value of type \<open>'u\<close>.  The client runs inside its strand; the
  \<open>safe\<close> variants of the operations only dispatch them there.  \<open>User_dropped\<close> is a completion
  handler destroyed without a call because the client is terminating or an exception left the
  operation, \<open>User_forgotten\<close> one destroyed at the end of an operation that neither calls nor keeps it.
\<close>

subsection \<open>The version and the roles announced\<close>

definition version_parts :: "int \<times> int \<times> int" where
  "version_parts = (0, 11, 1)"

definition version_integer :: int where
  "version_integer = (case version_parts of (major, minor, patch) \<Rightarrow> major * 10000 + minor * 100 + patch)"

definition version_string :: string where
  "version_string = ''0.11.1''"

definition library_agent :: string where
  "library_agent = ''cppwamp-'' @ version_string"

definition role_entry :: "string \<Rightarrow> string list \<Rightarrow> string \<times> variant" where
  "role_entry role features =
    (role, V_object [(''features'', V_object (map (\<lambda>f. (f, V_bool True)) features))])"

definition client_roles :: vobject where
  "client_roles =
    [role_entry ''callee'' [''call_canceling'', ''call_timeout'', ''call_trustlevels'',
       ''caller_identification'', ''pattern_based_registration'', ''progressive_call_results''],
     role_entry ''caller'' [''call_canceling'', ''call_timeout'', ''caller_exclusion'',
       ''caller_identification'', ''progressive_call_results''],
     role_entry ''publisher'' [''publisher_exclusion'', ''publisher_identification'',
       ''subscriber_blackwhite_listing''],
     role_entry ''subscriber'' [''pattern_based_subscription'', ''publication_trustlevels'',
       ''publisher_identification'']]"

subsection \<open>State and effects\<close>

record 'u subscription_record =
  sr_topic :: string
  sr_slot :: 'u

record 'u registration_record =
  rr_call_slot :: 'u
  rr_interrupt_slot :: "'u option"

datatype 'u client_request =
    Joining 'u string bool
  | Leaving 'u
  | Subscribing "'u subscription_record" 'u
  | Unsubscribing
  | Unsubscribing_with 'u
  | Publishing 'u
  | Enrolling "'u registration_record" 'u
  | Unregistering
  | Unregistering_with 'u
  | Calling 'u bool
  | Calling_ongoing 'u bool

text \<open>A wish is the codec that \<open>makeCodec\<close> gives; an attempt is a wish list, an index and the handler.\<close>

record 'u attempt =
  at_wishes :: "codec list"
  at_index :: nat
  at_handler :: 'u

type_synonym 'u local_subs = "(u64, 'u subscription_record) omap"

record 'u client =
  c_peer :: "'u client_request peer"
  c_connector :: bool
  c_establishing :: "'u attempt list"
  c_topics :: "(string, int) omap"
  c_readership :: "(int, 'u local_subs) omap"
  c_registry :: "(int, 'u registration_record) omap"
  c_pending :: "(request_id, int) omap"
  c_scheduler :: scheduler
  c_challenge_handler :: "'u option"
  c_next_slot :: u64
  c_posted :: "('u client_request \<times> error_code) list"

text \<open>What a completion handler or a challenge handler is called with\<close>

datatype user_value =
    Failed_with error_code
  | Connected nat
  | Welcomed session_info
  | Left_with wamp_message
  | Subscribed int u64
  | Published int
  | Registered int
  | Was_removed bool
  | Got_result wamp_message
  | Challenged wamp_message

datatype 'u client_effect =
    Peer_did "'u client_request peer_effect"
  | Timer_did timer_effect
  | User_posted 'u user_value
  | User_dispatched 'u user_value
  | User_called 'u user_value
  | User_dropped 'u
  | User_forgotten 'u
  | Posted_event 'u wamp_message
  | Posted_invocation 'u wamp_message
  | Posted_interrupt 'u wamp_message
  | Strand_yield request_id wamp_message
  | Establish nat
  | Connector_cancel
  | Null_connector
  | Cancel_slot_assigned request_id call_cancel_mode
  | Chit_written "(request_id \<times> call_cancel_mode) option"
  | Error_written wamp_message
  | Abort_written wamp_message
  | Wrong_message wamp_msg_type wamp_msg_type
  | Client_assertion
  | Client_threw

type_synonym 'u client_result = "'u client \<times> 'u client_effect list"

definition init_client :: "codec \<Rightarrow> 'u client" where
  "init_client c =
    \<lparr>c_peer = init_peer False c, c_connector = False, c_establishing = [], c_topics = [],
     c_readership = [], c_registry = [], c_pending = [], c_scheduler = scheduler_create,
     c_challenge_handler = None, c_next_slot = 0, c_posted = []\<rparr>"

definition client_state :: "'u client \<Rightarrow> session_state" where
  "client_state c = p_state (c_peer c)"

subsection \<open>Calling the user\<close>

definition post_user :: "'u \<Rightarrow> user_value \<Rightarrow> 'u client \<Rightarrow> 'u client_effect list" where
  "post_user h v c = [if p_terminating (c_peer c) then User_dropped h else User_posted h v]"

definition dispatch_user :: "'u \<Rightarrow> user_value \<Rightarrow> 'u client \<Rightarrow> 'u client_effect list" where
  "dispatch_user h v c = [if p_terminating (c_peer c) then User_dropped h else User_dispatched h v]"

text \<open>The overload for reusable handlers passes a copy; \<open>User_called\<close> is such a call.\<close>

definition dispatch_reusable :: "'u \<Rightarrow> user_value \<Rightarrow> 'u client \<Rightarrow> 'u client_effect list" where
  "dispatch_reusable h v c = (if p_terminating (c_peer c) then [] else [User_called h v])"

definition check_state :: "session_state \<Rightarrow> 'u \<Rightarrow> 'u client_result \<Rightarrow> 'u client \<Rightarrow> 'u client_result" where
  "check_state expected h continue c =
    (if client_state c = expected then continue
     else (c, post_user h (Failed_with (session_ec SE_invalidState)) c))"

definition client_log :: "log_level \<Rightarrow> log_text \<Rightarrow> error_code \<Rightarrow> 'u client \<Rightarrow> 'u client_effect list" where
  "client_log severity text ec c = map Peer_did (log_effects (c_peer c) severity text ec)"

definition client_log_if :: "log_level \<Rightarrow> log_text \<Rightarrow> 'u client \<Rightarrow> 'u client_effect list" where
  "client_log_if severity text c =
    (if current_log_level (c_peer c) \<le> severity then client_log severity text no_error c else [])"

text \<open>A message of another type than the first one asserted\<close>

definition cast_to :: "wamp_msg_type \<Rightarrow> wamp_message \<Rightarrow> 'u client_effect list" where
  "cast_to t m = (if message_cast_ok t m then [] else [Wrong_message t (msg_type m)])"

subsection \<open>Replies\<close>

definition error_text :: "string \<Rightarrow> wamp_message \<Rightarrow> log_text" where
  "error_text prefix m =
    [P_text prefix, P_text (error_reason m)] @
    show_list '', Args='' (message_args m) @ show_dict '', ArgsKv='' (message_kwargs m)"

text \<open>
  \<open>checkReply\<close> with a handler: whether the reply is as expected, and the effects.  \<open>dispatch\<close> is the
  overload of \<open>dispatchUserHandler\<close> that the type of the handler selects.
\<close>

definition check_reply ::
    "error_code + wamp_message \<Rightarrow> wamp_msg_type \<Rightarrow> session_errc \<Rightarrow>
     (user_value \<Rightarrow> 'u client \<Rightarrow> 'u client_effect list) \<Rightarrow> bool \<Rightarrow> 'u client \<Rightarrow> bool \<times> 'u client_effect list" where
  "check_reply reply t default_errc dispatch captures c =
    (case reply of
       Inl ec \<Rightarrow> (False, dispatch (Failed_with ec) c)
     | Inr m \<Rightarrow>
         if msg_type m = W_error then
           (let (found, errc) = lookup_wamp_error_uri (error_reason m) default_errc;
                has_args = (message_args m \<noteq> [] \<or> message_kwargs m \<noteq> [])
            in (False,
                (if captures then [Error_written m]
                 else if \<not> found \<or> has_args then
                   client_log_if Log_error
                     (error_text (''Expected '' @ name_or (lookup_traits t) '''' @
                        '' reply but got ERROR with URI='') m) c
                 else []) @
                dispatch (Failed_with (session_ec errc)) c))
         else (True, if msg_type m = t then [] else [Wrong_message t (msg_type m)]))"

text \<open>\<open>checkReply\<close> without a handler\<close>

definition check_reply_quietly ::
    "error_code + wamp_message \<Rightarrow> wamp_msg_type \<Rightarrow> 'u client \<Rightarrow> 'u client_effect list" where
  "check_reply_quietly reply t c =
    (let name = name_or (lookup_traits t) '''' in
     case reply of
       Inl ec \<Rightarrow>
         client_log Log_warning [P_text (''Failure receiving reply for '' @ name @ '' message'')] ec c
     | Inr m \<Rightarrow>
         if msg_type m = W_error then
           client_log Log_warning
             (error_text (''Expected reply for '' @ name @ '' message but got ERROR with URI='') m) no_error c
         else (if msg_type m = t then [] else [Wrong_message t (msg_type m)]))"

definition next_slot_id :: "'u client \<Rightarrow> u64 \<times> 'u client" where
  "next_slot_id c = (c_next_slot c, c\<lparr>c_next_slot := c_next_slot c + 1\<rparr>)"

definition add_slot :: "int \<Rightarrow> u64 \<Rightarrow> 'u subscription_record \<Rightarrow> 'u client \<Rightarrow> 'u client" where
  "add_slot sub slot rec c =
    c\<lparr>c_readership := omap_put sub
        (omap_put slot rec (case omap_find (c_readership c) sub of None \<Rightarrow> [] | Some l \<Rightarrow> l))
        (c_readership c)\<rparr>"

definition on_welcome :: "'u \<Rightarrow> wamp_message \<Rightarrow> string \<Rightarrow> 'u client \<Rightarrow> 'u client_result" where
  "on_welcome h m uri c =
    (let c1 = c\<lparr>c_scheduler := fst (scheduler_step (c_scheduler c) Listen)\<rparr>
     in (c1, cast_to W_welcome m @
             dispatch_user h (Welcomed \<lparr>info_message = m, info_realm = uri\<rparr>) c1))"

definition on_join_aborted :: "'u \<Rightarrow> wamp_message \<Rightarrow> bool \<Rightarrow> 'u client \<Rightarrow> 'u client_result" where
  "on_join_aborted h m captures c =
    (let uri = string_field m 2;
         (found, errc) = lookup_wamp_error_uri uri SE_joinError;
         details = object_field m 1
     in (c, cast_to W_abort m @
            (if captures then [Abort_written m]
             else if \<not> found \<or> details \<noteq> [] then
               client_log_if Log_error
                 ([P_text ''JOIN request aborted by peer with error URI='', P_text uri] @
                  show_dict '', Details='' details) c
             else []) @
            dispatch_user h (Failed_with (session_ec errc)) c))"

definition clear_tables :: "'u client \<Rightarrow> 'u client" where
  "clear_tables c = c\<lparr>c_topics := [], c_readership := [], c_registry := []\<rparr>"

text \<open>The \<open>operator()\<close> of the request objects, one by one\<close>

definition on_join_reply :: "'u \<Rightarrow> string \<Rightarrow> bool \<Rightarrow> error_code + wamp_message \<Rightarrow> 'u client \<Rightarrow> 'u client_result" where
  "on_join_reply h uri captures reply c =
    (case reply of
       Inl ec \<Rightarrow> (c, dispatch_user h (Failed_with ec) c)
     | Inr m \<Rightarrow>
         if msg_type m = W_welcome then on_welcome h m uri c else on_join_aborted h m captures c)"

definition on_leave_reply :: "'u \<Rightarrow> error_code + wamp_message \<Rightarrow> 'u client \<Rightarrow> 'u client_result" where
  "on_leave_reply h reply c =
    (let c1 = clear_tables c in
     case reply of
       Inl ec \<Rightarrow> (c1, dispatch_user h (Failed_with ec) c1)
     | Inr m \<Rightarrow> (c1, cast_to W_goodbye m @ dispatch_user h (Left_with m) c1))"

definition on_subscribe_reply ::
    "'u subscription_record \<Rightarrow> 'u \<Rightarrow> error_code + wamp_message \<Rightarrow> 'u client \<Rightarrow> 'u client_result" where
  "on_subscribe_reply rec h reply c =
    (let (ok, xs) = check_reply reply W_subscribed SE_subscribeError (dispatch_user h) False c in
     case (ok, reply) of
       (True, Inr m) \<Rightarrow>
         (let sub = int_field m 2;
              (slot, c1) = next_slot_id c;
              c2 = c1\<lparr>c_topics := omap_emplace (sr_topic rec) sub (c_topics c1)\<rparr>;
              c3 = add_slot sub slot rec c2
          in (c3, xs @ dispatch_user h (Subscribed sub slot) c3))
     | _ \<Rightarrow> (c, xs))"

definition on_unsubscribe_reply :: "'u \<Rightarrow> error_code + wamp_message \<Rightarrow> 'u client \<Rightarrow> 'u client_result" where
  "on_unsubscribe_reply h reply c =
    (let (ok, xs) = check_reply reply W_unsubscribed SE_unsubscribeError (dispatch_user h) False c
     in (c, xs @ (if ok then dispatch_user h (Was_removed True) c else [])))"

definition on_publish_reply :: "'u \<Rightarrow> error_code + wamp_message \<Rightarrow> 'u client \<Rightarrow> 'u client_result" where
  "on_publish_reply h reply c =
    (let (ok, xs) = check_reply reply W_published SE_publishError (dispatch_user h) False c in
     case (ok, reply) of
       (True, Inr m) \<Rightarrow> (c, xs @ dispatch_user h (Published (int_field m 2)) c)
     | _ \<Rightarrow> (c, xs))"

definition on_enroll_reply ::
    "'u registration_record \<Rightarrow> 'u \<Rightarrow> error_code + wamp_message \<Rightarrow> 'u client \<Rightarrow> 'u client_result" where
  "on_enroll_reply rec h reply c =
    (let (ok, xs) = check_reply reply W_registered SE_registerError (dispatch_user h) False c in
     case (ok, reply) of
       (True, Inr m) \<Rightarrow>
         (let reg = int_field m 2;
              c1 = c\<lparr>c_registry := omap_put reg rec (c_registry c)\<rparr>
          in (c1, xs @ dispatch_user h (Registered reg) c1))
     | _ \<Rightarrow> (c, xs))"

definition on_unregister_reply :: "'u \<Rightarrow> error_code + wamp_message \<Rightarrow> 'u client \<Rightarrow> 'u client_result" where
  "on_unregister_reply h reply c =
    (let (ok, xs) = check_reply reply W_unregistered SE_unregisterError (dispatch_user h) False c
     in (c, xs @ (if ok then dispatch_user h (Was_removed True) c else [])))"

definition on_call_reply :: "'u \<Rightarrow> bool \<Rightarrow> error_code + wamp_message \<Rightarrow> 'u client \<Rightarrow> 'u client_result" where
  "on_call_reply h captures reply c =
    (let (ok, xs) = check_reply reply W_result SE_callError (dispatch_user h) captures c in
     case (ok, reply) of
       (True, Inr m) \<Rightarrow> (c, xs @ dispatch_user h (Got_result m) c)
     | _ \<Rightarrow> (c, xs))"

text \<open>\<open>dies\<close> tells whether the request object goes after this reply, and the handler with it.\<close>

definition on_ongoing_reply ::
    "'u \<Rightarrow> bool \<Rightarrow> error_code + wamp_message \<Rightarrow> bool \<Rightarrow> 'u client \<Rightarrow> 'u client_result" where
  "on_ongoing_reply h captures reply dies c =
    (let dispatch = (if dies then dispatch_user h else dispatch_reusable h);
         (ok, xs) = check_reply reply W_result SE_callError dispatch captures c in
     case (ok, reply) of
       (True, Inr m) \<Rightarrow> (c, xs @ dispatch (Got_result m) c)
     | _ \<Rightarrow> (c, xs))"

primrec on_reply ::
    "'u client_request \<Rightarrow> error_code + wamp_message \<Rightarrow> bool \<Rightarrow> 'u client \<Rightarrow> 'u client_result" where
  "on_reply (Joining h uri captures) reply dies c = on_join_reply h uri captures reply c"
| "on_reply (Leaving h) reply dies c = on_leave_reply h reply c"
| "on_reply (Subscribing rec h) reply dies c = on_subscribe_reply rec h reply c"
| "on_reply Unsubscribing reply dies c = (c, check_reply_quietly reply W_unsubscribed c)"
| "on_reply (Unsubscribing_with h) reply dies c = on_unsubscribe_reply h reply c"
| "on_reply (Publishing h) reply dies c = on_publish_reply h reply c"
| "on_reply (Enrolling rec h) reply dies c = on_enroll_reply rec h reply c"
| "on_reply Unregistering reply dies c = (c, check_reply_quietly reply W_unregistered c)"
| "on_reply (Unregistering_with h) reply dies c = on_unregister_reply h reply c"
| "on_reply (Calling h captures) reply dies c = on_call_reply h captures reply c"
| "on_reply (Calling_ongoing h captures) reply dies c = on_ongoing_reply h captures reply dies c"

lemmas on_reply_defs = on_join_reply_def on_leave_reply_def on_subscribe_reply_def
  on_unsubscribe_reply_def on_publish_reply_def on_enroll_reply_def on_unregister_reply_def
  on_call_reply_def on_ongoing_reply_def

subsection \<open>Operations of the peer\<close>

text \<open>
  Inside an inbound message the peer only sends: its effects call no handler.  Otherwise what
  the peer hands to the client is performed at once (\<open>perform\<close>); a posted error waits for the strand.
\<close>

definition peer_sends ::
    "('u client_request peer \<Rightarrow> 'r \<times> 'u client_request peer_result) \<Rightarrow> 'u client \<Rightarrow> 'r \<times> 'u client_result" where
  "peer_sends f c =
    (let (r, p, xs) = f (c_peer c) in (r, c\<lparr>c_peer := p\<rparr>, map Peer_did xs))"

definition authenticate :: "wamp_message \<Rightarrow> 'u client \<Rightarrow> (error_code + bool) \<times> 'u client_result" where
  "authenticate auth c =
    (if client_state c \<noteq> Authenticating then (Inl (session_ec SE_invalidState), c, [])
     else peer_sends (send auth) c)"

definition on_challenge :: "wamp_message \<Rightarrow> 'u client \<Rightarrow> 'u client_result" where
  "on_challenge m c =
    (case c_challenge_handler c of
       Some h \<Rightarrow> (c, cast_to W_challenge m @ dispatch_reusable h (Challenged m) c)
     | None \<Rightarrow>
         (let (_, c1, xs) = authenticate (authentication '''') c
          in (c1, cast_to W_challenge m @
                client_log_if Log_error
                  [P_text ''Received a CHALLENGE with no registered handler (with method='',
                   P_text (challenge_method m), P_text '' extra='',
                   P_variant (V_object (message_options m)), P_text '')''] c @ xs)))"

definition post_event :: "wamp_message \<Rightarrow> 'u subscription_record \<Rightarrow> 'u client_effect" where
  "post_event m rec = Posted_event (sr_slot rec) m"

definition on_event :: "wamp_message \<Rightarrow> 'u client \<Rightarrow> 'u client_result" where
  "on_event m c =
    (c, cast_to W_event m @
        (case omap_find (c_readership c) (event_sub_id m) of
           Some locals \<Rightarrow>
             (if locals = [] then [Client_assertion] else []) @
             map (\<lambda>kv. post_event m (snd kv)) locals
         | None \<Rightarrow>
             client_log_if Log_warning
               [P_text ''Received an EVENT that is not subscribed to (with subId='',
                P_number (event_sub_id m), P_text '' pubId='', P_number (event_pub_id m), P_text '')''] c))"

definition on_invocation :: "wamp_message \<Rightarrow> 'u client \<Rightarrow> 'u client_result" where
  "on_invocation m c =
    (let request = invocation_request_id m; reg = invocation_registration_id m
     in case omap_find (c_registry c) reg of
          Some rec \<Rightarrow>
            (c\<lparr>c_pending := omap_put request reg (c_pending c)\<rparr>,
             cast_to W_invocation m @ [Posted_invocation (rr_call_slot rec) m])
        | None \<Rightarrow>
            (let (_, c1, xs) = peer_sends (send_error W_invocation request
                   (make_error ''wamp.error.no_such_procedure'')) c
             in (c1, cast_to W_invocation m @ xs @
                   client_log Log_warning
                     [P_text ''No matching procedure for INVOCATION with registration ID '', P_number reg]
                     no_error c1)))"

definition on_interrupt :: "wamp_message \<Rightarrow> 'u client \<Rightarrow> 'u client_result" where
  "on_interrupt m c =
    (let request = interrupt_request_id m in
     case omap_find (c_pending c) request of
       None \<Rightarrow> (c, cast_to W_interrupt m)
     | Some reg \<Rightarrow>
         (c\<lparr>c_pending := omap_erase request (c_pending c)\<rparr>,
          cast_to W_interrupt m @
          (case omap_find (c_registry c) reg of
             None \<Rightarrow> []
           | Some rec \<Rightarrow>
               (case rr_interrupt_slot rec of None \<Rightarrow> [] | Some slot \<Rightarrow> [Posted_interrupt slot m]))))"

definition on_inbound :: "wamp_message \<Rightarrow> 'u client \<Rightarrow> 'u client_result" where
  "on_inbound m c =
    (case msg_type m of
       W_challenge \<Rightarrow> on_challenge m c
     | W_event \<Rightarrow> on_event m c
     | W_invocation \<Rightarrow> on_invocation m c
     | W_interrupt \<Rightarrow> on_interrupt m c
     | _ \<Rightarrow> (c, [Client_assertion]))"

primrec perform :: "'u client_request peer_effect \<Rightarrow> 'u client \<Rightarrow> 'u client_result" where
  "perform (Post_error req ec) c = (c\<lparr>c_posted := c_posted c @ [(req, ec)]\<rparr>, [])"
| "perform (Call_handler req m) c = on_reply req (Inr m) True c"
| "perform (Call_kept req m) c = on_reply req (Inr m) False c"
| "perform (Destroyed req) c = (c, [Peer_did (Destroyed req)])"
| "perform (Inbound_message m) c = on_inbound m c"
| "perform (State_changed s) c = (c, [Peer_did (State_changed s)])"
| "perform Transport_start c = (c, [Peer_did Transport_start])"
| "perform (Transport_send b) c = (c, [Peer_did (Transport_send b)])"
| "perform Transport_close c = (c, [Peer_did Transport_close])"
| "perform (Log_message l t ec) c = (c, [Peer_did (Log_message l t ec)])"
| "perform (Warning_text t) c = (c, [Peer_did (Warning_text t)])"
| "perform (Trace_text t) c = (c, [Peer_did (Trace_text t)])"
| "perform Assertion_failed c = (c, [Peer_did Assertion_failed])"
| "perform Null_transport c = (c, [Peer_did Null_transport])"
| "perform Threw_conversion c = (c, [Peer_did Threw_conversion])"
| "perform (Threw_failure ec) c = (c, [Peer_did (Threw_failure ec)])"

fun perform_all :: "'u client_request peer_effect list \<Rightarrow> 'u client \<Rightarrow> 'u client_result" where
  "perform_all [] c = (c, [])"
| "perform_all (x # xs) c = and_then (perform x c) (perform_all xs)"

definition with_peer ::
    "('u client_request peer \<Rightarrow> 'u client_request peer_result) \<Rightarrow> 'u client \<Rightarrow> 'u client_result" where
  "with_peer f c = (let (p, xs) = f (c_peer c) in perform_all xs (c\<lparr>c_peer := p\<rparr>))"

definition ask_peer ::
    "('u client_request peer \<Rightarrow> 'r \<times> 'u client_request peer_result) \<Rightarrow> 'u client \<Rightarrow> 'r \<times> 'u client_result" where
  "ask_peer f c = (let (r, p, xs) = f (c_peer c) in (r, perform_all xs (c\<lparr>c_peer := p\<rparr>)))"

definition request_by :: "wamp_message \<Rightarrow> 'u client_request \<Rightarrow> 'u client \<Rightarrow> 'u client_result" where
  "request_by m req c = snd (ask_peer (request m req) c)"

subsection \<open>Connecting and disconnecting\<close>

text \<open>\<open>at\<close> throws on an empty wish list.\<close>

definition do_connect :: "'u attempt \<Rightarrow> 'u client \<Rightarrow> 'u client_result" where
  "do_connect a c =
    (if at_index a < length (at_wishes a) then
       (c\<lparr>c_connector := True, c_establishing := c_establishing c @ [a]\<rparr>, [Establish (at_index a)])
     else (c, [User_dropped (at_handler a), Client_threw]))"

definition connect :: "codec list \<Rightarrow> 'u \<Rightarrow> 'u client \<Rightarrow> 'u client_result" where
  "connect wishes h c =
    and_then (c, if wishes \<noteq> [] then [] else [Client_assertion])
      (\<lambda>c. check_state Disconnected h
         (and_then (with_peer (\<lambda>p. set_state Connecting (set_terminating False p)) c)
           (\<lambda>c. do_connect \<lparr>at_wishes = wishes, at_index = 0, at_handler = h\<rparr> (c\<lparr>c_connector := False\<rparr>))) c)"

definition on_connect_failure :: "'u attempt \<Rightarrow> error_code \<Rightarrow> 'u client \<Rightarrow> 'u client_result" where
  "on_connect_failure a ec c =
    (if is_transport ec TE_aborted then (c, dispatch_user (at_handler a) (Failed_with ec) c)
     else
       (let new_index = at_index a + 1
        in if new_index < length (at_wishes a) then do_connect (a\<lparr>at_index := new_index\<rparr>) c
           else
             and_then (with_peer (set_state Failed) c)
               (\<lambda>c. (c, dispatch_user (at_handler a)
                  (Failed_with (if 1 < length (at_wishes a) then session_ec SE_allTransportsFailed else ec)) c))))"

text \<open>\<open>Established\<close>: the \<open>k\<close>-th outstanding attempt of the connectors completes.\<close>

definition on_established :: "'u attempt \<Rightarrow> error_code + peer_transport \<Rightarrow> 'u client \<Rightarrow> 'u client_result" where
  "on_established a result c =
    (if p_terminating (c_peer c) then (c, [User_dropped (at_handler a)])
     else
       (case result of
          Inl ec \<Rightarrow> on_connect_failure a ec c
        | Inr t \<Rightarrow>
            if client_state c = Connecting then
              and_then (with_peer (open_peer t (at_wishes a ! at_index a)) c)
                (\<lambda>c. (c, dispatch_user (at_handler a) (Connected (at_index a)) c))
            else (c, post_user (at_handler a) (Failed_with (transport_ec TE_aborted)) c)))"

definition connector_done :: "nat \<Rightarrow> error_code + peer_transport \<Rightarrow> 'u client \<Rightarrow> 'u client_result" where
  "connector_done k result c =
    (case vec_at (c_establishing c) k of
       None \<Rightarrow> (c, [])
     | Some a \<Rightarrow>
         on_established a result
           (c\<lparr>c_establishing := take k (c_establishing c) @ drop (Suc k) (c_establishing c)\<rparr>))"

definition on_scheduler :: "(scheduler \<Rightarrow> scheduler \<times> timer_effect list) \<Rightarrow> 'u client \<Rightarrow> 'u client_result" where
  "on_scheduler f c = (let (s, xs) = f (c_scheduler c) in (c\<lparr>c_scheduler := s\<rparr>, map Timer_did xs))"

definition do_disconnect :: "'u client \<Rightarrow> 'u client_result" where
  "do_disconnect c =
    and_then (c, if client_state c = Connecting
                 then [if c_connector c then Connector_cancel else Null_connector] else [])
      (\<lambda>c. and_then (on_scheduler scheduler_clear ((clear_tables c)\<lparr>c_pending := []\<rparr>)) (with_peer close))"

definition terminate :: "'u client \<Rightarrow> 'u client_result" where
  "terminate c = do_disconnect (c\<lparr>c_peer := set_terminating True (c_peer c)\<rparr>)"

subsection \<open>Joining and leaving\<close>

definition join :: "realm \<Rightarrow> 'u \<Rightarrow> 'u client \<Rightarrow> 'u client_result" where
  "join r h c =
    check_state Closed h
      (let r1 = realm_with_option ''roles'' (V_object client_roles)
             (realm_with_option ''agent'' (V_string library_agent) r)
       in and_then (with_peer start c)
            (request_by (realm_message r1) (Joining h (realm_uri r1) (realm_captures_abort r1)))) c"

definition leave :: "wamp_message \<Rightarrow> 'u \<Rightarrow> 'u client \<Rightarrow> 'u client_result" where
  "leave reason h c =
    check_state Established h
      (and_then (on_scheduler scheduler_clear c) (with_peer (adjourn reason (Leaving h)))) c"

subsection \<open>Publishing and subscribing\<close>

definition subscribe :: "wamp_message \<Rightarrow> 'u \<Rightarrow> 'u \<Rightarrow> 'u client \<Rightarrow> 'u client_result" where
  "subscribe topic slot h c =
    check_state Established h
      (let rec = \<lparr>sr_topic = topic_uri_of topic, sr_slot = slot\<rparr>
       in case omap_find (c_topics c) (sr_topic rec) of
            None \<Rightarrow> request_by topic (Subscribing rec h) c
          | Some sub \<Rightarrow>
              (let (slot_id, c1) = next_slot_id c; c2 = add_slot sub slot_id rec c1
               in (c2, post_user h (Subscribed sub slot_id) c2))) c"

text \<open>
  What the two \<open>unsubscribe\<close> functions share: \<open>None\<close> when the subscription is not in the
  readership, else whether the last slot has gone.
\<close>

definition remove_slot :: "int \<Rightarrow> u64 \<Rightarrow> 'u client \<Rightarrow> (bool \<times> 'u client) option" where
  "remove_slot sub slot c =
    (case omap_find (c_readership c) sub of
       None \<Rightarrow> None
     | Some locals \<Rightarrow>
         (case omap_find locals slot of
            None \<Rightarrow> Some (False, c)
          | Some rec \<Rightarrow>
              (let c1 = (if length locals = 1 then c\<lparr>c_topics := omap_erase (sr_topic rec) (c_topics c)\<rparr> else c);
                   locals1 = omap_erase slot locals
               in if locals1 = [] then
                    Some (True, c1\<lparr>c_readership := omap_erase sub (c_readership c1)\<rparr>)
                  else Some (False, c1\<lparr>c_readership := omap_put sub locals1 (c_readership c1)\<rparr>))))"

definition send_unsubscribe :: "int \<Rightarrow> 'u client \<Rightarrow> 'u client_result" where
  "send_unsubscribe sub c =
    (if client_state c = Established then request_by (unsubscribe_message sub) Unsubscribing c else (c, []))"

definition send_unsubscribe_with :: "int \<Rightarrow> 'u \<Rightarrow> 'u client \<Rightarrow> 'u client_result" where
  "send_unsubscribe_with sub h c =
    check_state Established h (request_by (unsubscribe_message sub) (Unsubscribing_with h) c) c"

definition unsubscribe :: "int \<Rightarrow> u64 \<Rightarrow> 'u client \<Rightarrow> 'u client_result" where
  "unsubscribe sub slot c =
    (case remove_slot sub slot c of
       None \<Rightarrow> (c, [])
     | Some (was_last, c1) \<Rightarrow> if was_last then send_unsubscribe sub c1 else (c1, []))"

definition unsubscribe_with :: "int \<Rightarrow> u64 \<Rightarrow> 'u \<Rightarrow> 'u client \<Rightarrow> 'u client_result" where
  "unsubscribe_with sub slot h c =
    (case remove_slot sub slot c of
       None \<Rightarrow> (c, post_user h (Was_removed False) c)
     | Some (was_last, c1) \<Rightarrow>
         if was_last then send_unsubscribe_with sub h c1 else (c1, [User_forgotten h]))"

definition publish :: "wamp_message \<Rightarrow> 'u client \<Rightarrow> (error_code + bool) \<times> 'u client_result" where
  "publish pub c =
    (if client_state c \<noteq> Established then (Inl (session_ec SE_invalidState), c, [])
     else ask_peer (send pub) c)"

definition publish_with :: "wamp_message \<Rightarrow> 'u \<Rightarrow> 'u client \<Rightarrow> 'u client_result" where
  "publish_with pub h c =
    check_state Established h
      (request_by (with_option ''acknowledge'' (V_bool True) pub) (Publishing h) c) c"

subsection \<open>Registering and calling procedures\<close>

definition enroll :: "wamp_message \<Rightarrow> 'u \<Rightarrow> 'u option \<Rightarrow> 'u \<Rightarrow> 'u client \<Rightarrow> 'u client_result" where
  "enroll procedure call_slot interrupt_slot h c =
    check_state Established h
      (request_by procedure
         (Enrolling \<lparr>rr_call_slot = call_slot, rr_interrupt_slot = interrupt_slot\<rparr> h) c) c"

definition unregister :: "int \<Rightarrow> 'u client \<Rightarrow> 'u client_result" where
  "unregister reg c =
    (case omap_find (c_registry c) reg of
       None \<Rightarrow> (c, [])
     | Some _ \<Rightarrow>
         (let c1 = c\<lparr>c_registry := omap_erase reg (c_registry c)\<rparr>
          in if client_state c1 = Established then request_by (unregister_message reg) Unregistering c1
             else (c1, [])))"

definition unregister_with :: "int \<Rightarrow> 'u \<Rightarrow> 'u client \<Rightarrow> 'u client_result" where
  "unregister_with reg h c =
    (case omap_find (c_registry c) reg of
       None \<Rightarrow> (c, post_user h (Was_removed False) c)
     | Some _ \<Rightarrow>
         (let c1 = c\<lparr>c_registry := omap_erase reg (c_registry c)\<rparr>
          in check_state Established h
               (request_by (unregister_message reg) (Unregistering_with h) c1) c1))"

text \<open>
  What a call leaves behind besides the request: \<open>chit\<close> tells whether the caller wants a chit,
  \<open>cancellable\<close> whether a cancellation slot is connected to the handler, \<open>now\<close> is the clock.
\<close>

definition arm_call :: "rpc \<Rightarrow> request_id \<Rightarrow> bool \<Rightarrow> bool \<Rightarrow> int \<Rightarrow> 'u client \<Rightarrow> 'u client_result" where
  "arm_call r i chit cancellable now c =
    and_then (c, if cancellable then [Cancel_slot_assigned i (rpc_cancel_mode r)] else [])
      (\<lambda>c. and_then
         (if rpc_caller_timeout r \<noteq> 0 then on_scheduler (scheduler_add (rpc_caller_timeout r) i now) c
          else (c, []))
         (emit (if chit then [Chit_written (Some (i, rpc_cancel_mode r))] else [])))"

definition one_shot_call :: "rpc \<Rightarrow> bool \<Rightarrow> bool \<Rightarrow> int \<Rightarrow> 'u \<Rightarrow> 'u client \<Rightarrow> 'u client_result" where
  "one_shot_call r chit cancellable now h c =
    and_then (c, if chit then [Chit_written None] else [])
      (\<lambda>c. check_state Established h
         (let (i, c1, xs) = ask_peer (request (rpc_message r) (Calling h (rpc_captures_error r))) c
          in and_then (c1, xs) (arm_call r i chit cancellable now)) c)"

definition ongoing_call :: "rpc \<Rightarrow> bool \<Rightarrow> bool \<Rightarrow> int \<Rightarrow> 'u \<Rightarrow> 'u client \<Rightarrow> 'u client_result" where
  "ongoing_call r chit cancellable now h c =
    and_then (c, if chit then [Chit_written None] else [])
      (\<lambda>c. check_state Established h
         (let r1 = with_progressive_results True r;
              (i, c1, xs) =
                ask_peer (ongoing_request (rpc_message r1) (Calling_ongoing h (rpc_captures_error r1))) c
          in and_then (c1, xs) (arm_call r1 i chit cancellable now)) c)"

definition cancel_call_by :: "request_id \<Rightarrow> call_cancel_mode \<Rightarrow> 'u client \<Rightarrow> (error_code + bool) \<times> 'u client_result" where
  "cancel_call_by i mode c =
    (if client_state c \<noteq> Established then (Inl (session_ec SE_invalidState), c, [])
     else ask_peer (cancel_call (make_call_cancellation i mode)) c)"

subsection \<open>Answering invocations\<close>

definition yield_error :: "request_id \<Rightarrow> wamp_message \<Rightarrow> 'u client \<Rightarrow> (error_code + bool) \<times> 'u client_result" where
  "yield_error i err c =
    (if client_state c \<noteq> Established then (Inl (session_ec SE_invalidState), c, [])
     else ask_peer (send_error W_invocation i err) (c\<lparr>c_pending := omap_erase i (c_pending c)\<rparr>))"

text \<open>The outer \<open>Inl\<close> is the exception of \<open>isProgressive\<close>.\<close>

definition yield_result ::
    "request_id \<Rightarrow> wamp_message \<Rightarrow> 'u client \<Rightarrow> (value_error + (error_code + bool)) \<times> 'u client_result" where
  "yield_result i result c =
    (if client_state c \<noteq> Established then (Inr (Inl (session_ec SE_invalidState)), c, [])
     else
       (case result_is_progressive result of
          Inl e \<Rightarrow> (Inl e, c, [Client_threw])
        | Inr progressive \<Rightarrow>
            (let c1 = (if progressive then c else c\<lparr>c_pending := omap_erase i (c_pending c)\<rparr>);
                 (done1, c2, xs) = ask_peer (send (result_yield_message i result)) c1
             in if done1 = Inl (session_ec SE_payloadSizeExceeded) then
                  (let (_, c3, ys) = yield_error i (make_error ''wamp.error.payload_size_exceeded'') c2
                   in (Inr done1, c3, xs @ ys))
                else (Inr done1, c2, xs))))"

text \<open>How a slot ends that the client runs for an INVOCATION, an INTERRUPT or an EVENT\<close>

datatype slot_end = Returned outcome | Threw_error wamp_message | Threw_bad_type string

definition rpc_slot_ran :: "request_id \<Rightarrow> slot_end \<Rightarrow> 'u client \<Rightarrow> 'u client_result" where
  "rpc_slot_ran i e c =
    (case e of
       Returned oc \<Rightarrow>
         (case oc_type oc of
            Type_deferred \<Rightarrow> (c, [])
          | Type_result \<Rightarrow>
              (case outcome_as_result oc of None \<Rightarrow> (c, [Client_assertion]) | Some m \<Rightarrow> (c, [Strand_yield i m]))
          | Type_error \<Rightarrow>
              (case outcome_as_error oc of None \<Rightarrow> (c, [Client_assertion]) | Some m \<Rightarrow> (c, [Strand_yield i m])))
     | Threw_error m \<Rightarrow> snd (yield_error i m c)
     | Threw_bad_type what \<Rightarrow>
         (let (r, c1, xs) = yield_error i (error_of_bad_type what) c
          in (c1, xs @ (if is_ok r then [] else [Client_threw]))))"

definition warn_event_error :: "wamp_message \<Rightarrow> int \<Rightarrow> int \<Rightarrow> 'u client \<Rightarrow> 'u client_effect list" where
  "warn_event_error err sub pub c =
    client_log_if Log_error
      [P_text ''EVENT handler reported an error: '', P_variant (V_array (message_args err)),
       P_text '' (with subId='', P_number sub, P_text '' pubId='', P_number pub, P_text '')''] c"

definition event_slot_ran :: "wamp_message \<Rightarrow> slot_end \<Rightarrow> 'u client \<Rightarrow> 'u client_result" where
  "event_slot_ran event e c =
    (case e of
       Returned _ \<Rightarrow> (c, [])
     | Threw_error err \<Rightarrow> (c, warn_event_error err (event_sub_id event) (event_pub_id event) c)
     | Threw_bad_type what \<Rightarrow>
         (c, warn_event_error (error_of_bad_type what) (event_sub_id event) (event_pub_id event) c))"

subsection \<open>Timeouts and posted errors\<close>

text \<open>The handler that \<open>onWelcome\<close> gives to the scheduler cancels the call.\<close>

definition perform_timer :: "timer_effect \<Rightarrow> 'u client \<Rightarrow> 'u client_result" where
  "perform_timer x c =
    (case x of
       Timed_out i \<Rightarrow> snd (cancel_call_by i Kill_no_wait c)
     | _ \<Rightarrow> (c, [Timer_did x]))"

fun perform_timers :: "timer_effect list \<Rightarrow> 'u client \<Rightarrow> 'u client_result" where
  "perform_timers [] c = (c, [])"
| "perform_timers (x # xs) c = and_then (perform_timer x c) (perform_timers xs)"

definition on_timer_done :: "int \<Rightarrow> 'u client \<Rightarrow> 'u client_result" where
  "on_timer_done ec c =
    (let (s, xs) = scheduler_step (c_scheduler c) (Timer_done ec)
     in perform_timers xs (c\<lparr>c_scheduler := s\<rparr>))"

definition run_posted :: "'u client \<Rightarrow> 'u client_result" where
  "run_posted c =
    (case c_posted c of
       [] \<Rightarrow> (c, [])
     | (req, ec) # rest \<Rightarrow> on_reply req (Inl ec) True (c\<lparr>c_posted := rest\<rparr>))"

subsection \<open>Everything that can happen to a client\<close>

datatype 'u client_event =
    Ev_connect "codec list" 'u
  | Ev_connector_done nat "error_code + peer_transport"
  | Ev_join realm 'u
  | Ev_authenticate wamp_message
  | Ev_leave wamp_message 'u
  | Ev_disconnect
  | Ev_terminate
  | Ev_subscribe wamp_message 'u 'u
  | Ev_unsubscribe int u64
  | Ev_unsubscribe_with int u64 'u
  | Ev_publish wamp_message
  | Ev_publish_with wamp_message 'u
  | Ev_enroll wamp_message 'u "'u option" 'u
  | Ev_unregister int
  | Ev_unregister_with int 'u
  | Ev_call rpc bool bool int 'u
  | Ev_ongoing_call rpc bool bool int 'u
  | Ev_cancel_call request_id call_cancel_mode
  | Ev_yield_result request_id wamp_message
  | Ev_yield_error request_id wamp_message
  | Ev_rpc_slot_ran request_id slot_end
  | Ev_event_slot_ran wamp_message slot_end
  | Ev_timer_done int
  | Ev_posted
  | Ev_received bytes
  | Ev_receive_failed error_code
  | Ev_send_failed error_code
  | Ev_set_log_level log_level
  | Ev_set_handlers bool bool bool bool
  | Ev_set_challenge_handler "'u option"

primrec client_step :: "'u client \<Rightarrow> 'u client_event \<Rightarrow> 'u client_result" where
  "client_step c (Ev_connect wishes h) = connect wishes h c"
| "client_step c (Ev_connector_done k result) = connector_done k result c"
| "client_step c (Ev_join r h) = join r h c"
| "client_step c (Ev_authenticate auth) = snd (authenticate auth c)"
| "client_step c (Ev_leave reason h) = leave reason h c"
| "client_step c Ev_disconnect = do_disconnect c"
| "client_step c Ev_terminate = terminate c"
| "client_step c (Ev_subscribe topic slot h) = subscribe topic slot h c"
| "client_step c (Ev_unsubscribe sub slot) = unsubscribe sub slot c"
| "client_step c (Ev_unsubscribe_with sub slot h) = unsubscribe_with sub slot h c"
| "client_step c (Ev_publish pub) = snd (publish pub c)"
| "client_step c (Ev_publish_with pub h) = publish_with pub h c"
| "client_step c (Ev_enroll proc call intr h) = enroll proc call intr h c"
| "client_step c (Ev_unregister reg) = unregister reg c"
| "client_step c (Ev_unregister_with reg h) = unregister_with reg h c"
| "client_step c (Ev_call r chit cancellable now h) = one_shot_call r chit cancellable now h c"
| "client_step c (Ev_ongoing_call r chit cancellable now h) = ongoing_call r chit cancellable now h c"
| "client_step c (Ev_cancel_call i mode) = snd (cancel_call_by i mode c)"
| "client_step c (Ev_yield_result i m) = snd (yield_result i m c)"
| "client_step c (Ev_yield_error i m) = snd (yield_error i m c)"
| "client_step c (Ev_rpc_slot_ran i e) = rpc_slot_ran i e c"
| "client_step c (Ev_event_slot_ran m e) = event_slot_ran m e c"
| "client_step c (Ev_timer_done ec) = on_timer_done ec c"
| "client_step c Ev_posted = run_posted c"
| "client_step c (Ev_received buffer) = with_peer (on_transport_rx buffer) c"
| "client_step c (Ev_receive_failed ec) = with_peer (on_transport_failure ec ''Transport receive failure'') c"
| "client_step c (Ev_send_failed ec) = with_peer (on_transport_failure ec ''Transport send failure'') c"
| "client_step c (Ev_set_log_level l) = (c\<lparr>c_peer := set_log_level l (c_peer c)\<rparr>, [])"
| "client_step c (Ev_set_handlers log warn tr st) =
     (c\<lparr>c_peer := set_log_handler log (set_warning_handler warn
        (set_trace_handler tr (set_state_change_handler st (c_peer c))))\<rparr>, [])"
| "client_step c (Ev_set_challenge_handler h) = (c\<lparr>c_challenge_handler := h\<rparr>, [])"

end
