(* ===== verification/Peer_Replies.thy ===== *)
theory Peer_Replies
  imports Peer_Session
begin

section \<open>What the tables of a peer hold\<close>

text \<open>
  The owner of a peer knows more about its tables than the peer: which handlers go with which
  requests.  \<open>one_kind\<close> relates the keys to the handlers of the one-shot table, \<open>many_kind\<close> to
  those of the other one; \<open>keeps_kinds\<close> says that an operation of a client's peer keeps to both, calls a
  handler only with a message that answers the request under whose key it was, and hands on
  only the messages that a client's peer does.
\<close>

definition answers :: "request_key \<Rightarrow> wamp_message \<Rightarrow> bool" where
  "answers k m \<longleftrightarrow> msg_type m \<in> set named_msg_types \<and>
    ((message_replies_to m \<noteq> W_none \<and> k = (message_replies_to m, request_id_of m)) \<or>
    (msg_type m \<in> {W_error, W_goodbye} \<and> k = request_key m) \<or>
    (msg_type m \<in> {W_welcome, W_abort} \<and> k = (W_hello, 0)))"

type_synonym 'h kind = "request_key \<Rightarrow> 'h \<Rightarrow> bool"

definition kinds_ok :: "'h kind \<Rightarrow> 'h kind \<Rightarrow> 'h peer \<Rightarrow> bool" where
  "kinds_ok one_kind many_kind p \<longleftrightarrow> \<not> p_is_router p \<and>
    (\<forall>e \<in> set (p_one_shot p). one_kind (fst e) (pending_handler (snd e))) \<and>
    (\<forall>e \<in> set (p_multi_shot p). many_kind (fst e) (snd e))"

definition inbound_types :: "wamp_msg_type set" where
  "inbound_types = {W_challenge, W_event, W_invocation, W_interrupt}"

fun effect_fits :: "'h kind \<Rightarrow> 'h kind \<Rightarrow> 'h peer_effect \<Rightarrow> bool" where
  "effect_fits one_kind many_kind (Call_handler h m) \<longleftrightarrow>
     (\<exists>k. answers k m \<and> (one_kind k h \<or> many_kind k h))"
| "effect_fits one_kind many_kind (Call_kept h m) \<longleftrightarrow> (\<exists>k. answers k m \<and> many_kind k h)"
| "effect_fits one_kind many_kind (Post_error h ec) \<longleftrightarrow> (\<exists>k. one_kind k h \<or> many_kind k h)"
| "effect_fits one_kind many_kind (Inbound_message m) \<longleftrightarrow> msg_type m \<in> inbound_types"
| "effect_fits one_kind many_kind _ \<longleftrightarrow> True"

definition keeps_kinds :: "'h kind \<Rightarrow> 'h kind \<Rightarrow> 'h peer_result \<Rightarrow> bool" where
  "keeps_kinds one_kind many_kind r \<longleftrightarrow> kinds_ok one_kind many_kind (fst r) \<and>
    list_all (effect_fits one_kind many_kind) (snd r)"

lemma keeps_pair [simp]:
  "keeps_kinds Q R (p, xs) \<longleftrightarrow> kinds_ok Q R p \<and> list_all (effect_fits Q R) xs"
  by (simp add: keeps_kinds_def)

lemma fits_simps [simp]:
  "list_all (effect_fits Q R) (check_that c)" "list_all (effect_fits Q R) (log_effects p l t ec)"
  "list_all (effect_fits Q R) (trace_rx vs p)" "list_all (effect_fits Q R) (trace_tx m p)"
  "list_all (effect_fits Q R) (hand_to_transport b p)"
  by (simp_all add: check_that_def log_effects_def trace_rx_def trace_tx_def trace_effects_def
      hand_to_transport_def)

lemma kinds_upd [simp]:
  "kinds_ok Q R (p\<lparr>p_transport := t\<rparr>) = kinds_ok Q R p" "kinds_ok Q R (p\<lparr>p_state := s\<rparr>) = kinds_ok Q R p"
  "kinds_ok Q R (p\<lparr>p_codec := c\<rparr>) = kinds_ok Q R p" "kinds_ok Q R (p\<lparr>p_next_id := i\<rparr>) = kinds_ok Q R p"
  "kinds_ok Q R (p\<lparr>p_max_tx := n\<rparr>) = kinds_ok Q R p" "kinds_ok Q R (p\<lparr>p_log_level := l\<rparr>) = kinds_ok Q R p"
  "kinds_ok Q R (p\<lparr>p_terminating := b\<rparr>) = kinds_ok Q R p" "kinds_ok Q R (p\<lparr>p_has_log := b\<rparr>) = kinds_ok Q R p"
  "kinds_ok Q R (p\<lparr>p_has_warning := b\<rparr>) = kinds_ok Q R p" "kinds_ok Q R (p\<lparr>p_has_trace := b\<rparr>) = kinds_ok Q R p"
  "kinds_ok Q R (p\<lparr>p_has_state_change := b\<rparr>) = kinds_ok Q R p"
  by (simp_all add: kinds_ok_def)

lemma kinds_erase:
  assumes "kinds_ok Q R p"
  shows "kinds_ok Q R (p\<lparr>p_one_shot := omap_erase k (p_one_shot p)\<rparr>)"
    "kinds_ok Q R (p\<lparr>p_multi_shot := omap_erase k (p_multi_shot p)\<rparr>)"
    "kinds_ok Q R (p\<lparr>p_one_shot := [], p_multi_shot := []\<rparr>)"
  using assms by (auto simp: kinds_ok_def omap_erase_def)

lemma kinds_found:
  assumes "kinds_ok Q R p"
  shows "omap_find (p_one_shot p) k = Some v \<Longrightarrow> Q k (pending_handler v)"
    "omap_find (p_multi_shot p) k = Some h \<Longrightarrow> R k h"
  using assms by (auto simp: kinds_ok_def dest!: omap_find_SomeD)

lemma keeps_and_then:
  "keeps_kinds Q R r \<Longrightarrow> (\<And>q. kinds_ok Q R q \<Longrightarrow> keeps_kinds Q R (f q)) \<Longrightarrow> keeps_kinds Q R (and_then r f)"
  by (auto simp: and_then_def keeps_kinds_def Let_def case_prod_beta)

lemma fits_posted:
  assumes "kinds_ok Q R p" and "h \<in> set (pending_handlers p)"
  shows "\<exists>k. Q k h \<or> R k h"
  using assms by (force simp: kinds_ok_def pending_handlers_def)

lemma keeps_abort_pending: "kinds_ok Q R p \<Longrightarrow> keeps_kinds Q R (abort_pending ec p)"
  using fits_posted [of Q R p] by (auto simp: abort_pending_def kinds_erase list_all_iff)

lemma keeps_basic:
  assumes "kinds_ok Q R p"
  shows "keeps_kinds Q R (set_state s p)" "keeps_kinds Q R (drop_transport p)"
    "list_all (effect_fits Q R) xs \<Longrightarrow> keeps_kinds Q R (emit xs p)"
  using assms by (simp_all add: set_state_def drop_transport_def emit_def split: option.split)

lemma keeps_fail: "kinds_ok Q R p \<Longrightarrow> keeps_kinds Q R (fail ec info p)"
  by (auto simp: fail_def intro!: keeps_and_then keeps_basic keeps_abort_pending)

lemma keeps_close: "kinds_ok Q R p \<Longrightarrow> keeps_kinds Q R (close p)"
  by (auto simp: close_def intro!: keeps_and_then keeps_basic keeps_abort_pending)

lemma keeps_open: "kinds_ok Q R p \<Longrightarrow> keeps_kinds Q R (open_peer t c p)"
  unfolding open_peer_def by (intro keeps_and_then) (simp_all add: keeps_basic)

lemma keeps_start: "kinds_ok Q R p \<Longrightarrow> keeps_kinds Q R (start p)"
  by (auto simp: start_def intro!: keeps_and_then keeps_basic split: option.splits)

lemma keeps_send_message: "kinds_ok Q R p \<Longrightarrow> keeps_kinds Q R (snd (send_message m p))"
  by (simp add: send_message_def Let_def case_prod_beta set_message_request_id_peer)

lemma keeps_send: "kinds_ok Q R p \<Longrightarrow> keeps_kinds Q R (snd (send m p))"
  by (simp add: send_def case_prod_beta keeps_send_message)

lemma keeps_fst: "keeps_kinds Q R r \<Longrightarrow> kinds_ok Q R (fst r)"
  and keeps_snd: "keeps_kinds Q R r \<Longrightarrow> list_all (effect_fits Q R) (snd r)"
  by (simp_all add: keeps_kinds_def)

lemma keeps_send_error: "kinds_ok Q R p \<Longrightarrow> keeps_kinds Q R (snd (send_error t i err p))"
  by (auto simp: send_error_def Let_def case_prod_beta
      intro!: keeps_send keeps_fst [OF keeps_send] keeps_snd [OF keeps_send])

lemma keeps_cancel_call: "kinds_ok Q R p \<Longrightarrow> keeps_kinds Q R (snd (cancel_call c p))"
  by (auto simp: cancel_call_def Let_def case_prod_beta kinds_erase split: option.split
      intro!: keeps_fst [OF keeps_send_message] keeps_snd [OF keeps_send_message]
      dest: kinds_found)

lemma message_key_type:
  "msg_type m \<noteq> W_error \<Longrightarrow> fst (request_key (fst (snd (set_message_request_id m p)))) = msg_type m"
  by (simp add: set_message_request_id_def case_prod_beta request_key_def set_request_id_def Let_def)

locale kinds_map =
  fixes get :: "'h peer \<Rightarrow> (request_key, 'v) omap"
    and upd :: "((request_key, 'v) omap \<Rightarrow> (request_key, 'v) omap) \<Rightarrow> 'h peer \<Rightarrow> 'h peer"
    and handler_of :: "'v \<Rightarrow> 'h"
    and kind :: "'h kind \<Rightarrow> 'h kind \<Rightarrow> 'h kind"
  assumes kinds_emplace:
      "kinds_ok Q R p \<Longrightarrow> kind Q R k (handler_of v) \<Longrightarrow> kinds_ok Q R (upd (omap_emplace k v) p)"
    and kinds_drop: "kinds_ok Q R p \<Longrightarrow> kinds_ok Q R (upd (omap_erase k) p)"
    and kind_found: "kinds_ok Q R p \<Longrightarrow> omap_find (get p) k = Some v \<Longrightarrow> kind Q R k (handler_of v)"
    and kind_either: "kind Q R k h \<Longrightarrow> Q k h \<or> R k h"
begin

lemma keeps_send_request:
  assumes p: "kinds_ok Q R p" and m: "msg_type m \<noteq> W_error"
    and new: "\<And>i. kind Q R (msg_type m, i) (handler_of v)"
  shows "keeps_kinds Q R (snd (send_request get upd handler_of m v p))"
proof -
  define q where "q = snd (snd (set_message_request_id m p))"
  define k where "k = request_key (fst (snd (set_message_request_id m p)))"
  have q: "kinds_ok Q R q" using p by (simp add: q_def set_message_request_id_peer)
  have "fst k = msg_type m" unfolding k_def by (rule message_key_type [OF m])
  then have k: "kind Q R k (handler_of v)" using new by (cases k) simp
  then have posted: "\<exists>k. Q k (handler_of v) \<or> R k (handler_of v)" using kind_either by blast
  show ?thesis
  proof (cases "omap_find (get q) k")
    case None
    with posted kinds_emplace [OF q k] q show ?thesis
      by (auto simp: send_request_def Let_def case_prod_beta k_def [symmetric] q_def [symmetric])
  next
    case (Some old)
    with kind_found [OF q Some] have "\<exists>k. Q k (handler_of old) \<or> R k (handler_of old)"
      using kind_either by blast
    with Some posted kinds_emplace [OF kinds_drop [OF q] k] q show ?thesis
      by (auto simp: send_request_def Let_def case_prod_beta k_def [symmetric] q_def [symmetric])
  qed
qed

end

interpretation one_shot_kinds: kinds_map p_one_shot p_one_shot_update pending_handler "\<lambda>Q R. Q"
proof (unfold_locales, goal_cases)
  case (1 Q R p k v)
  then show ?case using set_omap_emplace [of k v "p_one_shot p"] by (auto simp: kinds_ok_def)
next
  case (2 Q R p k)
  then show ?case by (auto simp: kinds_ok_def omap_erase_def)
next
  case (3 Q R p k v)
  then show ?case by (rule kinds_found)
qed simp

interpretation multi_shot_kinds: kinds_map p_multi_shot p_multi_shot_update id "\<lambda>Q R. R"
proof (unfold_locales, goal_cases)
  case (1 Q R p k v)
  then show ?case using set_omap_emplace [of k v "p_multi_shot p"] by (auto simp: kinds_ok_def)
next
  case (2 Q R p k)
  then show ?case by (auto simp: kinds_ok_def omap_erase_def)
next
  case (3 Q R p k v)
  then show ?case by (simp add: kinds_found)
qed simp

lemma keeps_request:
  assumes "kinds_ok Q R p" and "msg_type m \<noteq> W_error" and "\<And>i. Q (msg_type m, i) h"
  shows "keeps_kinds Q R (snd (request m h p))"
  using one_shot_kinds.keeps_send_request [OF assms(1,2), of "Plain h"] assms(3)
  by (simp add: request_def request_pending_def)

lemma keeps_ongoing:
  assumes "kinds_ok Q R p" and "msg_type m \<noteq> W_error" and "\<And>i. R (msg_type m, i) h"
  shows "keeps_kinds Q R (snd (ongoing_request m h p))"
  using multi_shot_kinds.keeps_send_request [OF assms(1,2), of h] assms(3)
  by (simp add: ongoing_request_def)

lemma keeps_adjourn:
  assumes "kinds_ok Q R p" and "msg_type m \<noteq> W_error" and "\<And>i. Q (msg_type m, i) h"
  shows "keeps_kinds Q R (adjourn m h p)"
  using one_shot_kinds.keeps_send_request [of Q R _ m "Requested h"] assms
  unfolding adjourn_def
  by (intro keeps_and_then) (simp_all add: request_pending_def keeps_basic)

lemma keeps_call_pending:
  assumes "kinds_ok Q R p" and "answers k m" and "Q k (pending_handler v)"
  shows "keeps_kinds Q R (call_pending v m p)"
proof -
  from assms(2,3) have "\<exists>k. answers k m \<and> (Q k (pending_handler v) \<or> R k (pending_handler v))" by blast
  with assms(1) show ?thesis
    by (cases v)
      (simp_all del: split_paired_Ex add: call_pending_def emit_def keeps_and_then keeps_basic keeps_abort_pending)
qed

lemma keeps_process_wamp_reply:
  assumes p: "kinds_ok Q R p" and m: "answers k m"
  shows "keeps_kinds Q R (process_wamp_reply k m p)"
proof (cases "omap_find (p_one_shot p) k")
  case (Some v)
  then show ?thesis
    by (simp add: process_wamp_reply_def keeps_call_pending [OF kinds_erase(1) [OF p] m] kinds_found(1) [OF p])
next
  case None
  show ?thesis
  proof (cases "omap_find (p_multi_shot p) k")
    case Nonem: None
    with None p show ?thesis by (simp add: process_wamp_reply_def)
  next
    case (Some h)
    from kinds_found(2) [OF p Some] m have "\<exists>k. answers k m \<and> R k h" by blast
    with None Some p kinds_erase(2) [OF p, of k] show ?thesis
      by (auto simp: process_wamp_reply_def split: sum.split bool.split conversion_error.split)
  qed
qed

lemma client_inbound:
  assumes "is_valid_rx (lookup_traits t) s False" and "t \<in> set named_msg_types"
    and "replies_to (lookup_traits t) = W_none"
  shows "t \<in> {W_challenge, W_welcome, W_abort, W_goodbye, W_error} \<union> inbound_types"
  using assms
  by (cases t; cases s) (simp_all add: is_valid_rx_def lookup_named named_code inbound_types_def)

lemma keeps_process_goodbye: "kinds_ok Q R p \<Longrightarrow> msg_type m = W_goodbye \<Longrightarrow> keeps_kinds Q R (process_goodbye m p)"
  by (auto simp: named_code process_goodbye_def Let_def case_prod_beta answers_def split: sum.split
      intro!: keeps_and_then keeps_basic keeps_process_wamp_reply keeps_fst [OF keeps_send]
        keeps_snd [OF keeps_send] keeps_fst [OF keeps_abort_pending] keeps_snd [OF keeps_abort_pending])

lemma keeps_process_message:
  assumes "kinds_ok Q R p" and "is_valid_rx (lookup_traits (msg_type m)) (p_state p) False"
    and "msg_type m \<in> set named_msg_types"
  shows "keeps_kinds Q R (process_message m p)"
proof (cases "message_replies_to m = W_none")
  case True
  then have t: "msg_type m \<in> {W_challenge, W_welcome, W_abort, W_goodbye, W_error} \<union> inbound_types"
    using client_inbound [OF assms(2,3)] by (simp add: message_replies_to_def)
  have "keeps_kinds Q R (process_welcome m p)" if "msg_type m = W_welcome"
    using assms that
    by (auto simp: process_welcome_def answers_def intro!: keeps_and_then keeps_basic keeps_process_wamp_reply)
  moreover have "keeps_kinds Q R (process_abort m p)" if "msg_type m = W_abort"
    using assms that
    by (auto simp: process_abort_def answers_def Let_def
        intro!: keeps_and_then keeps_basic keeps_process_wamp_reply keeps_fail)
  moreover have "keeps_kinds Q R (process_challenge m p)" if "msg_type m = W_challenge"
    using assms that
    by (auto simp: process_challenge_def inbound_types_def intro!: keeps_and_then keeps_basic)
  moreover have "keeps_kinds Q R (process_wamp_reply (request_key m) m p)" if "msg_type m = W_error"
    using assms that by (auto simp: answers_def intro!: keeps_process_wamp_reply)
  ultimately show ?thesis
    using t True assms(1) keeps_process_goodbye [OF assms(1), of m]
    by (auto simp: process_message_def inbound_types_def)
next
  case False
  with assms show ?thesis
    by (simp add: process_message_def keeps_process_wamp_reply answers_def)
qed

lemma keeps_rx:
  assumes "kinds_ok Q R p"
  shows "keeps_kinds Q R (on_transport_rx b p)"
proof (cases "rx_message p b")
  case None
  with assms show ?thesis
    by (auto simp: on_transport_rx_def rx_message_def protocol_violation_def Let_def
        split: variant.split sum.split prod.split if_splits intro!: keeps_and_then keeps_fail)
next
  case (Some m)
  then have "is_valid_rx (lookup_traits (msg_type m)) (p_state p) False" "msg_type m \<in> set named_msg_types"
    using assms by (auto simp: rx_message_Some kinds_ok_def parse_message_iff conforms_def)
  then have "keeps_kinds Q R (process_message m p)" by (rule keeps_process_message [OF assms])
  then show ?thesis
    using on_transport_rx_accepted [OF Some] assms
    by (simp add: and_then_def Let_def case_prod_beta keeps_kinds_def)
qed

end
