(* ===== verification/Client_Handlers.thy ===== *)
theory Client_Handlers
  imports Client Peer_Replies
begin

section \<open>The client and its handlers\<close>

subsection \<open>Which request object waits for which reply\<close>

primrec request_type :: "'u client_request \<Rightarrow> wamp_msg_type" where
  "request_type (Joining h uri captures) = W_hello"
| "request_type (Leaving h) = W_goodbye"
| "request_type (Subscribing rec h) = W_subscribe"
| "request_type Unsubscribing = W_unsubscribe"
| "request_type (Unsubscribing_with h) = W_unsubscribe"
| "request_type (Publishing h) = W_publish"
| "request_type (Enrolling rec h) = W_enroll"
| "request_type Unregistering = W_unregister"
| "request_type (Unregistering_with h) = W_unregister"
| "request_type (Calling h captures) = W_call"
| "request_type (Calling_ongoing h captures) = W_call"

definition one_kind :: "'u client_request kind" where
  "one_kind k req \<longleftrightarrow> fst k = request_type req"

definition many_kind :: "'u client_request kind" where
  "many_kind k req \<longleftrightarrow> fst k = W_call \<and> (\<exists>h captures. req = Calling_ongoing h captures)"

text \<open>The completion handler of a request object\<close>

primrec request_users :: "'u client_request \<Rightarrow> 'u multiset" where
  "request_users (Joining h uri captures) = {#h#}"
| "request_users (Leaving h) = {#h#}"
| "request_users (Subscribing rec h) = {#h#}"
| "request_users Unsubscribing = {#}"
| "request_users (Unsubscribing_with h) = {#h#}"
| "request_users (Publishing h) = {#h#}"
| "request_users (Enrolling rec h) = {#h#}"
| "request_users Unregistering = {#}"
| "request_users (Unregistering_with h) = {#h#}"
| "request_users (Calling h captures) = {#h#}"
| "request_users (Calling_ongoing h captures) = {#h#}"

definition users :: "'u client_request multiset \<Rightarrow> 'u multiset" where
  "users reqs = sum_mset (image_mset request_users reqs)"

text \<open>The completion handlers that wait, and those that an effect disposes of\<close>

definition waiting_elsewhere :: "'u client \<Rightarrow> 'u multiset" where
  "waiting_elsewhere c =
    users (mset (map fst (c_posted c))) + mset (map at_handler (c_establishing c))"

definition users_waiting :: "'u client \<Rightarrow> 'u multiset" where
  "users_waiting c = users (held (c_peer c)) + waiting_elsewhere c"

fun disposes :: "'u client_effect \<Rightarrow> 'u multiset" where
  "disposes (Peer_did x) = users (released_by x)"
| "disposes (User_posted h v) = {#h#}"
| "disposes (User_dispatched h v) = {#h#}"
| "disposes (User_dropped h) = {#h#}"
| "disposes (User_forgotten h) = {#h#}"
| "disposes _ = {#}"

definition disposed :: "'u client_effect list \<Rightarrow> 'u multiset" where
  "disposed xs = (\<Sum>x \<leftarrow> xs. disposes x)"

text \<open>The assertions of the client hold, but for the one on the reply to a GOODBYE or a HELLO.\<close>

fun asserts_well :: "'u client_effect \<Rightarrow> bool" where
  "asserts_well Client_assertion \<longleftrightarrow> False"
| "asserts_well (Wrong_message t t') \<longleftrightarrow> t \<in> {W_goodbye, W_abort} \<and> t' = W_error"
| "asserts_well _ \<longleftrightarrow> True"

definition client_ok :: "'u client \<Rightarrow> bool" where
  "client_ok c \<longleftrightarrow> peer_ok (c_peer c) \<and> kinds_ok one_kind many_kind (c_peer c) \<and>
    (\<forall>e \<in> set (c_readership c). snd e \<noteq> [])"

definition settles :: "'u multiset \<Rightarrow> 'u client_result \<Rightarrow> bool" where
  "settles hs r \<longleftrightarrow> client_ok (fst r) \<and> users_waiting (fst r) + disposed (snd r) = hs \<and>
    list_all asserts_well (snd r)"

subsection \<open>Calculating with it\<close>

lemma users_simps [simp]:
  "users {#} = {#}" "users (add_mset r M) = request_users r + users M" "users (M + N) = users M + users N"
  by (simp_all add: users_def)

lemma disposed_simps [simp]:
  "disposed [] = {#}" "disposed (x # xs) = disposes x + disposed xs"
  "disposed (xs @ ys) = disposed xs + disposed ys"
  by (simp_all add: disposed_def)

lemma disposed_peer [simp]: "disposed (map Peer_did xs) = users (released xs)"
  by (induction xs) simp_all

lemma disposed_timers [simp]: "disposed (map Timer_did xs) = {#}"
  by (induction xs) simp_all

lemma asserts_well_map [simp]: "list_all asserts_well (map Peer_did xs)" "list_all asserts_well (map Timer_did ts)"
  by (simp_all add: list_all_iff)

lemma users_waiting_upd [simp]:
  "users_waiting (c\<lparr>c_topics := a\<rparr>) = users_waiting c" "users_waiting (c\<lparr>c_readership := b\<rparr>) = users_waiting c"
  "users_waiting (c\<lparr>c_registry := d\<rparr>) = users_waiting c" "users_waiting (c\<lparr>c_pending := e\<rparr>) = users_waiting c"
  "users_waiting (c\<lparr>c_scheduler := f\<rparr>) = users_waiting c" "users_waiting (c\<lparr>c_next_slot := g\<rparr>) = users_waiting c"
  "users_waiting (c\<lparr>c_connector := i\<rparr>) = users_waiting c"
  "users_waiting (c\<lparr>c_challenge_handler := j\<rparr>) = users_waiting c"
  by (simp_all add: users_waiting_def waiting_elsewhere_def)

lemma client_ok_upd [simp]:
  "client_ok (c\<lparr>c_topics := a\<rparr>) = client_ok c" "client_ok (c\<lparr>c_registry := d\<rparr>) = client_ok c"
  "client_ok (c\<lparr>c_pending := e\<rparr>) = client_ok c" "client_ok (c\<lparr>c_scheduler := f\<rparr>) = client_ok c"
  "client_ok (c\<lparr>c_next_slot := g\<rparr>) = client_ok c" "client_ok (c\<lparr>c_connector := i\<rparr>) = client_ok c"
  "client_ok (c\<lparr>c_posted := p\<rparr>) = client_ok c" "client_ok (c\<lparr>c_establishing := q\<rparr>) = client_ok c"
  "client_ok (c\<lparr>c_challenge_handler := j\<rparr>) = client_ok c"
  by (simp_all add: client_ok_def)

lemma settles_pair [simp]:
  "settles hs (c, xs) \<longleftrightarrow> client_ok c \<and> users_waiting c + disposed xs = hs \<and> list_all asserts_well xs"
  by (simp add: settles_def)

lemma settles_and_then:
  assumes "settles hs r" and "\<And>c. client_ok c \<Longrightarrow> settles (users_waiting c + M) (f c)"
  shows "settles (hs + M) (and_then r f)"
  using assms(2) [of "fst r"] assms(1)
  by (auto simp: settles_def and_then_def Let_def case_prod_beta ac_simps)

lemma settles_then:
  assumes "settles hs r" and "\<And>c. client_ok c \<Longrightarrow> settles (users_waiting c) (f c)"
  shows "settles hs (and_then r f)"
  using settles_and_then [of hs r "{#}" f] assms by simp

lemma settles_cong: "settles hs r \<Longrightarrow> hs = hs' \<Longrightarrow> settles hs' r"
  by simp

lemma disposed_user [simp]:
  "disposed (post_user h v c) = {#h#}" "disposed (dispatch_user h v c) = {#h#}"
  "disposed (dispatch_reusable h v c) = {#}"
  "list_all asserts_well (post_user h v c)" "list_all asserts_well (dispatch_user h v c)"
  "list_all asserts_well (dispatch_reusable h v c)"
  by (simp_all add: post_user_def dispatch_user_def dispatch_reusable_def)

lemma disposed_logs [simp]:
  "disposed (client_log l t ec c) = {#}" "disposed (client_log_if l t c) = {#}"
  "list_all asserts_well (client_log l t ec c)" "list_all asserts_well (client_log_if l t c)"
  by (simp_all add: client_log_def client_log_if_def)

lemma disposed_cast [simp]: "disposed (cast_to t m) = {#}"
  by (simp add: cast_to_def)

lemma asserts_cast [simp]:
  "list_all asserts_well (cast_to t m) \<longleftrightarrow> msg_type m = t \<or> t \<in> {W_goodbye, W_abort} \<and> msg_type m = W_error"
  by (auto simp: cast_to_def message_cast_ok_def)

subsection \<open>Replies and inbound messages\<close>

lemma replies_to_cases:
  assumes "t \<in> set named_msg_types" and "replies_to (lookup_traits t) \<noteq> W_none"
  shows "(t, replies_to (lookup_traits t)) \<in> {(W_published, W_publish), (W_subscribed, W_subscribe),
    (W_unsubscribed, W_unsubscribe), (W_result, W_call), (W_registered, W_enroll),
    (W_unregistered, W_unregister), (W_authenticate, W_challenge), (W_yield, W_invocation)}"
  by (cases t) (use assms in \<open>simp_all add: lookup_named named_code\<close>)

lemma answered_type:
  assumes "answers k m" and "fst k = t"
  shows "t = W_subscribe \<Longrightarrow> msg_type m \<in> {W_error, W_subscribed}"
    "t = W_unsubscribe \<Longrightarrow> msg_type m \<in> {W_error, W_unsubscribed}"
    "t = W_publish \<Longrightarrow> msg_type m \<in> {W_error, W_published}"
    "t = W_enroll \<Longrightarrow> msg_type m \<in> {W_error, W_registered}"
    "t = W_unregister \<Longrightarrow> msg_type m \<in> {W_error, W_unregistered}"
    "t = W_call \<Longrightarrow> msg_type m \<in> {W_error, W_result}"
    "t = W_goodbye \<Longrightarrow> msg_type m \<in> {W_error, W_goodbye}"
    "t = W_hello \<Longrightarrow> msg_type m \<in> {W_error, W_welcome, W_abort}"
  using assms replies_to_cases [of "msg_type m"]
  by (auto simp: answers_def message_replies_to_def request_key_def Let_def split: if_splits)

text \<open>\<open>checkReply\<close>: a reply that is not as expected has disposed of the handler.\<close>

lemma check_reply_settles:
  assumes "\<And>v. disposed (dispatch v c) = M" "\<And>v. list_all asserts_well (dispatch v c)"
    and "case reply of Inl ec \<Rightarrow> True | Inr m \<Rightarrow> msg_type m \<in> {W_error, t}"
    and "check_reply reply t e dispatch captures c = (ok, xs)"
  shows "list_all asserts_well xs" "disposed xs = (if ok then {#} else M)"
    "ok \<Longrightarrow> \<exists>m. reply = Inr m \<and> msg_type m = t"
  using assms
  by (auto simp: check_reply_def Let_def case_prod_beta split: sum.splits if_splits)

lemma client_ok_add_slot: "client_ok c \<Longrightarrow> client_ok (add_slot sub slot rec c)"
  using set_omap_put_subset [of sub _ "c_readership c"] omap_put_neq_Nil
  by (fastforce simp: client_ok_def add_slot_def)

lemma users_waiting_add_slot [simp]: "users_waiting (add_slot sub slot rec c) = users_waiting c"
  by (simp add: add_slot_def)

lemma client_ok_clear: "client_ok c \<Longrightarrow> client_ok (clear_tables c)"
  by (simp add: client_ok_def clear_tables_def)

lemma users_waiting_clear [simp]: "users_waiting (clear_tables c) = users_waiting c"
  by (simp add: clear_tables_def)

definition reply_fits :: "'u client_request \<Rightarrow> error_code + wamp_message \<Rightarrow> bool" where
  "reply_fits req reply \<longleftrightarrow>
    (case reply of Inl ec \<Rightarrow> True | Inr m \<Rightarrow> \<exists>k. answers k m \<and> fst k = request_type req)"

lemma fitting_reply:
  assumes "reply_fits req (Inr m)"
  shows "request_type req = W_subscribe \<Longrightarrow> msg_type m \<in> {W_error, W_subscribed}"
    "request_type req = W_unsubscribe \<Longrightarrow> msg_type m \<in> {W_error, W_unsubscribed}"
    "request_type req = W_publish \<Longrightarrow> msg_type m \<in> {W_error, W_published}"
    "request_type req = W_enroll \<Longrightarrow> msg_type m \<in> {W_error, W_registered}"
    "request_type req = W_unregister \<Longrightarrow> msg_type m \<in> {W_error, W_unregistered}"
    "request_type req = W_call \<Longrightarrow> msg_type m \<in> {W_error, W_result}"
    "request_type req = W_goodbye \<Longrightarrow> msg_type m \<in> {W_error, W_goodbye}"
    "request_type req = W_hello \<Longrightarrow> msg_type m \<in> {W_error, W_welcome, W_abort}"
proof -
  from assms obtain k where "answers k m" and "fst k = request_type req" by (auto simp: reply_fits_def)
  from answered_type [OF this] show
    "request_type req = W_subscribe \<Longrightarrow> msg_type m \<in> {W_error, W_subscribed}"
    "request_type req = W_unsubscribe \<Longrightarrow> msg_type m \<in> {W_error, W_unsubscribed}"
    "request_type req = W_publish \<Longrightarrow> msg_type m \<in> {W_error, W_published}"
    "request_type req = W_enroll \<Longrightarrow> msg_type m \<in> {W_error, W_registered}"
    "request_type req = W_unregister \<Longrightarrow> msg_type m \<in> {W_error, W_unregistered}"
    "request_type req = W_call \<Longrightarrow> msg_type m \<in> {W_error, W_result}"
    "request_type req = W_goodbye \<Longrightarrow> msg_type m \<in> {W_error, W_goodbye}"
    "request_type req = W_hello \<Longrightarrow> msg_type m \<in> {W_error, W_welcome, W_abort}"
    by blast+
qed

text \<open>A reply disposes of the handler of the request when the request object dies with it.\<close>

lemma check_reply_with:
  assumes "check_reply reply t e (dispatch_user h) captures c = (ok, xs)"
    and "\<forall>m. reply = Inr m \<longrightarrow> msg_type m \<in> {W_error, t}"
  shows "list_all asserts_well xs" "disposed xs = (if ok then {#} else {#h#})"
    "ok \<Longrightarrow> \<exists>m. reply = Inr m \<and> msg_type m = t"
  using check_reply_settles [where dispatch = "dispatch_user h" and M = "{#h#}", OF _ _ _ assms(1)] assms(2)
  by (auto split: sum.splits)

lemma settles_on_reply:
  assumes "client_ok c" and "reply_fits req reply"
  shows "settles (users_waiting c + request_users req) (on_reply req reply True c)"
proof -
  have checked: "list_all asserts_well (snd r)" "disposed (snd r) = (if fst r then {#} else {#h#})"
      "reply = Inl ec \<Longrightarrow> \<not> fst r"
    if "(request_type req, t) \<in> {(W_subscribe, W_subscribed), (W_unsubscribe, W_unsubscribed),
        (W_publish, W_published), (W_enroll, W_registered), (W_unregister, W_unregistered), (W_call, W_result)}"
      and "r = check_reply reply t e (dispatch_user h) b c" for t e h b r ec
  proof -
    have "\<forall>m. reply = Inr m \<longrightarrow> msg_type m \<in> {W_error, t}"
    proof (intro allI impI)
      fix m assume "reply = Inr m"
      with assms(2) have "reply_fits req (Inr m)" by simp
      from fitting_reply [OF this] that(1) show "msg_type m \<in> {W_error, t}" by auto
    qed
    from check_reply_with [OF _ this] that(2) show "list_all asserts_well (snd r)"
      "disposed (snd r) = (if fst r then {#} else {#h#})" "reply = Inl ec \<Longrightarrow> \<not> fst r"
      by (metis prod.collapse, metis prod.collapse, metis prod.collapse Inl_Inr_False)
  qed
  show ?thesis
  proof (cases req)
    case (Joining h uri captures)
    with assms fitting_reply(8) [of req] show ?thesis
      by (cases reply)
        (fastforce simp: on_reply_defs on_welcome_def on_join_aborted_def Let_def case_prod_beta)+
  next
    case (Leaving h)
    with assms fitting_reply(7) [of req] show ?thesis
      by (cases reply) (auto simp: on_reply_defs Let_def client_ok_clear)
  next
    case Unsubscribing
    with assms fitting_reply(2) [of req] show ?thesis
      by (cases reply) (auto simp: on_reply_defs check_reply_quietly_def Let_def)
  next
    case Unregistering
    with assms fitting_reply(5) [of req] show ?thesis
      by (cases reply) (auto simp: on_reply_defs check_reply_quietly_def Let_def)
  qed (use assms(1) in \<open>cases reply; simp add: on_reply_defs next_slot_id_def Let_def case_prod_beta
      client_ok_add_slot checked split: bool.split\<close>)+
qed

lemma settles_on_progress:
  assumes "client_ok c" and "answers k m" and "many_kind k req"
  shows "settles (users_waiting c) (on_reply req (Inr m) False c)"
proof -
  from assms(3) obtain h captures where req: "req = Calling_ongoing h captures" and k: "fst k = W_call"
    by (auto simp: many_kind_def)
  obtain ok xs where r: "check_reply (Inr m) W_result SE_callError (dispatch_reusable h) captures c = (ok, xs)"
    by force
  have "msg_type m \<in> {W_error, W_result}" using answered_type(6) [OF assms(2) k] by simp
  from check_reply_settles [where dispatch = "dispatch_reusable h" and M = "{#}", OF _ _ _ r] this
  show ?thesis using assms(1) req by (auto simp: on_reply_defs r split: bool.split)
qed

text \<open>Inside an inbound message\<close>

lemma settles_peer_sends:
  assumes c: "client_ok c"
    and "accounts_for (held (c_peer c)) (snd (f (c_peer c)))"
    and "keeps_kinds one_kind many_kind (snd (f (c_peer c)))"
  shows "settles (users_waiting c) (snd (peer_sends f c))"
proof -
  obtain r p xs where f: "f (c_peer c) = (r, p, xs)" by (cases "f (c_peer c)") auto
  from assms f have "peer_ok p" and "kinds_ok one_kind many_kind p" and "held p + released xs = held (c_peer c)"
    by (simp_all add: accounts_for_def)
  moreover from this(3) have "users (held p) + users (released xs) = users (held (c_peer c))"
    by (metis users_simps(3))
  ultimately show ?thesis
    using c by (simp add: peer_sends_def f users_waiting_def waiting_elsewhere_def client_ok_def ac_simps)
qed


lemma client_okD: "client_ok c \<Longrightarrow> peer_ok (c_peer c)" "client_ok c \<Longrightarrow> kinds_ok one_kind many_kind (c_peer c)"
  by (simp_all add: client_ok_def)

lemma settles_authenticate: "client_ok c \<Longrightarrow> settles (users_waiting c) (snd (authenticate auth c))"
  unfolding authenticate_def
  by (auto intro!: settles_peer_sends accounts_send keeps_send simp: client_okD)

lemma settles_on_inbound:
  assumes c: "client_ok c" and m: "msg_type m \<in> inbound_types"
  shows "settles (users_waiting c) (on_inbound m c)"
proof -
  have sends: "settles (users_waiting c) (snd (peer_sends (send_error t i e) c))" for t i e
    by (intro settles_peer_sends accounts_send_error keeps_send_error c client_okD)
  from m consider "msg_type m = W_challenge" | "msg_type m = W_event" | "msg_type m = W_invocation"
    | "msg_type m = W_interrupt"
    by (auto simp: inbound_types_def)
  then show ?thesis
  proof cases
    case 1
    then show ?thesis
      using c settles_authenticate [OF c, of "authentication ''''"]
      by (auto simp: settles_def on_inbound_def on_challenge_def case_prod_beta Let_def split: option.split)
  next
    case 2
    have "disposed (map (\<lambda>kv. post_event m (snd kv)) xs) = {#} \<and>
        list_all asserts_well (map (\<lambda>kv. post_event m (snd kv)) xs)" for xs :: "'a local_subs"
      by (induction xs) (simp_all add: post_event_def)
    with 2 c show ?thesis
      by (auto simp: on_inbound_def on_event_def client_ok_def Let_def dest!: omap_find_SomeD split: option.split)
  next
    case 3
    then show ?thesis
      using c sends
      by (auto simp: settles_def on_inbound_def on_invocation_def case_prod_beta Let_def split: option.split)
  next
    case 4
    with c show ?thesis
      by (auto simp: on_inbound_def on_interrupt_def Let_def split: option.split)
  qed
qed

subsection \<open>What the peer hands over\<close>

lemma settles_perform:
  assumes c: "client_ok c" and "effect_fits one_kind many_kind x"
  shows "settles (users_waiting c + users (released_by x)) (perform x c)"
proof (cases x)
  case (Post_error req ec)
  with c show ?thesis by (simp add: users_waiting_def waiting_elsewhere_def ac_simps)
next
  case (Call_handler req m)
  with assms(2) have "reply_fits req (Inr m)"
    by (auto simp: reply_fits_def one_kind_def many_kind_def)
  from settles_on_reply [OF c this] Call_handler show ?thesis by simp
next
  case (Call_kept req m)
  with assms(2) obtain k where "answers k m" "many_kind k req" by auto
  from settles_on_progress [OF c this] Call_kept show ?thesis by simp
next
  case (Inbound_message m)
  with assms settles_on_inbound [OF c] show ?thesis by simp
qed (use c in simp_all)

lemma settles_perform_all:
  "client_ok c \<Longrightarrow> list_all (effect_fits one_kind many_kind) xs \<Longrightarrow>
     settles (users_waiting c + users (released xs)) (perform_all xs c)"
proof (induction xs arbitrary: c)
  case Nil
  then show ?case by simp
next
  case (Cons x xs)
  have "settles (users_waiting c + users (released_by x) + users (released xs))
      (and_then (perform x c) (perform_all xs))"
    using Cons by (intro settles_and_then settles_perform) simp_all
  then show ?case by (simp add: ac_simps)
qed

lemma settles_with_peer_adding:
  assumes c: "client_ok c" and "accounts_for (M + held (c_peer c)) (f (c_peer c))"
    and "keeps_kinds one_kind many_kind (f (c_peer c))"
  shows "settles (users_waiting c + users M) (with_peer f c)"
proof -
  obtain p xs where f: "f (c_peer c) = (p, xs)" by force
  from assms f have p: "peer_ok p" "kinds_ok one_kind many_kind p" "list_all (effect_fits one_kind many_kind) xs"
    and "held p + released xs = M + held (c_peer c)"
    by (simp_all add: accounts_for_def)
  from this(4) have "users (held p) + users (released xs) = users M + users (held (c_peer c))"
    by (metis users_simps(3))
  then have "users_waiting (c\<lparr>c_peer := p\<rparr>) + users (released xs) = users_waiting c + users M"
    by (simp add: users_waiting_def waiting_elsewhere_def)
  moreover have "client_ok (c\<lparr>c_peer := p\<rparr>)" using c p by (simp add: client_ok_def)
  ultimately show ?thesis
    using settles_perform_all [of "c\<lparr>c_peer := p\<rparr>" xs] p(3) by (simp add: with_peer_def f)
qed

lemma settles_with_peer:
  assumes "client_ok c" and "accounts_for (held (c_peer c)) (f (c_peer c))"
    and "keeps_kinds one_kind many_kind (f (c_peer c))"
  shows "settles (users_waiting c) (with_peer f c)"
  using settles_with_peer_adding [of c "{#}" f] assms by simp

lemma ask_peer_snd: "snd (ask_peer f c) = with_peer (\<lambda>p. snd (f p)) c"
  by (simp add: ask_peer_def with_peer_def case_prod_beta Let_def)

subsection \<open>The operations\<close>

lemmas peer_accounts = accounts_send accounts_send_error accounts_cancel_call accounts_set_state
  accounts_close accounts_open accounts_start accounts_fail accounts_on_transport_rx

lemmas peer_keeps = keeps_send keeps_send_error keeps_cancel_call keeps_basic keeps_close keeps_open
  keeps_start keeps_fail keeps_rx

lemma settles_self: "client_ok c \<Longrightarrow> disposed xs = {#} \<Longrightarrow> list_all asserts_well xs \<Longrightarrow> settles (users_waiting c) (c, xs)"
  by simp

text \<open>The operation takes in the handlers \<open>M\<close>.\<close>

definition settles_with :: "'u multiset \<Rightarrow> ('u client \<Rightarrow> 'u client_result) \<Rightarrow> bool" where
  "settles_with M f \<longleftrightarrow> (\<forall>c. client_ok c \<longrightarrow> settles (users_waiting c + M) (f c))"

lemma settles_withI: "(\<And>c. client_ok c \<Longrightarrow> settles (users_waiting c + M) (f c)) \<Longrightarrow> settles_with M f"
  by (simp add: settles_with_def)

lemma settles_withD: "settles_with M f \<Longrightarrow> client_ok c \<Longrightarrow> settles (users_waiting c + M) (f c)"
  by (simp add: settles_with_def)

lemma settles_withD1: "settles_with {#h#} f \<Longrightarrow> client_ok c \<Longrightarrow> settles (add_mset h (users_waiting c)) (f c)"
  by (simp add: settles_with_def)

lemma settles_withD0: "settles_with {#} f \<Longrightarrow> client_ok c \<Longrightarrow> settles (users_waiting c) (f c)"
  by (simp add: settles_with_def)

lemma settles_check_state:
  assumes "client_ok c" and "settles (users_waiting c + {#h#}) r"
  shows "settles (users_waiting c + {#h#}) (check_state s h r c)"
  using assms by (simp add: check_state_def)

lemma settles_with_peer_op:
  assumes "\<And>p. peer_ok p \<Longrightarrow> accounts_for (M + held p) (f p)"
    and "\<And>p. kinds_ok one_kind many_kind p \<Longrightarrow> keeps_kinds one_kind many_kind (f p)"
  shows "settles_with (users M) (with_peer f)"
  using assms by (intro settles_withI settles_with_peer_adding) (simp_all add: client_okD)

lemma settles_request_by:
  assumes "msg_type m = request_type req" and "request_type req \<noteq> W_error"
  shows "settles_with (request_users req) (request_by m req)"
proof -
  have "settles_with (users {#req#}) (with_peer (\<lambda>p. snd (request m req p)))"
    using accounts_request_pending [where h = "Plain req"] assms
    by (intro settles_with_peer_op keeps_request) (simp_all add: request_def one_kind_def)
  then show ?thesis by (simp add: settles_with_def request_by_def ask_peer_snd)
qed

lemma settles_peer_quiet:
  assumes "\<And>p. peer_ok p \<Longrightarrow> accounts_for (held p) (f p)"
    and "\<And>p. kinds_ok one_kind many_kind p \<Longrightarrow> keeps_kinds one_kind many_kind (f p)"
  shows "settles_with {#} (with_peer f)"
  using settles_with_peer_op [of "{#}" f] assms by simp

lemma settles_ask_quiet:
  assumes "\<And>p. peer_ok p \<Longrightarrow> accounts_for (held p) (snd (f p))"
    and "\<And>p. kinds_ok one_kind many_kind p \<Longrightarrow> keeps_kinds one_kind many_kind (snd (f p))"
    and "client_ok c"
  shows "settles (users_waiting c) (snd (ask_peer f c))"
  using settles_peer_quiet [of "\<lambda>p. snd (f p)"] assms by (simp add: ask_peer_snd settles_withD0)

lemma settles_on_scheduler: "client_ok c \<Longrightarrow> settles (users_waiting c) (on_scheduler f c)"
  by (simp add: on_scheduler_def case_prod_beta Let_def)

lemma settles_do_connect:
  "client_ok c \<Longrightarrow> at_index a < length (at_wishes a) \<Longrightarrow>
     settles (users_waiting c + {#at_handler a#}) (do_connect a c)"
  by (simp add: do_connect_def users_waiting_def waiting_elsewhere_def ac_simps)

lemma settles_set_state: "settles_with {#} (with_peer (set_state s))"
  by (intro settles_peer_quiet accounts_set_state keeps_basic)

lemma settles_connect:
  assumes "client_ok c" and "wishes \<noteq> []"
  shows "settles (users_waiting c + {#h#}) (connect wishes h c)"
proof -
  have "settles_with {#} (with_peer (\<lambda>p. set_state Connecting (set_terminating False p)))"
    using accounts_set_state [of "set_terminating False _"] keeps_basic(1) [of _ _ "set_terminating False _"]
    by (intro settles_peer_quiet) (simp_all add: set_terminating_def held_mset peer_ok_def)
  then have "settles (users_waiting c + {#h#})
      (and_then (with_peer (\<lambda>p. set_state Connecting (set_terminating False p)) c)
        (\<lambda>c. do_connect \<lparr>at_wishes = wishes, at_index = 0, at_handler = h\<rparr> (c\<lparr>c_connector := False\<rparr>)))"
    using settles_do_connect [of "_\<lparr>c_connector := False\<rparr>" "\<lparr>at_wishes = wishes, at_index = 0, at_handler = h\<rparr>"] assms
    by (intro settles_and_then settles_withD0) simp_all
  with assms settles_check_state [OF assms(1)] show ?thesis
    by (simp add: connect_def and_then_def Let_def case_prod_beta)
qed

lemma settles_on_connect_failure:
  assumes "client_ok c"
  shows "settles (users_waiting c + {#at_handler a#}) (on_connect_failure a ec c)"
proof -
  let ?new = "a\<lparr>at_index := at_index a + 1\<rparr>"
  have "settles (users_waiting c + {#at_handler a#}) (do_connect ?new c)"
    if "at_index a + 1 < length (at_wishes a)"
    using settles_do_connect [of c ?new] assms that by simp
  moreover have "settles (users_waiting c + {#at_handler a#})
      (and_then (with_peer (set_state Failed) c) (\<lambda>c. (c, dispatch_user (at_handler a) v c)))" for v
    by (intro settles_and_then settles_withD0 [OF settles_set_state] assms) simp
  ultimately show ?thesis using assms by (simp add: on_connect_failure_def Let_def)
qed

lemma settles_on_established:
  assumes "client_ok c"
  shows "settles (users_waiting c + {#at_handler a#}) (on_established a r c)"
proof -
  have "settles_with {#} (with_peer (open_peer t d))" for t d
    by (intro settles_peer_quiet accounts_open keeps_open)
  then have "settles (users_waiting c + {#at_handler a#})
      (and_then (with_peer (open_peer t d) c) (\<lambda>c. (c, dispatch_user (at_handler a) v c)))" for t d v
    using assms by (intro settles_and_then settles_withD0) simp_all
  then show ?thesis
    using assms settles_on_connect_failure
    by (auto simp: on_established_def split: sum.split)
qed

lemma settles_connector_done:
  assumes "client_ok c"
  shows "settles (users_waiting c) (connector_done k r c)"
proof (cases "vec_at (c_establishing c) k")
  case None
  with assms show ?thesis by (simp add: connector_done_def)
next
  case (Some a)
  let ?rest = "take k (c_establishing c) @ drop (Suc k) (c_establishing c)"
  let ?c = "c\<lparr>c_establishing := ?rest\<rparr>"
  have split: "c_establishing c = take k (c_establishing c) @ a # drop (Suc k) (c_establishing c)"
    using Some by (metis vec_at_Some_iff id_take_nth_drop)
  have "mset (map at_handler (c_establishing c)) = add_mset (at_handler a) (mset (map at_handler ?rest))"
    by (subst split) simp
  then have "users_waiting ?c + {#at_handler a#} = users_waiting c"
    by (simp add: users_waiting_def waiting_elsewhere_def ac_simps del: mset_map)
  with settles_on_established [of ?c a r] assms Some show ?thesis by (simp add: connector_done_def)
qed

lemma settles_do_disconnect:
  assumes "client_ok c"
  shows "settles (users_waiting c) (do_disconnect c)"
proof -
  have "settles_with {#} (with_peer close)" by (intro settles_peer_quiet accounts_close keeps_close)
  then have "settles (users_waiting ((clear_tables c)\<lparr>c_pending := []\<rparr>))
      (and_then (on_scheduler scheduler_clear ((clear_tables c)\<lparr>c_pending := []\<rparr>)) (with_peer close))"
    using assms by (intro settles_then settles_on_scheduler settles_withD0) (simp_all add: client_ok_clear)
  then show ?thesis by (simp add: do_disconnect_def and_then_def Let_def case_prod_beta settles_def)
qed

lemma users_waiting_peer:
  "held p = held (c_peer c) \<Longrightarrow> users_waiting (c\<lparr>c_peer := p\<rparr>) = users_waiting c"
  by (simp add: users_waiting_def waiting_elsewhere_def)

lemma settles_terminate: "client_ok c \<Longrightarrow> settles (users_waiting c) (terminate c)"
  using settles_do_disconnect [of "c\<lparr>c_peer := set_terminating True (c_peer c)\<rparr>"]
  by (simp add: terminate_def client_ok_def set_terminating_def users_waiting_peer held_mset peer_ok_def)

lemma settles_join:
  assumes "client_ok c" and "msg_type (realm_message r) = W_hello"
  shows "settles (users_waiting c + {#h#}) (join r h c)"
proof -
  have "settles_with {#} (with_peer start)" by (intro settles_peer_quiet accounts_start keeps_start)
  moreover have "msg_type (with_option k v m) = msg_type m" for k v m
    by (simp add: with_option_def set_options_def)
  ultimately show ?thesis
    using assms settles_request_by [of _ "Joining h _ _"] unfolding join_def Let_def
    by (intro settles_check_state settles_and_then settles_withD0 settles_withD)
      (auto simp: realm_with_option_def)
qed

lemma settles_leave:
  assumes "client_ok c" and "msg_type m = W_goodbye"
  shows "settles (users_waiting c + {#h#}) (leave m h c)"
proof -
  have "settles_with (users {#Leaving h#}) (with_peer (adjourn m (Leaving h)))"
    using accounts_adjourn assms(2) by (intro settles_with_peer_op keeps_adjourn) (simp_all add: one_kind_def)
  then show ?thesis
    unfolding leave_def
    by (intro settles_check_state settles_and_then settles_on_scheduler assms(1) settles_withD) simp_all
qed

lemma settles_subscribe:
  assumes "client_ok c" and "msg_type m = W_subscribe"
  shows "settles (users_waiting c + {#h#}) (subscribe m slot h c)"
  using settles_request_by [of m "Subscribing _ h"] assms unfolding subscribe_def Let_def
  by (intro settles_check_state)
    (auto simp: next_slot_id_def client_ok_add_slot settles_withD1 split: option.split)

lemma remove_slot_ok:
  assumes "client_ok c" and "remove_slot sub slot c = Some (was_last, c1)"
  shows "client_ok c1" "users_waiting c1 = users_waiting c"
proof -
  from assms(2) show "users_waiting c1 = users_waiting c"
    by (auto simp: remove_slot_def Let_def split: option.splits if_splits)
  have put: "\<forall>e \<in> set (omap_put sub l m). snd e \<noteq> []"
    if "\<forall>e \<in> set m. snd e \<noteq> []" "l \<noteq> []" for l :: "'a local_subs" and m
    using that set_omap_put_subset [of sub l m] by auto
  from assms put omap_erase_subset [of sub "c_readership c"] show "client_ok c1"
    by (fastforce simp: remove_slot_def Let_def client_ok_def split: option.splits if_splits)
qed

lemma settles_unsubscribe:
  assumes "client_ok c"
  shows "settles (users_waiting c) (unsubscribe sub slot c)"
    "settles (users_waiting c + {#h#}) (unsubscribe_with sub slot h c)"
proof -
  have type: "msg_type (unsubscribe_message sub) = W_unsubscribe"
    by (simp add: unsubscribe_message_def make_message_def)
  have quiet: "settles (users_waiting d) (send_unsubscribe sub d)" if "client_ok d" for d :: "'a client"
    using settles_request_by [of "unsubscribe_message sub" Unsubscribing] type that
    by (auto simp: send_unsubscribe_def intro!: settles_withD0)
  have loud: "settles (users_waiting d + {#h#}) (send_unsubscribe_with sub h d)" if "client_ok d" for d
    using settles_request_by [of "unsubscribe_message sub" "Unsubscribing_with h"] type that
    unfolding send_unsubscribe_with_def by (intro settles_check_state settles_withD) simp_all
  show "settles (users_waiting c) (unsubscribe sub slot c)"
    using assms remove_slot_ok [OF assms, of sub slot] quiet
    by (fastforce simp: unsubscribe_def split: option.splits)
  show "settles (users_waiting c + {#h#}) (unsubscribe_with sub slot h c)"
    using assms remove_slot_ok [OF assms, of sub slot] loud
    by (fastforce simp: unsubscribe_with_def split: option.splits)
qed

lemma with_option_type [simp]: "msg_type (with_option k v m) = msg_type m"
  by (simp add: with_option_def set_options_def)

lemma settles_simple_requests:
  assumes "client_ok c"
  shows "msg_type m = W_publish \<Longrightarrow> settles (users_waiting c + {#h#}) (publish_with m h c)"
    "msg_type m = W_enroll \<Longrightarrow> settles (users_waiting c + {#h#}) (enroll m cs is h c)"
    "settles (users_waiting c) (unregister reg c)"
    "settles (users_waiting c + {#h#}) (unregister_with reg h c)"
proof -
  have type: "msg_type (unregister_message reg) = W_unregister"
    by (simp add: unregister_message_def make_message_def)
  note req = settles_request_by [of _ "Publishing h"] settles_request_by [of _ "Enrolling _ h"]
    settles_request_by [of _ Unregistering] settles_request_by [of _ "Unregistering_with h"]
  show "settles (users_waiting c + {#h#}) (publish_with m h c)" if "msg_type m = W_publish"
    using req(1) assms that unfolding publish_with_def
    by (intro settles_check_state settles_withD) simp_all
  show "settles (users_waiting c + {#h#}) (enroll m cs is h c)" if "msg_type m = W_enroll"
    using req(2) assms that unfolding enroll_def
    by (intro settles_check_state settles_withD) simp_all
  show "settles (users_waiting c) (unregister reg c)"
    using settles_withD0 [OF req(3) [of "unregister_message reg", simplified], OF type,
        of "c\<lparr>c_registry := omap_erase reg (c_registry c)\<rparr>"] assms
    by (auto simp: unregister_def Let_def split: option.split)
  show "settles (users_waiting c + {#h#}) (unregister_with reg h c)"
    using settles_check_state [of "c\<lparr>c_registry := omap_erase reg (c_registry c)\<rparr>" h]
      settles_withD [OF req(4) [of "unregister_message reg", simplified], OF type,
        of "c\<lparr>c_registry := omap_erase reg (c_registry c)\<rparr>"] assms
    by (auto simp: unregister_with_def Let_def split: option.split)
qed

lemma settles_arm_call: "client_ok c \<Longrightarrow> settles (users_waiting c) (arm_call r i chit canc now c)"
  unfolding arm_call_def
  by (intro settles_then) (auto simp: emit_def settles_on_scheduler)

lemma settles_calls:
  assumes "client_ok c" and "msg_type (rpc_message r) = W_call"
  shows "settles (users_waiting c + {#h#}) (one_shot_call r chit canc now h c)"
    "settles (users_waiting c + {#h#}) (ongoing_call r chit canc now h c)"
proof -
  have one: "settles (users_waiting c + {#h#}) (snd (ask_peer (request (rpc_message r) (Calling h b)) c))"
    if "client_ok c" for c b
    using settles_withD [OF settles_request_by [of "rpc_message r" "Calling h b"] that] assms(2)
    by (simp add: request_by_def)
  define r1 where "r1 = with_progressive_results True r"
  have r1: "msg_type (rpc_message r1) = W_call"
    using assms(2) by (simp add: r1_def with_progressive_results_def rpc_with_option_def)
  have "settles_with (users {#Calling_ongoing h b#})
      (with_peer (\<lambda>p. snd (ongoing_request (rpc_message r1) (Calling_ongoing h b) p)))" for b
    using accounts_ongoing r1
    by (intro settles_with_peer_op keeps_ongoing) (simp_all add: many_kind_def)
  then have many: "settles (users_waiting c + {#h#})
      (snd (ask_peer (ongoing_request (rpc_message r1) (Calling_ongoing h b)) c))" if "client_ok c" for c b
    using that by (simp add: settles_withD1 ask_peer_snd)
  show "settles (users_waiting c + {#h#}) (one_shot_call r chit canc now h c)"
    unfolding one_shot_call_def using assms(1)
    by (intro settles_and_then settles_check_state)
      (auto simp: case_prod_beta Let_def intro!: settles_then settles_arm_call one [simplified])
  show "settles (users_waiting c + {#h#}) (ongoing_call r chit canc now h c)"
    unfolding ongoing_call_def r1_def [symmetric] using assms(1)
    by (intro settles_and_then settles_check_state)
      (auto simp: case_prod_beta Let_def intro!: settles_then settles_arm_call many [simplified])
qed

lemma settles_cancel: "client_ok c \<Longrightarrow> settles (users_waiting c) (snd (cancel_call_by i mode c))"
  by (auto simp: cancel_call_by_def intro!: settles_ask_quiet accounts_cancel_call keeps_cancel_call)

lemma settles_publish: "client_ok c \<Longrightarrow> settles (users_waiting c) (snd (publish m c))"
  by (auto simp: publish_def intro!: settles_ask_quiet accounts_send keeps_send)

lemma settles_yield_error:
  assumes "client_ok c"
  shows "settles (users_waiting c) (snd (yield_error i m c))"
proof -
  have "settles (users_waiting c) (snd (ask_peer (send_error W_invocation i m)
      (c\<lparr>c_pending := omap_erase i (c_pending c)\<rparr>)))"
    using settles_ask_quiet [of "send_error W_invocation i m" "c\<lparr>c_pending := omap_erase i (c_pending c)\<rparr>"] assms
    by (simp add: accounts_send_error keeps_send_error)
  with assms show ?thesis by (simp add: yield_error_def)
qed

lemma settles_append:
  "settles hs r \<Longrightarrow> settles (users_waiting (fst r)) r' \<Longrightarrow> settles hs (fst r', snd r @ snd r')"
  by (auto simp: settles_def ac_simps)

lemma settles_yield_result:
  assumes "client_ok c"
  shows "settles (users_waiting c) (snd (yield_result i m c))"
proof -
  have sent: "settles (users_waiting c) (snd (ask_peer (send msg) d))"
    if "d = c \<or> d = c\<lparr>c_pending := omap_erase i (c_pending c)\<rparr>" for d msg
    using settles_ask_quiet [of "send msg" d] that assms by (auto simp: accounts_send keeps_send)
  have then_error: "settles (users_waiting c) (fst (snd (yield_error i e (fst (snd r)))),
      snd (snd r) @ snd (snd (yield_error i e (fst (snd r)))))"
    if "settles (users_waiting c) (snd r)" for e and r :: "(error_code + bool) \<times> 'a client_result"
    using that by (intro settles_append settles_yield_error) (simp_all add: settles_def)
  show ?thesis
    using assms sent then_error [OF sent]
    by (auto simp: yield_result_def Let_def case_prod_beta split: sum.split)
qed

definition slot_end_ok :: "slot_end \<Rightarrow> bool" where
  "slot_end_ok e \<longleftrightarrow> (case e of Returned oc \<Rightarrow> outcome_ok oc | _ \<Rightarrow> True)"

lemma settles_rpc_slot:
  assumes "client_ok c" and "slot_end_ok e"
  shows "settles (users_waiting c) (rpc_slot_ran i e c)"
proof (cases e)
  case (Returned oc)
  with assms show ?thesis
    by (cases "oc_type oc"; cases "oc_value oc")
      (auto simp: rpc_slot_ran_def slot_end_ok_def outcome_ok_def outcome_as_result_def outcome_as_error_def)
next
  case (Threw_error m)
  with settles_yield_error [OF assms(1)] show ?thesis by (simp add: rpc_slot_ran_def)
next
  case (Threw_bad_type what)
  with settles_yield_error [OF assms(1), of i "error_of_bad_type what"] show ?thesis
    by (auto simp: rpc_slot_ran_def case_prod_beta Let_def settles_def)
qed

lemma settles_event_slot: "client_ok c \<Longrightarrow> settles (users_waiting c) (event_slot_ran m e c)"
  by (simp add: event_slot_ran_def warn_event_error_def split: slot_end.split)

lemma settles_timers: "client_ok c \<Longrightarrow> settles (users_waiting c) (perform_timers xs c)"
proof (induction xs arbitrary: c)
  case Nil
  then show ?case by simp
next
  case (Cons x xs)
  then have "settles (users_waiting c) (perform_timer x c)"
    by (auto simp: perform_timer_def settles_cancel split: timer_effect.split)
  with Cons.IH show ?case by (simp add: settles_then)
qed

lemma settles_timer_done: "client_ok c \<Longrightarrow> settles (users_waiting c) (on_timer_done ec c)"
  using settles_timers [of "c\<lparr>c_scheduler := _\<rparr>"] by (simp add: on_timer_done_def case_prod_beta Let_def)

lemma settles_run_posted:
  assumes "client_ok c"
  shows "settles (users_waiting c) (run_posted c)"
proof (cases "c_posted c")
  case Nil
  with assms show ?thesis by (simp add: run_posted_def)
next
  case (Cons e rest)
  obtain req ec where e: "e = (req, ec)" by force
  have "users_waiting (c\<lparr>c_posted := rest\<rparr>) + request_users req = users_waiting c"
    by (simp add: users_waiting_def waiting_elsewhere_def Cons e ac_simps)
  moreover have "settles (users_waiting (c\<lparr>c_posted := rest\<rparr>) + request_users req)
      (on_reply req (Inl ec) True (c\<lparr>c_posted := rest\<rparr>))"
    using assms by (intro settles_on_reply) (simp_all add: reply_fits_def)
  ultimately show ?thesis by (simp add: run_posted_def Cons e)
qed

lemma settles_received: "client_ok c \<Longrightarrow> settles (users_waiting c) (with_peer (on_transport_rx b) c)"
  by (intro settles_withD0 settles_peer_quiet accounts_on_transport_rx keeps_rx)

lemma settles_transport_failed:
  "client_ok c \<Longrightarrow> settles (users_waiting c) (with_peer (on_transport_failure ec info) c)"
  by (intro settles_withD0 settles_peer_quiet)
    (simp_all add: on_transport_failure_def accounts_fail keeps_fail accounts_self)

lemma settles_set_log_level:
  "client_ok c \<Longrightarrow> settles (users_waiting c) (c\<lparr>c_peer := set_log_level l (c_peer c)\<rparr>, [])"
  by (simp add: client_ok_def set_log_level_def peer_ok_def held_mset users_waiting_peer)

lemma settles_set_handlers:
  "client_ok c \<Longrightarrow> settles (users_waiting c) (c\<lparr>c_peer := set_log_handler x (set_warning_handler y
     (set_trace_handler z (set_state_change_handler w (c_peer c))))\<rparr>, [])"
  by (simp add: client_ok_def set_log_handler_def set_warning_handler_def peer_ok_def
      set_trace_handler_def set_state_change_handler_def held_mset users_waiting_peer)

subsection \<open>All of it\<close>

text \<open>
  What the C++ types and preconditions say of the arguments: messages of their type, at least one wish, and an
  outcome whose tag matches its content
\<close>

fun event_typed :: "'u client_event \<Rightarrow> bool" where
  "event_typed (Ev_connect wishes h) \<longleftrightarrow> wishes \<noteq> []"
| "event_typed (Ev_join r h) \<longleftrightarrow> msg_type (realm_message r) = W_hello"
| "event_typed (Ev_leave m h) \<longleftrightarrow> msg_type m = W_goodbye"
| "event_typed (Ev_subscribe m slot h) \<longleftrightarrow> msg_type m = W_subscribe"
| "event_typed (Ev_publish_with m h) \<longleftrightarrow> msg_type m = W_publish"
| "event_typed (Ev_enroll m cs is h) \<longleftrightarrow> msg_type m = W_enroll"
| "event_typed (Ev_call r chit canc now h) \<longleftrightarrow> msg_type (rpc_message r) = W_call"
| "event_typed (Ev_ongoing_call r chit canc now h) \<longleftrightarrow> msg_type (rpc_message r) = W_call"
| "event_typed (Ev_rpc_slot_ran i e) \<longleftrightarrow> slot_end_ok e"
| "event_typed _ \<longleftrightarrow> True"

fun users_given :: "'u client_event \<Rightarrow> 'u multiset" where
  "users_given (Ev_connect wishes h) = {#h#}"
| "users_given (Ev_join r h) = {#h#}"
| "users_given (Ev_leave m h) = {#h#}"
| "users_given (Ev_subscribe m slot h) = {#h#}"
| "users_given (Ev_unsubscribe_with sub slot h) = {#h#}"
| "users_given (Ev_publish_with m h) = {#h#}"
| "users_given (Ev_enroll m cs is h) = {#h#}"
| "users_given (Ev_unregister_with reg h) = {#h#}"
| "users_given (Ev_call r chit canc now h) = {#h#}"
| "users_given (Ev_ongoing_call r chit canc now h) = {#h#}"
| "users_given _ = {#}"

lemma settles_step:
  assumes "client_ok c" and "event_typed e"
  shows "settles (users_waiting c + users_given e) (client_step c e)"
  using assms(2)
    settles_connect [OF assms(1)] settles_join [OF assms(1)] settles_leave [OF assms(1)]
    settles_subscribe [OF assms(1)] settles_unsubscribe [OF assms(1)] settles_simple_requests [OF assms(1)]
    settles_calls [OF assms(1)] settles_rpc_slot [OF assms(1)]
  by (cases e)
    (simp_all add: assms(1) settles_connector_done settles_authenticate settles_do_disconnect settles_terminate
      settles_publish settles_cancel settles_yield_result settles_yield_error settles_event_slot
      settles_timer_done settles_run_posted settles_received settles_transport_failed
      settles_set_log_level [simplified] settles_set_handlers [simplified])

lemma client_ok_init: "client_ok (init_client k)" "users_waiting (init_client k) = {#}"
  by (simp_all add: client_ok_def init_client_def init_peer_def peer_ok_def kinds_ok_def omap_ok_def
      users_waiting_def waiting_elsewhere_def held_mset)

text \<open>The machine of the typed events\<close>

definition typed_step :: "'u client \<Rightarrow> 'u client_event \<Rightarrow> 'u client_result" where
  "typed_step c e = (if event_typed e then client_step c e else (c, []))"

definition typed_given :: "'u client \<Rightarrow> 'u client_event \<Rightarrow> 'u multiset" where
  "typed_given c e = (if event_typed e then users_given e else {#})"

lemma typed_run: "list_all event_typed es \<Longrightarrow> run_machine typed_step c es = run_machine client_step c es"
  by (induction es arbitrary: c) (simp_all add: typed_step_def Let_def case_prod_beta)

interpretation user_handlers: machine_conservation typed_step client_ok users_waiting typed_given disposed
proof (unfold_locales, goal_cases)
  case (1 s e)
  then show ?case using settles_step [of s e] by (auto simp: typed_step_def settles_def)
next
  case (4 s e)
  then show ?case using settles_step [of s e] by (auto simp: typed_step_def typed_given_def settles_def)
qed simp_all

interpretation client_assertions: machine_outputs typed_step client_ok asserts_well
proof (unfold_locales, goal_cases)
  case (1 s e)
  then show ?case using settles_step [of s e] by (auto simp: typed_step_def settles_def)
next
  case (2 s x e)
  then show ?case using settles_step [of s e] by (auto simp: typed_step_def settles_def list_all_iff split: if_splits)
qed

lemma typed_given_sum:
  "list_all event_typed es \<Longrightarrow> user_handlers.brought_by_run c es = (\<Sum>e \<leftarrow> es. users_given e)"
  by (induction es arbitrary: c) (simp_all add: typed_given_def)

text \<open>
  C1: whatever happens to a client, every completion handler given to it is either still
  waiting, or was called, dropped or forgotten, once: at any time those that wait and those
  disposed of are together the handlers that were given.
\<close>

theorem user_handlers_accounted:
  assumes "list_all event_typed es" and "run_machine client_step (init_client k) es = (c, xs)"
  shows "users_waiting c + disposed xs = (\<Sum>e \<leftarrow> es. users_given e)"
  using user_handlers.run_conserves [OF client_ok_init(1), of k es] assms
  by (simp add: typed_run typed_given_sum client_ok_init(2))

text \<open>
  C20: no assertion of the client ever fails, and the reply given to a request object is of the
  type that it expects, except that an ERROR may be taken for a reply to a GOODBYE or a HELLO.
\<close>

theorem client_assertions_hold:
  assumes "list_all event_typed es" and "run_machine client_step (init_client k) es = (c, xs)"
    and "x \<in> set xs"
  shows "x \<noteq> Client_assertion \<and> (\<forall>t t'. x = Wrong_message t t' \<longrightarrow> t \<in> {W_goodbye, W_abort} \<and> t' = W_error)"
proof -
  have "asserts_well x"
    using client_assertions.run_good [OF client_ok_init(1), of x k es] assms by (simp add: typed_run)
  then show ?thesis by auto
qed

subsection \<open>A run\<close>

text \<open>
  A client connects, joins, subscribes to a topic and receives an event.  The codec knows these
  messages of the router, and a GOODBYE, a REGISTERED, an INVOCATION and an INTERRUPT.
\<close>

definition sample_codec :: codec where
  "sample_codec = \<lparr>encode = \<lambda>vs. replicate (length vs) 0,
     decode = \<lambda>b. (no_error,
       if b = [1] then V_array [V_int 2, V_int 7, V_object []]
       else if b = [2] then V_array [V_int 33, V_int 1, V_int 5]
       else if b = [3] then V_array [V_int 36, V_int 5, V_int 9, V_object []]
       else if b = [4] then V_array [V_int 6, V_object [], V_string ''wamp.close.system_shutdown'']
       else if b = [5] then V_array [V_int 65, V_int 2, V_int 8]
       else if b = [6] then V_array [V_int 68, V_int 70, V_int 8, V_object []]
       else if b = [7] then V_array [V_int 69, V_int 70, V_object []]
       else V_null)\<rparr>"

definition sample_events :: "nat client_event list" where
  "sample_events = [Ev_connect [sample_codec] 1, Ev_connector_done 0 (Inr \<lparr>tr_started = False, tr_max_tx = 100\<rparr>),
     Ev_join (make_realm ''r'') 2, Ev_received [1], Ev_subscribe (make_topic ''t'') 10 3, Ev_received [2],
     Ev_received [3]]"

definition sample_run :: "nat client_result" where
  "sample_run = run_machine client_step (init_client sample_codec) sample_events"

lemma sample_typed: "list_all event_typed sample_events"
  by (simp add: sample_events_def make_realm_def hello_message_def make_message_def make_topic_def
      subscribe_message_def)

lemma sample_effects:
  "map disposes (snd sample_run) = [{#}, {#1#}, {#}, {#}, {#2#}, {#}, {#3#}, {#}] \<and>
   Posted_event 10 \<lparr>msg_type = W_event, msg_fields = [V_int 36, V_int 5, V_int 9, V_object []]\<rparr> \<in> set (snd sample_run)"
  by code_simp

theorem user_handlers_accounted_witness:
  "users_waiting (fst sample_run) + disposed (snd sample_run) = {#1, 2, 3#}"
  using user_handlers_accounted [OF sample_typed, of sample_codec "fst sample_run" "snd sample_run"]
  by (simp add: sample_run_def) (simp add: sample_events_def)

theorem client_assertions_hold_witness:
  "Posted_event 10 \<lparr>msg_type = W_event, msg_fields = [V_int 36, V_int 5, V_int 9, V_object []]\<rparr> \<noteq>
     (Client_assertion :: nat client_effect) \<and> snd sample_run \<noteq> []"
  using client_assertions_hold [OF sample_typed, of sample_codec "fst sample_run" "snd sample_run",
      OF _ conjunct2 [OF sample_effects]] sample_effects
  by (auto simp: sample_run_def)

end
