(* ===== verification/Client_Behaviour.thy ===== *)
theory Client_Behaviour
  imports Client_Handlers
begin

section \<open>What the operations of the client do\<close>

subsection \<open>In the wrong state\<close>

text \<open>The state that an operation with a completion handler asks for\<close>

fun required_state :: "'u client_event \<Rightarrow> ('u \<times> session_state) option" where
  "required_state (Ev_connect wishes h) = Some (h, Disconnected)"
| "required_state (Ev_join r h) = Some (h, Closed)"
| "required_state (Ev_leave m h) = Some (h, Established)"
| "required_state (Ev_subscribe m slot h) = Some (h, Established)"
| "required_state (Ev_publish_with m h) = Some (h, Established)"
| "required_state (Ev_enroll m cs is h) = Some (h, Established)"
| "required_state (Ev_call r chit canc now h) = Some (h, Established)"
| "required_state (Ev_ongoing_call r chit canc now h) = Some (h, Established)"
| "required_state _ = None"

text \<open>
  An operation in a state that does not allow it changes nothing and has no effect but to
  give its handler \<open>invalidState\<close> (and, for a call, to clear the caller's chit).
\<close>

theorem wrong_state_rejected:
  assumes "required_state e = Some (h, s)" and "client_state c \<noteq> s" and "event_typed e"
    and "\<not> p_terminating (c_peer c)"
  shows "\<exists>pre. client_step c e = (c, pre @ [User_posted h (Failed_with (session_ec SE_invalidState))]) \<and>
    set pre \<subseteq> {Chit_written None}"
  using assms
  by (cases e) (auto simp: connect_def join_def leave_def subscribe_def publish_with_def enroll_def
      one_shot_call_def ongoing_call_def check_state_def and_then_def post_user_def)

theorem wrong_state_rejected_witness:
  "\<exists>pre. client_step (init_client sample_codec) (Ev_subscribe (make_topic ''t'') 10 (3::nat)) =
     (init_client sample_codec, pre @ [User_posted 3 (Failed_with (session_ec SE_invalidState))]) \<and>
     set pre \<subseteq> {Chit_written None}"
  by (rule wrong_state_rejected [where s = Established])
    (simp_all add: client_state_def init_client_def init_peer_def make_topic_def subscribe_message_def
      make_message_def)

subsection \<open>Events\<close>

lemma process_inbound:
  assumes "rx_message p b = Some m" and "msg_type m \<in> {W_event, W_invocation, W_interrupt}"
    and "p_state p = Established"
  shows "on_transport_rx b p = (p, trace_rx (msg_fields m) p @ [Inbound_message m])"
proof -
  have "message_replies_to m = W_none"
    using assms(2) by (auto simp: message_replies_to_def lookup_named)
  then have "process_message m p = (p, [Inbound_message m])"
    using assms(2,3) by (auto simp: process_message_def)
  then show ?thesis by (simp add: on_transport_rx_accepted [OF assms(1)] and_then_def)
qed

lemma perform_all_append:
  "perform_all (xs @ ys) c = and_then (perform_all xs c) (perform_all ys)"
  by (induction xs arbitrary: c) (simp_all add: and_then_def Let_def case_prod_beta)

lemma perform_all_trace: "perform_all (trace_rx vs p) c = (c, map Peer_did (trace_rx vs p))"
  by (simp add: trace_rx_def trace_effects_def and_then_def)

lemma client_receives:
  assumes "rx_message (c_peer c) b = Some m" and "msg_type m \<in> {W_event, W_invocation, W_interrupt}"
    and "client_state c = Established"
  shows "with_peer (on_transport_rx b) c =
    (let (c', xs) = on_inbound m c in (c', map Peer_did (trace_rx (msg_fields m) (c_peer c)) @ xs))"
  using process_inbound [OF assms(1,2)] assms(3)
  by (simp add: with_peer_def perform_all_append perform_all_trace client_state_def and_then_def Let_def
      case_prod_beta)

text \<open>The readership is in order, as \<open>std::map\<close> keeps it.\<close>

definition slots_of :: "'u client \<Rightarrow> int \<Rightarrow> 'u list" where
  "slots_of c sub = (case omap_find (c_readership c) sub of None \<Rightarrow> []
     | Some locals \<Rightarrow> map (\<lambda>kv. sr_slot (snd kv)) locals)"

text \<open>
  An EVENT for a subscription is posted to each of its slots, once each and in the order of
  the slot IDs; without a slot it is only logged, and the client does not change.
\<close>

theorem event_reaches_slots:
  assumes "rx_message (c_peer c) b = Some m" and "msg_type m = W_event" and "client_state c = Established"
    and "client_ok c"
  shows "\<exists>logs. client_step c (Ev_received b) =
      (c, map Peer_did logs @ map (\<lambda>slot. Posted_event slot m) (slots_of c (event_sub_id m))) \<and>
    (\<forall>x \<in> set logs. \<exists>l t ec. x = Log_message l t ec \<or> x = Warning_text t \<or> x = Trace_text t)"
proof -
  have trace: "\<forall>x \<in> set (trace_rx vs p). \<exists>l t ec. x = Log_message l t ec \<or> x = Warning_text t \<or> x = Trace_text t"
    for vs and p :: "'a client_request peer"
    by (auto simp: trace_rx_def trace_effects_def)
  have logs: "\<forall>x \<in> set (log_effects p l t ec). \<exists>l t ec. x = Log_message l t ec \<or> x = Warning_text t \<or> x = Trace_text t"
    for p :: "'a client_request peer" and l t ec
    by (auto simp: log_effects_def)
  show ?thesis
  proof (cases "omap_find (c_readership c) (event_sub_id m)")
    case None
    let ?text = "[P_text ''Received an EVENT that is not subscribed to (with subId='', P_number (event_sub_id m),
      P_text '' pubId='', P_number (event_pub_id m), P_text '')'']"
    let ?logs = "trace_rx (msg_fields m) (c_peer c) @
      (if current_log_level (c_peer c) \<le> Log_warning
       then log_effects (c_peer c) Log_warning ?text no_error else [])"
    have "client_step c (Ev_received b) = (c, map Peer_did ?logs @ [])"
      using assms None
      by (simp add: client_receives on_inbound_def on_event_def cast_to_def message_cast_ok_def
          client_log_if_def client_log_def)
    moreover have "\<forall>x \<in> set ?logs. \<exists>l t ec. x = Log_message l t ec \<or> x = Warning_text t \<or> x = Trace_text t"
      using trace logs by auto
    ultimately show ?thesis using None by (intro exI [of _ ?logs]) (simp add: slots_of_def)
  next
    case (Some locals)
    then have "locals \<noteq> []" using assms(4) by (auto simp: client_ok_def dest!: omap_find_SomeD)
    with Some assms trace show ?thesis
      by (intro exI [of _ "trace_rx (msg_fields m) (c_peer c)"])
        (simp add: client_receives on_inbound_def on_event_def cast_to_def message_cast_ok_def
          slots_of_def post_event_def)
  qed
qed

theorem event_reaches_slots_witness:
  "\<exists>logs c. c = fst sample_run \<and> client_step c (Ev_received [3]) =
     (c, map Peer_did logs @ [Posted_event (10::nat) \<lparr>msg_type = W_event,
       msg_fields = [V_int 36, V_int 5, V_int 9, V_object []]\<rparr>])"
proof -
  let ?m = "\<lparr>msg_type = W_event, msg_fields = [V_int 36, V_int 5, V_int 9, V_object []]\<rparr>"
  have facts: "rx_message (c_peer (fst sample_run)) [3] = Some ?m \<and> client_state (fst sample_run) = Established \<and>
      slots_of (fst sample_run) (event_sub_id ?m) = [10]"
    by code_simp
  have "client_ok (fst sample_run)"
    using client_assertions.run_inv [OF client_ok_init(1) [of sample_codec], of sample_events]
    by (simp add: typed_run sample_typed sample_run_def)
  from event_reaches_slots [of "fst sample_run" "[3]" ?m, OF _ _ _ this] facts show ?thesis by auto
qed

subsection \<open>Topics and subscriptions\<close>

text \<open>
  Subscribing to a topic under whose URI the client has a subscription sends nothing, whatever
  options (such as another match policy) the topic has: the slot is added to that subscription.
\<close>

theorem known_topic_sends_nothing:
  assumes "client_state c = Established" and "\<not> p_terminating (c_peer c)" and "msg_type topic = W_subscribe"
    and "omap_find (c_topics c) (topic_uri_of topic) = Some sub"
  shows "client_step c (Ev_subscribe (with_option key v topic) slot h) =
    (add_slot sub (c_next_slot c) \<lparr>sr_topic = topic_uri_of topic, sr_slot = slot\<rparr>
       (c\<lparr>c_next_slot := c_next_slot c + 1\<rparr>),
     [User_posted h (Subscribed sub (c_next_slot c))])"
proof -
  have "topic_uri_of (with_option key v topic) = topic_uri_of topic"
    using assms(3) by (simp add: topic_uri_of_def with_option_def set_options_def options_position_def
        string_field_def vec_at_def)
  moreover have "p_terminating (c_peer (add_slot sub i rec (c\<lparr>c_next_slot := n\<rparr>))) = p_terminating (c_peer c)"
    for i rec n
    by (simp add: add_slot_def)
  ultimately show ?thesis
    using assms by (simp add: subscribe_def check_state_def next_slot_id_def post_user_def)
qed

theorem known_topic_sends_nothing_witness:
  "\<exists>c. c = fst sample_run \<and> snd (client_step c (Ev_subscribe (using_prefix_match (make_topic ''t'')) 20 21)) =
     [User_posted (21::nat) (Subscribed 5 1)]"
proof -
  have facts: "client_state (fst sample_run) = Established \<and> \<not> p_terminating (c_peer (fst sample_run)) \<and>
      omap_find (c_topics (fst sample_run)) ''t'' = Some 5 \<and> c_next_slot (fst sample_run) = 1"
    by code_simp
  have topic: "msg_type (make_topic ''t'') = W_subscribe \<and> topic_uri_of (make_topic ''t'') = ''t''"
    by (simp add: make_topic_def subscribe_message_def make_message_def topic_uri_of_def string_field_def vec_at_def)
  from known_topic_sends_nothing [of "fst sample_run" "make_topic ''t''" 5 "''match''" "V_string ''prefix''" 20 21]
    facts topic
  show ?thesis by (simp add: using_prefix_match_def)
qed

text \<open>What of the client an effect of the peer leaves alone\<close>

definition tables :: "'u client \<Rightarrow> (string, int) omap \<times> (int, 'u local_subs) omap \<times>
    (int, 'u registration_record) omap \<times> (request_id, int) omap" where
  "tables c = (c_topics c, c_readership c, c_registry c, c_pending c)"

fun quiet :: "'h peer_effect \<Rightarrow> bool" where
  "quiet (Call_handler h m) \<longleftrightarrow> False"
| "quiet (Call_kept h m) \<longleftrightarrow> False"
| "quiet (Inbound_message m) \<longleftrightarrow> False"
| "quiet _ \<longleftrightarrow> True"

lemma perform_quiet:
  "quiet x \<Longrightarrow> tables (fst (perform x c)) = tables c \<and> c_peer (fst (perform x c)) = c_peer c"
  by (cases x) (simp_all add: tables_def)

lemma perform_all_quiet:
  "list_all quiet xs \<Longrightarrow> tables (fst (perform_all xs c)) = tables c \<and> c_peer (fst (perform_all xs c)) = c_peer c"
proof (induction xs arbitrary: c)
  case Nil
  then show ?case by simp
next
  case (Cons x xs)
  then show ?case using perform_quiet [of x c] by (simp add: and_then_def Let_def case_prod_beta)
qed

lemma quiet_and_then:
  "list_all quiet (snd r) \<Longrightarrow> (\<And>q. list_all quiet (snd (f q))) \<Longrightarrow> list_all quiet (snd (and_then r f))"
  by (simp add: and_then_def Let_def case_prod_beta)

lemma quiet_effects [simp]:
  "list_all quiet (check_that b)" "list_all quiet (log_effects p l t ec)" "list_all quiet (trace_rx vs p)"
  "list_all quiet (trace_tx m p)" "list_all quiet (hand_to_transport bs p)"
  "list_all quiet (snd (set_state s p))" "list_all quiet (snd (abort_pending ec p))"
  by (auto simp: check_that_def log_effects_def trace_rx_def trace_tx_def trace_effects_def
      hand_to_transport_def set_state_def abort_pending_def list_all_iff)

lemma quiet_send: "list_all quiet (snd (snd (send m p)))"
  by (simp add: send_def send_message_def Let_def case_prod_beta)

lemma quiet_goodbye:
  "p_state p \<noteq> Shutting_down \<Longrightarrow> list_all quiet (snd (process_goodbye m p))"
  by (auto simp: process_goodbye_def Let_def case_prod_beta quiet_send split: sum.split
      intro!: quiet_and_then)

text \<open>
  A GOODBYE of the router closes the session when the answer to it fits the transport, but
  leaves the topics, subscriptions, registrations and pending invocations of that session in the
  client, to be used in the next one.
\<close>

theorem router_goodbye_keeps_tables:
  assumes "rx_message (c_peer c) b = Some m" and "msg_type m = W_goodbye" and "client_state c = Established"
  shows "tables (fst (client_step c (Ev_received b))) = tables c \<and>
    (length (encode (p_codec (c_peer c)) (msg_fields (goodbye_message ''wamp.error.goodbye_and_out'' [])))
       \<le> p_max_tx (c_peer c) \<longrightarrow> client_state (fst (client_step c (Ev_received b))) = Closed)"
proof -
  let ?p = "c_peer c"
  let ?bye = "goodbye_message ''wamp.error.goodbye_and_out'' []"
  have reply: "message_replies_to m = W_none" using assms(2) by (simp add: message_replies_to_def lookup_named)
  have state: "p_state ?p = Established" using assms(3) by (simp add: client_state_def)
  have rx: "on_transport_rx b ?p = and_then (?p, trace_rx (msg_fields m) ?p) (process_goodbye m)"
    using on_transport_rx_accepted [OF assms(1)] assms(2) reply
    by (simp add: and_then_def Let_def case_prod_beta process_message_def)
  then have "list_all quiet (snd (on_transport_rx b ?p))"
    using state by (simp add: quiet_goodbye and_then_def Let_def case_prod_beta)
  from perform_all_quiet [OF this, of "c\<lparr>c_peer := fst (on_transport_rx b ?p)\<rparr>"]
  have kept: "tables (fst (client_step c (Ev_received b))) = tables c"
    and peer: "c_peer (fst (client_step c (Ev_received b))) = fst (process_goodbye m ?p)"
    by (simp_all add: with_peer_def case_prod_beta Let_def tables_def rx and_then_def)
  have "p_state (fst (process_goodbye m ?p)) = Closed"
    if "length (encode (p_codec ?p) (msg_fields ?bye)) \<le> p_max_tx ?p"
  proof -
    have "\<not> has_request_id ?bye" by (simp add: has_request_id_def goodbye_message_def make_message_def lookup_named)
    with that show ?thesis
      using state
      by (simp add: process_goodbye_def abort_pending_def send_def send_message_def set_message_request_id_def
          Let_def case_prod_beta and_then_def set_state_def split: sum.split)
  qed
  with kept peer show ?thesis by (simp add: client_state_def)
qed

theorem router_goodbye_keeps_tables_witness:
  "\<exists>c. c = fst sample_run \<and> c_topics (fst (client_step c (Ev_received [4]))) = [(''t'', 5)] \<and>
     client_state (fst (client_step c (Ev_received [4]))) = Closed"
proof -
  let ?m = "\<lparr>msg_type = W_goodbye, msg_fields = [V_int 6, V_object [], V_string ''wamp.close.system_shutdown'']\<rparr>"
  have facts: "rx_message (c_peer (fst sample_run)) [4] = Some ?m \<and> client_state (fst sample_run) = Established \<and>
      c_topics (fst sample_run) = [(''t'', 5)] \<and>
      length (encode (p_codec (c_peer (fst sample_run))) (msg_fields (goodbye_message ''wamp.error.goodbye_and_out'' [])))
        \<le> p_max_tx (c_peer (fst sample_run))"
    by code_simp
  from router_goodbye_keeps_tables [of "fst sample_run" "[4]" ?m] facts show ?thesis
    by (simp add: tables_def)
qed

subsection \<open>The subscriptions as one map\<close>

text \<open>The abstract view: the record of each pair of a subscription ID and a slot ID\<close>

definition subs_of :: "'u client \<Rightarrow> int \<times> u64 \<Rightarrow> 'u subscription_record option" where
  "subs_of c = (\<lambda>(sub, slot).
    case omap_find (c_readership c) sub of None \<Rightarrow> None | Some locals \<Rightarrow> omap_find locals slot)"

definition only_slot :: "int \<Rightarrow> u64 \<Rightarrow> 'u client \<Rightarrow> bool" where
  "only_slot sub slot c \<longleftrightarrow>
    (case omap_find (c_readership c) sub of None \<Rightarrow> False
     | Some locals \<Rightarrow> omap_find locals slot \<noteq> None \<and> omap_erase slot locals = [])"

lemma subs_of_add_slot: "subs_of (add_slot sub slot rec c) = (subs_of c)((sub, slot) \<mapsto> rec)"
  by (auto simp: subs_of_def add_slot_def omap_find_put fun_eq_iff split: option.split)

lemma only_slot_iff:
  "only_slot sub slot c \<longleftrightarrow> (\<forall>s. (subs_of c (sub, s) \<noteq> None) = (s = slot))"
proof (cases "omap_find (c_readership c) sub")
  case None
  then show ?thesis by (auto simp: only_slot_def subs_of_def)
next
  case (Some l)
  have "omap_erase slot l = [] \<longleftrightarrow> (\<forall>s. omap_find (omap_erase slot l) s = None)"
    by (cases "omap_erase slot l") auto
  with Some show ?thesis by (auto simp: only_slot_def subs_of_def omap_find_erase)
qed

lemma omap_find_last: "omap_erase k m = [] \<Longrightarrow> k' \<noteq> k \<Longrightarrow> omap_find m k' = None"
  by (metis omap_find_erase omap_find_Nil)

lemma remove_slot_subs:
  "remove_slot sub slot c = Some (was_last, c1) \<Longrightarrow>
     subs_of c1 = (subs_of c)((sub, slot) := None) \<and> was_last = only_slot sub slot c \<and> c_peer c1 = c_peer c"
  by (auto simp: remove_slot_def subs_of_def only_slot_def Let_def omap_find_put omap_find_erase omap_find_last fun_eq_iff
      split: option.splits if_splits)

lemma remove_slot_None: "remove_slot sub slot c = None \<Longrightarrow> subs_of c (sub, s) = None \<and> \<not> only_slot sub slot c"
  by (simp add: remove_slot_def subs_of_def only_slot_def Let_def split: option.splits if_splits)

lemma subs_of_tables: "tables c = tables d \<Longrightarrow> subs_of c = subs_of d"
  by (simp add: tables_def subs_of_def)

lemma quiet_request: "list_all quiet (snd (snd (request m h p)))"
  by (auto simp: request_def request_pending_def send_request_def Let_def case_prod_beta split: option.split)

lemma tables_request_by: "tables (fst (request_by m req c)) = tables c"
  using perform_all_quiet [OF quiet_request, of m req "c_peer c"]
  by (simp add: request_by_def ask_peer_snd with_peer_def case_prod_beta Let_def) (simp add: tables_def)

lemma subs_of_request_by [simp]: "subs_of (fst (request_by m req c)) = subs_of c"
  by (rule subs_of_tables [OF tables_request_by])

lemma subs_of_unsubscribe:
  "subs_of (fst (unsubscribe sub slot c)) = (subs_of c)((sub, slot) := None)"
proof (cases "remove_slot sub slot c")
  case None
  then show ?thesis by (auto simp: unsubscribe_def fun_eq_iff dest!: remove_slot_None)
next
  case (Some r)
  with remove_slot_subs [of sub slot c "fst r" "snd r"] show ?thesis
    by (simp add: unsubscribe_def send_unsubscribe_def case_prod_beta)
qed

lemma subs_of_check_state: "subs_of (fst r) = subs_of c \<Longrightarrow> subs_of (fst (check_state s h r c)) = subs_of c"
  by (simp add: check_state_def)

lemma subs_of_unsubscribe_with:
  "subs_of (fst (unsubscribe_with sub slot h c)) = (subs_of c)((sub, slot) := None)"
proof (cases "remove_slot sub slot c")
  case None
  then show ?thesis by (auto simp: unsubscribe_with_def fun_eq_iff dest!: remove_slot_None)
next
  case (Some r)
  with remove_slot_subs [of sub slot c "fst r" "snd r"]
    subs_of_check_state [OF subs_of_request_by, of Established h "unsubscribe_message sub" "Unsubscribing_with h" "snd r"]
  show ?thesis
    by (simp add: unsubscribe_with_def send_unsubscribe_with_def case_prod_beta)
qed

text \<open>
  C9: the nested maps of the readership implement one map from pairs of subscription and slot IDs: a
  SUBSCRIBED reply and a local subscription add one pair, the next slot ID, an unsubscription
  removes its pair, and the router is told exactly when the last slot of a subscription goes.
\<close>

theorem subscriptions_refine:
  "subs_of (fst (on_reply (Subscribing rec h) reply dies c)) =
     (case reply of Inl ec \<Rightarrow> subs_of c
      | Inr m \<Rightarrow> if msg_type m = W_error then subs_of c
                 else (subs_of c)((int_field m 2, c_next_slot c) \<mapsto> rec)) \<and>
   subs_of (fst (subscribe topic slot h c)) =
     (if client_state c = Established
      then (case omap_find (c_topics c) (topic_uri_of topic) of None \<Rightarrow> subs_of c
            | Some sub \<Rightarrow> (subs_of c)((sub, c_next_slot c) \<mapsto> \<lparr>sr_topic = topic_uri_of topic, sr_slot = slot\<rparr>))
      else subs_of c) \<and>
   subs_of (fst (unsubscribe sub i c)) = (subs_of c)((sub, i) := None) \<and>
   subs_of (fst (unsubscribe_with sub i h c)) = (subs_of c)((sub, i) := None) \<and>
   (\<exists>c1. unsubscribe sub i c =
     (if only_slot sub i c \<and> client_state c = Established
      then request_by (unsubscribe_message sub) Unsubscribing c1 else (c1, [])))"
proof (intro conjI)
  have upd: "subs_of (c\<lparr>c_topics := t\<rparr>) = subs_of c" "subs_of (c\<lparr>c_next_slot := n\<rparr>) = subs_of c" for c :: "'a client" and t n
    by (simp_all add: subs_of_def)
  show "subs_of (fst (on_reply (Subscribing rec h) reply dies c)) =
     (case reply of Inl ec \<Rightarrow> subs_of c
      | Inr m \<Rightarrow> if msg_type m = W_error then subs_of c
                 else (subs_of c)((int_field m 2, c_next_slot c) \<mapsto> rec))"
    by (auto simp: on_reply_defs check_reply_def next_slot_id_def subs_of_add_slot upd Let_def case_prod_beta
        split: sum.split)
  show "subs_of (fst (subscribe topic slot h c)) =
     (if client_state c = Established
      then (case omap_find (c_topics c) (topic_uri_of topic) of None \<Rightarrow> subs_of c
            | Some sub \<Rightarrow> (subs_of c)((sub, c_next_slot c) \<mapsto> \<lparr>sr_topic = topic_uri_of topic, sr_slot = slot\<rparr>))
      else subs_of c)"
    by (simp add: subscribe_def check_state_def next_slot_id_def subs_of_add_slot upd Let_def split: option.split)
  show "\<exists>c1. unsubscribe sub i c =
     (if only_slot sub i c \<and> client_state c = Established
      then request_by (unsubscribe_message sub) Unsubscribing c1 else (c1, []))"
  proof (cases "remove_slot sub i c")
    case None
    then show ?thesis using remove_slot_None [OF None] by (simp add: unsubscribe_def)
  next
    case (Some r)
    with remove_slot_subs [of sub i c "fst r" "snd r"] show ?thesis
      by (auto simp: unsubscribe_def send_unsubscribe_def client_state_def case_prod_beta)
  qed
qed (rule subs_of_unsubscribe subs_of_unsubscribe_with)+

lemma quiet_only_peer:
  "list_all quiet xs \<Longrightarrow> x \<in> set (snd (perform_all xs c)) \<Longrightarrow> \<exists>y. x = Peer_did y"
proof (induction xs arbitrary: c)
  case Nil
  then show ?case by simp
next
  case (Cons y ys)
  moreover have "z \<in> set (snd (perform y c)) \<Longrightarrow> \<exists>y. z = Peer_did y" for z
    using Cons.prems(1) by (cases y) auto
  ultimately show ?case by (auto simp: and_then_def Let_def case_prod_beta)
qed

lemma request_by_only_peer: "x \<in> set (snd (request_by m req c)) \<Longrightarrow> \<exists>y. x = Peer_did y"
  using quiet_only_peer [OF quiet_request]
  by (auto simp: request_by_def ask_peer_snd with_peer_def case_prod_beta Let_def)

text \<open>
  \<open>unsubscribe\<close> with a completion handler destroys the handler without calling it exactly when
  the subscription is known but the slot is not, or is not its only one.
\<close>

theorem unsubscribe_forgets_handler:
  "User_forgotten h \<in> set (snd (unsubscribe_with sub slot h c)) \<longleftrightarrow>
     omap_find (c_readership c) sub \<noteq> None \<and> \<not> only_slot sub slot c"
proof (cases "remove_slot sub slot c")
  case None
  then have "omap_find (c_readership c) sub = None"
    by (auto simp: remove_slot_def Let_def split: option.splits if_splits)
  with None show ?thesis by (simp add: unsubscribe_with_def post_user_def)
next
  case (Some r)
  then have "omap_find (c_readership c) sub \<noteq> None"
    by (auto simp: remove_slot_def split: option.splits)
  moreover have "User_forgotten h \<notin> set (snd (send_unsubscribe_with sub h d))" for d
    using request_by_only_peer [of "User_forgotten h" "unsubscribe_message sub" "Unsubscribing_with h" d]
    by (auto simp: send_unsubscribe_with_def check_state_def post_user_def)
  ultimately show ?thesis
    using Some remove_slot_subs [of sub slot c "fst r" "snd r"]
    by (simp add: unsubscribe_with_def case_prod_beta)
qed

end
