(* ===== verification/Client_Invocations.thy ===== *)
theory Client_Invocations
  imports Client_Behaviour
begin

section \<open>Invocations and interruptions\<close>

text \<open>
  How often the slots for invocations and for interruptions are run for a request ID: in every
  operation of the client the interruptions are covered by invocations, by those it posts or by
  the pending one.
\<close>

fun is_invocation :: "request_id \<Rightarrow> 'u client_effect \<Rightarrow> bool" where
  "is_invocation i (Posted_invocation slot m) \<longleftrightarrow> invocation_request_id m = i"
| "is_invocation i _ \<longleftrightarrow> False"

fun is_interrupt :: "request_id \<Rightarrow> 'u client_effect \<Rightarrow> bool" where
  "is_interrupt i (Posted_interrupt slot m) \<longleftrightarrow> interrupt_request_id m = i"
| "is_interrupt i _ \<longleftrightarrow> False"

definition invocations :: "request_id \<Rightarrow> 'u client_effect list \<Rightarrow> nat" where
  "invocations i xs = length (filter (is_invocation i) xs)"

definition interrupts :: "request_id \<Rightarrow> 'u client_effect list \<Rightarrow> nat" where
  "interrupts i xs = length (filter (is_interrupt i) xs)"

definition is_pending :: "request_id \<Rightarrow> 'u client \<Rightarrow> nat" where
  "is_pending i c = (if omap_find (c_pending c) i = None then 0 else 1)"

text \<open>A step that starts from \<open>c\<close> pays for its interruptions with invocations, its own or a pending one.\<close>

definition covered :: "request_id \<Rightarrow> 'u client \<Rightarrow> 'u client_result \<Rightarrow> bool" where
  "covered i c r \<longleftrightarrow>
    interrupts i (snd r) + is_pending i (fst r) \<le> is_pending i c + invocations i (snd r)"

lemma counts_simps [simp]:
  "invocations i [] = 0" "invocations i (xs @ ys) = invocations i xs + invocations i ys"
  "invocations i (x # xs) = (if is_invocation i x then 1 else 0) + invocations i xs"
  "interrupts i [] = 0" "interrupts i (xs @ ys) = interrupts i xs + interrupts i ys"
  "interrupts i (x # xs) = (if is_interrupt i x then 1 else 0) + interrupts i xs"
  by (simp_all add: invocations_def interrupts_def)

text \<open>Effects that post neither\<close>

definition calm :: "'u client_effect list \<Rightarrow> bool" where
  "calm xs \<longleftrightarrow> (\<forall>i. list_all (\<lambda>x. \<not> is_invocation i x \<and> \<not> is_interrupt i x) xs)"

lemma calm_counts: "calm xs \<Longrightarrow> invocations i xs = 0 \<and> interrupts i xs = 0"
  by (induction xs) (auto simp: calm_def)

lemma calm_simps [simp]:
  "calm []" "calm (xs @ ys) \<longleftrightarrow> calm xs \<and> calm ys"
  "calm (Peer_did x # xs) = calm xs" "calm (Timer_did t # xs) = calm xs" "calm (User_posted h v # xs) = calm xs"
  "calm (User_dispatched h v # xs) = calm xs" "calm (User_called h v # xs) = calm xs"
  "calm (User_dropped h # xs) = calm xs" "calm (User_forgotten h # xs) = calm xs"
  "calm (Posted_event h m # xs) = calm xs" "calm (Strand_yield i m # xs) = calm xs"
  "calm (Establish n # xs) = calm xs" "calm (Connector_cancel # xs) = calm xs" "calm (Null_connector # xs) = calm xs"
  "calm (Cancel_slot_assigned i cm # xs) = calm xs" "calm (Chit_written ch # xs) = calm xs"
  "calm (Error_written m # xs) = calm xs" "calm (Abort_written m # xs) = calm xs"
  "calm (Wrong_message ty ty' # xs) = calm xs" "calm (Client_assertion # xs) = calm xs" "calm (Client_threw # xs) = calm xs"
  by (auto simp: calm_def)

lemma calm_maps [simp]: "calm (map Peer_did ps)" "calm (map Timer_did ts)" "calm (map (\<lambda>kv. post_event m (snd kv)) ls)"
  by (simp_all add: calm_def list_all_iff post_event_def)

lemma calm_helpers [simp]:
  "calm (post_user h v c)" "calm (dispatch_user h v c)" "calm (dispatch_reusable h v c)"
  "calm (client_log l t ec c)" "calm (client_log_if l t c)" "calm (cast_to ty m)" "calm (warn_event_error e s p c)"
  by (simp_all add: post_user_def dispatch_user_def dispatch_reusable_def client_log_def client_log_if_def
      cast_to_def warn_event_error_def)

lemma covered_calm: "calm xs \<Longrightarrow> is_pending i c' \<le> is_pending i c \<Longrightarrow> covered i c (c', xs)"
  using calm_counts [of xs i] by (simp add: covered_def)

lemma covered_and_then:
  assumes "covered i c r" and "\<And>d. covered i d (f d)"
  shows "covered i c (and_then r f)"
  using assms(1) assms(2) [of "fst r"] by (auto simp: covered_def and_then_def Let_def case_prod_beta)

lemma covered_from: "covered i d r \<Longrightarrow> is_pending i d \<le> is_pending i c \<Longrightarrow> covered i c r"
  by (simp add: covered_def)

lemma is_pending_upd [simp]:
  "is_pending i (c\<lparr>c_peer := p\<rparr>) = is_pending i c" "is_pending i (c\<lparr>c_connector := b\<rparr>) = is_pending i c"
  "is_pending i (c\<lparr>c_establishing := a\<rparr>) = is_pending i c" "is_pending i (c\<lparr>c_topics := t\<rparr>) = is_pending i c"
  "is_pending i (c\<lparr>c_readership := r\<rparr>) = is_pending i c" "is_pending i (c\<lparr>c_registry := g\<rparr>) = is_pending i c"
  "is_pending i (c\<lparr>c_scheduler := s\<rparr>) = is_pending i c" "is_pending i (c\<lparr>c_challenge_handler := h\<rparr>) = is_pending i c"
  "is_pending i (c\<lparr>c_next_slot := n\<rparr>) = is_pending i c" "is_pending i (c\<lparr>c_posted := q\<rparr>) = is_pending i c"
  "is_pending i (c\<lparr>c_pending := omap_put k v (c_pending c)\<rparr>) = (if i = k then 1 else is_pending i c)"
  "is_pending i (c\<lparr>c_pending := omap_erase k (c_pending c)\<rparr>) = (if i = k then 0 else is_pending i c)"
  "is_pending i (c\<lparr>c_pending := []\<rparr>) = 0" "is_pending i (clear_tables c) = is_pending i c"
  "is_pending i (add_slot sub slot rec c) = is_pending i c"
  by (simp_all add: is_pending_def omap_find_put omap_find_erase clear_tables_def add_slot_def)

lemma calm_check_reply:
  "(\<And>v. calm (dispatch v c)) \<Longrightarrow> calm (snd (check_reply reply t e dispatch captures c))"
  by (auto simp: check_reply_def Let_def case_prod_beta split: sum.split)

lemma calm_on_reply: "calm (snd (on_reply req reply dies c)) \<and> is_pending i (fst (on_reply req reply dies c)) = is_pending i c"
proof -
  have "calm (snd (check_reply reply t e (dispatch_user h) b d))" for t e h b and d :: "'a client"
    by (rule calm_check_reply) simp
  moreover have "calm (snd (check_reply reply t e (dispatch_reusable h) b d))" for t e h b and d :: "'a client"
    by (rule calm_check_reply) simp
  moreover have "calm (check_reply_quietly reply t d)" for t and d :: "'a client"
    by (auto simp: check_reply_quietly_def Let_def split: sum.split)
  ultimately show ?thesis
    by (cases req; cases reply)
      (simp_all add: on_reply_defs on_welcome_def on_join_aborted_def next_slot_id_def Let_def case_prod_beta
        split: bool.split)
qed

lemma covered_pair: "covered i c (c', xs) \<longleftrightarrow> interrupts i xs + is_pending i c' \<le> is_pending i c + invocations i xs"
  by (simp add: covered_def)

lemma covered_on_reply: "covered i c (on_reply req reply dies c)"
  using calm_on_reply [of req reply dies c i] calm_counts [of "snd (on_reply req reply dies c)" i]
  by (simp add: covered_def)

lemma covered_peer_sends: "covered i c (snd (peer_sends f c))" "calm (snd (snd (peer_sends f c)))"
  "is_pending i (fst (snd (peer_sends f c))) = is_pending i c"
  by (simp_all add: peer_sends_def case_prod_beta Let_def covered_calm)

lemma covered_on_inbound: "covered i c (on_inbound m c)"
proof -
  have calm: "calm xs \<Longrightarrow> invocations i xs = 0" "calm xs \<Longrightarrow> interrupts i xs = 0" for xs :: "'a client_effect list"
    using calm_counts by blast+
  have "covered i c (on_challenge m c)"
    by (auto simp: on_challenge_def authenticate_def Let_def case_prod_beta covered_peer_sends
        intro!: covered_calm split: option.split)
  moreover have "covered i c (on_event m c)"
    by (auto simp: on_event_def Let_def intro!: covered_calm split: option.split)
  moreover have "covered i c (on_invocation m c)"
    using covered_peer_sends
    by (auto simp: on_invocation_def Let_def case_prod_beta covered_def calm split: option.split)
  moreover have "covered i c (on_interrupt m c)"
    by (auto simp: on_interrupt_def Let_def covered_def calm is_pending_def omap_find_erase split: option.split)
  ultimately show ?thesis
    by (auto simp: on_inbound_def covered_calm split: wamp_msg_type.split)
qed

lemma covered_perform: "covered i c (perform x c)"
  by (cases x) (simp_all add: covered_on_reply covered_on_inbound covered_calm)

lemma covered_perform_all: "covered i c (perform_all xs c)"
  by (induction xs arbitrary: c) (simp_all add: covered_calm covered_and_then covered_perform)

lemma covered_with_peer: "covered i c (with_peer f c)"
  using covered_perform_all [of i "c\<lparr>c_peer := fst (f (c_peer c))\<rparr>"]
  by (simp add: with_peer_def case_prod_beta Let_def covered_def)

lemma covered_ask_peer: "covered i c (snd (ask_peer f c))"
  by (simp add: ask_peer_snd covered_with_peer)

lemma covered_request_by: "covered i c (request_by m req c)"
  by (simp add: request_by_def covered_ask_peer)

lemma covered_check_state: "covered i c r \<Longrightarrow> covered i c (check_state s h r c)"
  by (simp add: check_state_def covered_calm)

lemma covered_on_scheduler: "covered i c (on_scheduler f c)"
  by (simp add: on_scheduler_def case_prod_beta Let_def covered_calm)

lemma covered_do_connect: "covered i c (do_connect a c)"
  by (simp add: do_connect_def covered_calm)

lemmas covered_steps = covered_and_then covered_check_state covered_with_peer covered_ask_peer
  covered_request_by covered_on_scheduler covered_do_connect covered_calm

lemma covered_self: "covered i c (c, [])" by (simp add: covered_calm)

lemma covered_connections:
  "covered i c (connect wishes h c)" "covered i c (connector_done k r c)" "covered i c (do_disconnect c)"
  "covered i c (terminate c)" "covered i c (join rl h c)" "covered i c (leave m h c)"
proof -
  have "covered i d (do_connect a (d\<lparr>c_connector := b\<rparr>))" for d :: "'a client" and a b
    by (rule covered_from [OF covered_do_connect]) simp
  then show "covered i c (connect wishes h c)"
    unfolding connect_def by (intro covered_steps) (simp_all add: covered_calm)
  have established: "covered i d (on_established a r d)" for d :: "'a client" and a
    by (auto simp: on_established_def on_connect_failure_def Let_def split: sum.split intro!: covered_steps)
  have "covered i c (on_established a r (c\<lparr>c_establishing := as\<rparr>))" for a as
    by (rule covered_from [OF established]) simp
  then show "covered i c (connector_done k r c)"
    by (auto simp: connector_done_def covered_self split: option.split)
  have disc: "covered i d (do_disconnect d)" for d :: "'a client"
  proof -
    have "covered i e (on_scheduler scheduler_clear ((clear_tables e)\<lparr>c_pending := []\<rparr>))" for e :: "'a client"
      by (rule covered_from [OF covered_on_scheduler]) simp
    then show ?thesis unfolding do_disconnect_def by (intro covered_steps) (simp_all add: covered_calm)
  qed
  then show "covered i c (do_disconnect c)" .
  show "covered i c (terminate c)"
    unfolding terminate_def by (rule covered_from [OF disc]) simp
  show "covered i c (join rl h c)"
    unfolding join_def Let_def by (intro covered_steps)
  show "covered i c (leave m h c)"
    unfolding leave_def by (intro covered_steps)
qed

lemma remove_slot_pending: "remove_slot sub slot c = Some (b, c1) \<Longrightarrow> is_pending i c1 = is_pending i c"
  by (auto simp: remove_slot_def Let_def split: option.splits if_splits)

lemma covered_requests:
  "covered i c (subscribe m slot h c)" "covered i c (unsubscribe sub sl c)" "covered i c (unsubscribe_with sub sl h c)"
  "covered i c (snd (publish m c))" "covered i c (publish_with m h c)" "covered i c (enroll m cs is h c)"
  "covered i c (unregister reg c)" "covered i c (unregister_with reg h c)"
proof -
  show "covered i c (subscribe m slot h c)"
    unfolding subscribe_def Let_def
    by (rule covered_check_state) (auto simp: next_slot_id_def covered_request_by covered_calm split: option.split)
  have "covered i c (send_unsubscribe sub d)" "covered i c (send_unsubscribe_with sub h d)"
    if "is_pending i d = is_pending i c" for d
    using that by (auto simp: send_unsubscribe_def send_unsubscribe_with_def
        intro!: covered_from [OF covered_request_by] covered_from [OF covered_check_state [OF covered_request_by]] covered_calm)
  then show "covered i c (unsubscribe sub sl c)" "covered i c (unsubscribe_with sub sl h c)"
    by (auto simp: unsubscribe_def unsubscribe_with_def covered_calm remove_slot_pending split: option.split)
  show "covered i c (snd (publish m c))"
    by (simp add: publish_def covered_self covered_ask_peer)
  show "covered i c (publish_with m h c)" "covered i c (enroll m cs is h c)"
    unfolding publish_with_def enroll_def by (intro covered_steps)+
  show "covered i c (unregister reg c)" "covered i c (unregister_with reg h c)"
    by (auto simp: unregister_def unregister_with_def Let_def covered_self covered_calm split: option.split
        intro!: covered_from [OF covered_request_by] covered_from [OF covered_check_state [OF covered_request_by]])
qed

lemma covered_calls:
  "covered i c (one_shot_call r chit canc now h c)" "covered i c (ongoing_call r chit canc now h c)"
  "covered i c (snd (cancel_call_by j mode c))"
proof -
  have arm: "covered i d (arm_call r j chit canc now d)" for d :: "'a client" and r j
    unfolding arm_call_def by (intro covered_steps) (auto simp: emit_def intro!: covered_steps)
  show "covered i c (one_shot_call r chit canc now h c)"
    unfolding one_shot_call_def Let_def case_prod_beta prod.collapse
    by (intro covered_steps arm) simp_all
  show "covered i c (ongoing_call r chit canc now h c)"
    unfolding ongoing_call_def Let_def case_prod_beta prod.collapse
    by (intro covered_steps arm) simp_all
  show "covered i c (snd (cancel_call_by j mode c))"
    by (simp add: cancel_call_by_def covered_self covered_ask_peer)
qed

lemma covered_yields:
  "covered i c (snd (yield_error j m c))" "covered i c (snd (yield_result j m c))"
  "covered i c (rpc_slot_ran j e c)" "covered i c (event_slot_ran m e c)"
proof -
  have ye: "covered i d (snd (yield_error j m d))" for d :: "'a client" and m
    by (auto simp: yield_error_def covered_self intro!: covered_from [OF covered_ask_peer])
  then show "covered i c (snd (yield_error j m c))" .
  have ask: "covered i c (snd (ask_peer f (c\<lparr>c_pending := omap_erase j (c_pending c)\<rparr>)))"
    for f :: "'a client_request peer \<Rightarrow> (error_code + bool) \<times> 'a client_request peer_result"
    by (rule covered_from [OF covered_ask_peer]) simp
  have join: "covered i c r \<Longrightarrow> covered i c (fst (snd (yield_error j m (fst r))), snd r @ snd (snd (yield_error j m (fst r))))" for r m
    using ye [of "fst r" m] by (auto simp: covered_def)
  show "covered i c (snd (yield_result j m c))"
    using ask join [OF ask] join [OF covered_ask_peer]
    by (auto simp: yield_result_def Let_def case_prod_beta covered_calm covered_ask_peer split: sum.split)
  have "covered i c (fst (snd (yield_error j m c)), snd (snd (yield_error j m c)) @ (if b then [] else [Client_threw]))" for b m
    using ye [of c m] by (auto simp: covered_def)
  then show "covered i c (rpc_slot_ran j e c)"
    using ye by (auto simp: rpc_slot_ran_def case_prod_beta Let_def covered_calm
        split: slot_end.split outcome_type.split option.split)
  show "covered i c (event_slot_ran m e c)"
    by (simp add: event_slot_ran_def covered_calm split: slot_end.split)
qed

lemma covered_timers: "covered i c (perform_timers xs c)"
  by (induction xs arbitrary: c)
    (auto simp: covered_self perform_timer_def covered_calls covered_calm split: timer_effect.split intro!: covered_and_then)

lemma covered_step: "covered i c (client_step c e)"
proof -
  have "covered i c (on_timer_done ec c)" for ec
    by (auto simp: on_timer_done_def case_prod_beta Let_def intro!: covered_from [OF covered_timers])
  moreover have "covered i c (run_posted c)"
    by (auto simp: run_posted_def covered_self intro!: covered_from [OF covered_on_reply] split: list.split)
  moreover have "covered i c (snd (authenticate m c))" for m
    by (simp add: authenticate_def covered_self covered_peer_sends)
  ultimately show ?thesis
    by (cases e) (simp_all add: covered_connections covered_requests covered_calls covered_yields covered_with_peer covered_calm)
qed

text \<open>
  C10: in any run the INTERRUPTs posted to slots for a request ID are no more than the INVOCATIONs
  posted for it, so that an invocation is interrupted once at most.
\<close>

theorem interrupted_once:
  "interrupts i (snd (run_machine client_step (init_client k) es)) \<le>
     invocations i (snd (run_machine client_step (init_client k) es))"
proof -
  have "covered i c (run_machine client_step c es)" for c
  proof (induction es arbitrary: c)
    case Nil
    show ?case by (simp add: covered_self)
  next
    case (Cons e es)
    from covered_step [of i c e] Cons.IH [of "fst (client_step c e)"] show ?case
      by (auto simp: covered_def run_machine_Cons_fst run_machine_Cons_snd simp del: run_machine.simps)
  qed
  from this [of "init_client k"] show ?thesis by (simp add: covered_def is_pending_def init_client_def)
qed

end
