(* ===== verification/Client_Outcomes.thy ===== *)
theory Client_Outcomes
  imports Client_Behaviour
begin

section \<open>Connecting and timing out\<close>

text \<open>What the handler of \<open>connect\<close> gets, for any results of the attempts, and that of a call whose deadline passes.\<close>

text \<open>What the completion handler of \<open>connect\<close> gets when the attempts end with the given results\<close>

fun connect_value :: "nat \<Rightarrow> nat \<Rightarrow> (error_code + peer_transport) list \<Rightarrow> user_value" where
  "connect_value n i [] = Failed_with no_error"
| "connect_value n i (Inr t # rs) = Connected i"
| "connect_value n i (Inl ec # rs) =
     (if is_transport ec TE_aborted then Failed_with ec
      else if i + 1 < n then connect_value n (i + 1) rs
      else Failed_with (if 1 < n then session_ec SE_allTransportsFailed else ec))"

fun user_calls :: "'u client_effect list \<Rightarrow> ('u \<times> user_value) list" where
  "user_calls [] = []"
| "user_calls (User_dispatched h v # xs) = (h, v) # user_calls xs"
| "user_calls (User_posted h v # xs) = (h, v) # user_calls xs"
| "user_calls (_ # xs) = user_calls xs"

lemma user_calls_append [simp]: "user_calls (xs @ ys) = user_calls xs @ user_calls ys"
  by (induction xs rule: user_calls.induct) simp_all

lemma user_calls_peer [simp]: "user_calls (map Peer_did xs) = []"
  by (induction xs) simp_all

text \<open>The state of a client while it connects, with one attempt outstanding\<close>

definition connecting :: "'u attempt \<Rightarrow> 'u client \<Rightarrow> bool" where
  "connecting a c \<longleftrightarrow> client_state c = Connecting \<and> \<not> p_terminating (c_peer c) \<and> c_establishing c = [a]"

lemma idle_results:
  "c_establishing c = [] \<Longrightarrow> run_machine client_step c (map (Ev_connector_done 0) rs) = (c, [])"
  by (induction rs) (simp_all add: connector_done_def)

lemma with_peer_set_state:
  "with_peer (set_state s) c = (c\<lparr>c_peer := (c_peer c)\<lparr>p_state := s\<rparr>\<rparr>,
     map Peer_did (snd (set_state s (c_peer c))))"
  by (simp add: with_peer_def set_state_def and_then_def)

lemma with_peer_open:
  "client_state c = Connecting \<Longrightarrow> with_peer (open_peer t k) c =
     (c\<lparr>c_peer := (c_peer c)\<lparr>p_transport := Some t, p_codec := k, p_state := Closed, p_max_tx := tr_max_tx t\<rparr>\<rparr>,
      map Peer_did (snd (open_peer t k (c_peer c))))"
  by (auto simp: with_peer_def open_peer_def check_that_def client_state_def set_state_def and_then_def)

lemma connecting_result:
  assumes "connecting a c" and "at_index a < length (at_wishes a)"
  shows "\<exists>c' xs. connector_done 0 r c = (c', xs) \<and>
    (if (\<exists>ec. r = Inl ec \<and> \<not> is_transport ec TE_aborted) \<and> at_index a + 1 < length (at_wishes a)
     then connecting (a\<lparr>at_index := at_index a + 1\<rparr>) c' \<and> user_calls xs = []
     else c_establishing c' = [] \<and>
       user_calls xs = [(at_handler a, connect_value (length (at_wishes a)) (at_index a) [r])])"
proof (cases r)
  case (Inl ec)
  then show ?thesis
    using assms
    by (auto simp: connector_done_def connecting_def on_established_def on_connect_failure_def do_connect_def
        dispatch_user_def and_then_def with_peer_set_state client_state_def Let_def)
next
  case (Inr t)
  then show ?thesis
    using assms
    by (auto simp: connector_done_def connecting_def on_established_def dispatch_user_def and_then_def
        client_state_def with_peer_open)
qed

lemma connecting_run:
  assumes "connecting a c" and "at_index a < length (at_wishes a)"
    and "length (at_wishes a) - at_index a \<le> length rs"
  shows "user_calls (snd (run_machine client_step c (map (Ev_connector_done 0) rs))) =
    [(at_handler a, connect_value (length (at_wishes a)) (at_index a) rs)]"
  using assms
proof (induction rs arbitrary: a c)
  case Nil
  then show ?case by simp
next
  case (Cons r rs)
  let ?n = "length (at_wishes a)"
  from connecting_result [OF Cons.prems(1,2), of r] obtain c' xs where
    step: "connector_done 0 r c = (c', xs)" and
    cases: "if (\<exists>ec. r = Inl ec \<and> \<not> is_transport ec TE_aborted) \<and> at_index a + 1 < ?n
     then connecting (a\<lparr>at_index := at_index a + 1\<rparr>) c' \<and> user_calls xs = []
     else c_establishing c' = [] \<and> user_calls xs = [(at_handler a, connect_value ?n (at_index a) [r])]"
    by blast
  show ?case
  proof (cases "(\<exists>ec. r = Inl ec \<and> \<not> is_transport ec TE_aborted) \<and> at_index a + 1 < ?n")
    case True
    with cases Cons.IH [of "a\<lparr>at_index := at_index a + 1\<rparr>" c'] Cons.prems(3) show ?thesis
      by (auto simp: step Let_def case_prod_beta)
  next
    case False
    with cases have "c_establishing c' = []" "user_calls xs = [(at_handler a, connect_value ?n (at_index a) [r])]"
      by (simp_all split: if_splits)
    moreover have "connect_value ?n (at_index a) (r # rs) = connect_value ?n (at_index a) [r]"
      using False by (cases r) auto
    ultimately show ?thesis by (simp add: step idle_results)
  qed
qed

text \<open>
  C11: connecting always ends: whatever the attempts give, at the latest with the result for the
  last wish the handler is called, once, with the index of the first wish that connects, or the
  error of an abort, or when all fail the last error (\<open>allTransportsFailed\<close> if there are several).
\<close>

theorem connect_ends:
  assumes "client_state c = Disconnected" and "c_establishing c = []" and "wishes \<noteq> []"
    and "length wishes \<le> length rs"
  shows "user_calls (snd (run_machine client_step c (Ev_connect wishes h # map (Ev_connector_done 0) rs))) =
    [(h, connect_value (length wishes) 0 rs)]"
proof -
  let ?a = "\<lparr>at_wishes = wishes, at_index = 0, at_handler = h\<rparr>"
  let ?p = "(set_terminating False (c_peer c))\<lparr>p_state := Connecting\<rparr>"
  let ?c = "c\<lparr>c_peer := ?p, c_connector := True, c_establishing := [?a]\<rparr>"
  have step: "connect wishes h c = (?c, map Peer_did (snd (set_state Connecting (set_terminating False (c_peer c)))) @
      [Establish 0])"
    using assms
    by (simp add: connect_def check_state_def and_then_def with_peer_def set_state_def do_connect_def)
  have "connecting ?a ?c"
    by (simp add: connecting_def client_state_def set_terminating_def)
  from connecting_run [OF this, of rs] assms(3,4) show ?thesis
    by (simp add: step Let_def case_prod_beta)
qed

theorem connect_ends_witness:
  "user_calls (snd (run_machine client_step (init_client sample_codec)
     [Ev_connect [sample_codec, sample_codec] (1::nat),
      Ev_connector_done 0 (Inl (transport_ec TE_failed)),
      Ev_connector_done 0 (Inl (transport_ec TE_failed))])) =
   [(1, Failed_with (session_ec SE_allTransportsFailed))]"
proof -
  have "\<not> is_transport (transport_ec TE_failed) TE_aborted"
    by (simp add: is_transport_def transport_ec_def transport_equivalent_def)
  then show ?thesis
    using connect_ends [of "init_client sample_codec" "[sample_codec, sample_codec]"
        "[Inl (transport_ec TE_failed), Inl (transport_ec TE_failed)]" "1::nat"]
    by (simp add: client_state_def init_client_def init_peer_def)
qed

subsection \<open>The timeout of a call\<close>

fun mere :: "'h peer_effect \<Rightarrow> bool" where
  "mere (Post_error h ec) \<longleftrightarrow> False"
| "mere x \<longleftrightarrow> quiet x"

lemma perform_all_mere: "list_all mere xs \<Longrightarrow> perform_all xs c = (c, map Peer_did xs)"
proof (induction xs arbitrary: c)
  case Nil
  then show ?case by simp
next
  case (Cons x xs)
  then have "perform x c = (c, [Peer_did x])" by (cases x) simp_all
  with Cons show ?case by (simp add: and_then_def)
qed

lemma mere_send_message: "list_all mere (snd (snd (send_message m p)))"
  by (simp add: send_message_def Let_def case_prod_beta check_that_def trace_tx_def trace_effects_def
      hand_to_transport_def)

lemma perform_timers_waits:
  "list_all (\<lambda>x. \<forall>i. x \<noteq> Timed_out i) xs \<Longrightarrow> perform_timers xs c = (c, map Timer_did xs)"
proof (induction xs arbitrary: c)
  case Nil
  then show ?case by simp
next
  case (Cons x xs)
  then have "perform_timer x c = (c, [Timer_did x])" by (cases x) (simp_all add: perform_timer_def)
  with Cons show ?case by (simp add: and_then_def)
qed

lemma timer_fires:
  assumes "deadlines s = d # ds" and "waits s = (dl_request d, x) # ws" and "timeout_handler s"
  shows "\<exists>s' ys. scheduler_step s (Timer_done 0) = (s', Timed_out (dl_request d) # ys) \<and>
    list_all (\<lambda>x. \<forall>i. x \<noteq> Timed_out i) ys"
  using assms
  by (auto simp: on_timer_def process_next_deadline_def Let_def case_prod_beta split: list.split)

lemma cancel_pending_call:
  assumes "client_state c = Established" and "omap_find (p_one_shot (c_peer c)) (W_call, i) = Some (Plain req)"
  shows "\<exists>r. cancel_call_by i Kill_no_wait c = (r,
    c\<lparr>c_peer := (c_peer c)\<lparr>p_one_shot := omap_erase (W_call, i) (p_one_shot (c_peer c))\<rparr>,
      c_posted := c_posted c @ [(req, session_ec SE_cancelled)]\<rparr>,
    map Peer_did (snd (snd (send_message (cancel_message i [(''mode'', V_string ''killnowait'')])
      ((c_peer c)\<lparr>p_one_shot := omap_erase (W_call, i) (p_one_shot (c_peer c))\<rparr>)))))"
proof -
  let ?p = "(c_peer c)\<lparr>p_one_shot := omap_erase (W_call, i) (p_one_shot (c_peer c))\<rparr>"
  let ?m = "cancel_message i [(''mode'', V_string ''killnowait'')]"
  have "\<not> has_request_id ?m" by (simp add: has_request_id_def cancel_message_def make_message_def lookup_named)
  then have sent: "fst (snd (send_message ?m ?p)) = ?p" by (simp add: send_message_peer set_message_request_id_def)
  have "\<exists>r. cancel_call (make_call_cancellation i Kill_no_wait) (c_peer c) =
      (r, ?p, Post_error req (session_ec SE_cancelled) # snd (snd (send_message ?m ?p)))"
    using assms(2) sent
    by (simp add: cancel_call_def make_call_cancellation_def Let_def case_prod_beta omap_emplace_def)
  then show ?thesis
    using assms(1)
    by (auto simp: cancel_call_by_def ask_peer_def and_then_def perform_all_mere [OF mere_send_message])
qed


definition timed_client :: "nat client" where
  "timed_client = fst (run_machine client_step (init_client sample_codec)
     (take 4 sample_events @
      [Ev_call ((make_rpc ''p'')\<lparr>rpc_caller_timeout := 50\<rparr>) False False 0 30]))"


end
