(* ===== verification/Session.thy ===== *)
theory Session
  imports Client_Behaviour
begin

section \<open>Sessions and the handles they give out\<close>

text \<open>
  \<open>Session\<close> is the user's view of the client.  An operation checks its arguments and passes them on: it
  is the event that it is for the client, or \<open>None\<close> when the check throws \<open>error::Logic\<close>.  A handle
  refers to the client weakly; \<open>alive\<close> tells whether its reference is set.
\<close>

subsection \<open>Subscriptions, registrations and chits (\<open>internal/subscription.ipp\<close>, \<open>internal/registration.ipp\<close>, \<open>internal/chits.ipp\<close>)\<close>

record subscription =
  sub_alive :: bool
  sub_id :: int
  sub_slot :: u64

definition invalid_id :: int where
  "invalid_id = -1"

definition empty_subscription :: subscription where
  "empty_subscription = \<lparr>sub_alive = False, sub_id = invalid_id, sub_slot = -1\<rparr>"

definition make_subscription :: "int \<Rightarrow> u64 \<Rightarrow> subscription" where
  "make_subscription sub slot = \<lparr>sub_alive = True, sub_id = sub, sub_slot = slot\<rparr>"

definition subscription_bool :: "subscription \<Rightarrow> bool" where
  "subscription_bool s \<longleftrightarrow> sub_id s \<noteq> invalid_id"

text \<open>The moved-to and the moved-from subscription\<close>

definition move_subscription :: "subscription \<Rightarrow> subscription \<times> subscription" where
  "move_subscription other = (other, other\<lparr>sub_alive := False, sub_id := invalid_id, sub_slot := -1\<rparr>)"

definition subscription_unsubscribe :: "subscription \<Rightarrow> 'u client_event list" where
  "subscription_unsubscribe s = (if sub_alive s then [Ev_unsubscribe (sub_id s) (sub_slot s)] else [])"

record registration =
  reg_alive :: bool
  reg_id :: int

definition empty_registration :: registration where
  "empty_registration = \<lparr>reg_alive = False, reg_id = invalid_id\<rparr>"

definition make_registration :: "int \<Rightarrow> registration" where
  "make_registration reg = \<lparr>reg_alive = True, reg_id = reg\<rparr>"

definition registration_bool :: "registration \<Rightarrow> bool" where
  "registration_bool r \<longleftrightarrow> reg_id r \<noteq> invalid_id"

definition move_registration :: "registration \<Rightarrow> registration \<times> registration" where
  "move_registration other = (other, other\<lparr>reg_alive := False, reg_id := invalid_id\<rparr>)"

definition registration_unregister :: "registration \<Rightarrow> 'u client_event list" where
  "registration_unregister r = (if reg_alive r then [Ev_unregister (reg_id r)] else [])"

record call_chit =
  chit_alive :: bool
  chit_request :: request_id
  chit_mode :: call_cancel_mode

definition empty_chit :: call_chit where
  "empty_chit = \<lparr>chit_alive = False, chit_request = invalid_id, chit_mode = Kill\<rparr>"

definition make_chit :: "request_id \<Rightarrow> call_cancel_mode \<Rightarrow> call_chit" where
  "make_chit i mode = \<lparr>chit_alive = True, chit_request = i, chit_mode = mode\<rparr>"

definition chit_bool :: "call_chit \<Rightarrow> bool" where
  "chit_bool c \<longleftrightarrow> chit_request c \<noteq> invalid_id"

definition chit_cancel_with :: "call_cancel_mode \<Rightarrow> call_chit \<Rightarrow> 'u client_event list" where
  "chit_cancel_with mode c = (if chit_alive c then [Ev_cancel_call (chit_request c) mode] else [])"

definition chit_cancel :: "call_chit \<Rightarrow> 'u client_event list" where
  "chit_cancel c = chit_cancel_with (chit_mode c) c"

subsection \<open>Scoped handles\<close>

text \<open>
  \<open>ScopedSubscription\<close> and \<open>ScopedRegistration\<close> differ only in what they own, so the operations are
  defined once, for the value \<open>blank\<close> of a default-constructed handle.  A program's scoped handles are
  numbered; a destroyed one is gone from the list of those alive.  The effects are the calls of
  \<open>unsubscribe\<close> or \<open>unregister\<close> on the value that the handle has then, and the values that a handle
  lets go of without such a call.  \<open>Scoped_assign i j\<close> is the move assignment, also of a handle to
  itself.
\<close>

datatype 'r scoped_op =
    Scoped_make 'r
  | Scoped_move nat
  | Scoped_assign nat nat
  | Scoped_assign_value nat 'r
  | Scoped_release nat
  | Scoped_destroy nat

datatype 'r scoped_effect = Undo 'r | Let_go 'r

definition move_handle :: "'r \<Rightarrow> 'r \<Rightarrow> 'r \<times> 'r" where
  "move_handle blank other = (other, blank)"

definition scoped_assign_value :: "'r \<Rightarrow> 'r \<Rightarrow> 'r \<Rightarrow> 'r \<times> 'r scoped_effect list" where
  "scoped_assign_value blank new this = (fst (move_handle blank new), [Undo this])"

definition scoped_release :: "'r \<Rightarrow> 'r \<Rightarrow> 'r \<times> 'r scoped_effect list" where
  "scoped_release blank this = (fst (move_handle blank blank), [Let_go this])"

definition scoped_destroy :: "'r \<Rightarrow> 'r scoped_effect list" where
  "scoped_destroy this = [Undo this]"

definition scoped_assign :: "'r \<Rightarrow> nat \<Rightarrow> nat \<Rightarrow> 'r list \<Rightarrow> 'r list \<times> 'r scoped_effect list" where
  "scoped_assign blank i j hs =
    (let (this, other) = move_handle blank (hs ! j);
         hs1 = hs[i := this]
     in (hs1[j := other], [Undo (hs ! i)]))"

definition scoped_step :: "'r \<Rightarrow> 'r list \<Rightarrow> 'r scoped_op \<Rightarrow> 'r list \<times> 'r scoped_effect list" where
  "scoped_step blank hs x =
    (case x of
       Scoped_make s \<Rightarrow> (hs @ [fst (move_handle blank s)], [])
     | Scoped_move i \<Rightarrow>
         if i < length hs
         then (let (this, other) = move_handle blank (hs ! i) in (hs[i := other] @ [this], []))
         else (hs, [])
     | Scoped_assign i j \<Rightarrow>
         if i < length hs \<and> j < length hs then scoped_assign blank i j hs else (hs, [])
     | Scoped_assign_value i s \<Rightarrow>
         if i < length hs
         then (let (this, xs) = scoped_assign_value blank s (hs ! i) in (hs[i := this], xs))
         else (hs, [])
     | Scoped_release i \<Rightarrow>
         if i < length hs then (let (this, xs) = scoped_release blank (hs ! i) in (hs[i := this], xs))
         else (hs, [])
     | Scoped_destroy i \<Rightarrow>
         if i < length hs then (take i hs @ drop (Suc i) hs, scoped_destroy (hs ! i)) else (hs, []))"

text \<open>What \<open>unsubscribe()\<close> and \<open>unregister()\<close> of the effects ask of the client\<close>

fun subscription_events :: "subscription scoped_effect list \<Rightarrow> 'u client_event list" where
  "subscription_events [] = []"
| "subscription_events (Undo s # xs) = subscription_unsubscribe s @ subscription_events xs"
| "subscription_events (Let_go s # xs) = subscription_events xs"

fun registration_events :: "registration scoped_effect list \<Rightarrow> 'u client_event list" where
  "registration_events [] = []"
| "registration_events (Undo r # xs) = registration_unregister r @ registration_events xs"
| "registration_events (Let_go r # xs) = registration_events xs"

subsection \<open>The operations of a session (\<open>session.hpp\<close>, \<open>internal/session.ipp\<close>)\<close>

definition logic_check :: "bool \<Rightarrow> 'a \<Rightarrow> 'a option" where
  "logic_check b x = (if b then Some x else None)"

definition session_connect :: "codec list \<Rightarrow> 'u \<Rightarrow> 'u client_event option" where
  "session_connect wishes h = logic_check (wishes \<noteq> []) (Ev_connect wishes h)"

definition session_connect_wish :: "codec \<Rightarrow> 'u \<Rightarrow> 'u client_event option" where
  "session_connect_wish w h = session_connect [w] h"

definition session_connect_legacy :: "codec list \<Rightarrow> 'u \<Rightarrow> 'u client_event option" where
  "session_connect_legacy legacy h =
    (case logic_check (legacy \<noteq> []) legacy of
       None \<Rightarrow> None
     | Some wishes \<Rightarrow> session_connect wishes h)"

definition session_join :: "realm \<Rightarrow> 'u \<Rightarrow> 'u client_event option" where
  "session_join r h = Some (Ev_join r h)"

definition session_leave :: "wamp_message \<Rightarrow> 'u \<Rightarrow> 'u client_event option" where
  "session_leave reason h = Some (Ev_leave reason h)"

definition session_leave_default :: "'u \<Rightarrow> 'u client_event option" where
  "session_leave_default h = session_leave (reason_message ''wamp.close.close_realm'') h"

definition session_subscribe :: "wamp_message \<Rightarrow> 'u \<Rightarrow> 'u \<Rightarrow> 'u client_event option" where
  "session_subscribe topic slot h = Some (Ev_subscribe topic slot h)"

definition session_unsubscribe :: "subscription \<Rightarrow> 'u client_event option" where
  "session_unsubscribe s = logic_check (subscription_bool s) (Ev_unsubscribe (sub_id s) (sub_slot s))"

definition session_unsubscribe_with :: "subscription \<Rightarrow> 'u \<Rightarrow> 'u client_event option" where
  "session_unsubscribe_with s h =
    logic_check (subscription_bool s) (Ev_unsubscribe_with (sub_id s) (sub_slot s) h)"

definition session_publish :: "wamp_message \<Rightarrow> 'u client_event option" where
  "session_publish pub = Some (Ev_publish pub)"

definition session_publish_with :: "wamp_message \<Rightarrow> 'u \<Rightarrow> 'u client_event option" where
  "session_publish_with pub h = Some (Ev_publish_with pub h)"

definition session_enroll :: "wamp_message \<Rightarrow> 'u \<Rightarrow> 'u \<Rightarrow> 'u client_event option" where
  "session_enroll procedure call_slot h = Some (Ev_enroll procedure call_slot None h)"

definition session_enroll_interruptible :: "wamp_message \<Rightarrow> 'u \<Rightarrow> 'u \<Rightarrow> 'u \<Rightarrow> 'u client_event option" where
  "session_enroll_interruptible procedure call_slot interrupt_slot h =
    Some (Ev_enroll procedure call_slot (Some interrupt_slot) h)"

definition session_unregister :: "registration \<Rightarrow> 'u client_event option" where
  "session_unregister r = logic_check (registration_bool r) (Ev_unregister (reg_id r))"

definition session_unregister_with :: "registration \<Rightarrow> 'u \<Rightarrow> 'u client_event option" where
  "session_unregister_with r h = logic_check (registration_bool r) (Ev_unregister_with (reg_id r) h)"

text \<open>The clock and the presence of a cancellation slot are what the client finds when it runs the call.\<close>

definition session_call :: "rpc \<Rightarrow> bool \<Rightarrow> bool \<Rightarrow> int \<Rightarrow> 'u \<Rightarrow> 'u client_event option" where
  "session_call r chit cancellable now h =
    logic_check (\<not> rpc_progressive r) (Ev_call r chit cancellable now h)"

definition session_ongoing_call :: "rpc \<Rightarrow> bool \<Rightarrow> bool \<Rightarrow> int \<Rightarrow> 'u \<Rightarrow> 'u client_event option" where
  "session_ongoing_call r chit cancellable now h = Some (Ev_ongoing_call r chit cancellable now h)"

definition session_cancel_with :: "call_chit \<Rightarrow> call_cancel_mode \<Rightarrow> 'u client_event option" where
  "session_cancel_with c mode = Some (Ev_cancel_call (chit_request c) mode)"

definition session_cancel :: "call_chit \<Rightarrow> 'u client_event option" where
  "session_cancel c = session_cancel_with c (chit_mode c)"

definition session_authenticate :: "wamp_message \<Rightarrow> 'u client_event option" where
  "session_authenticate auth = Some (Ev_authenticate auth)"

definition session_disconnect :: "'u client_event option" where
  "session_disconnect = Some Ev_disconnect"

definition session_terminate :: "'u client_event option" where
  "session_terminate = Some Ev_terminate"

text \<open>\<open>reset\<close> is the old name of \<open>terminate\<close>.\<close>

definition session_reset :: "'u client_event option" where
  "session_reset = Some Ev_terminate"

datatype 'u session_call =
    Connect "codec list" 'u
  | Connect_wish codec 'u
  | Connect_legacy 'u
  | Join realm 'u
  | Leave wamp_message 'u
  | Leave_default 'u
  | Subscribe wamp_message 'u 'u
  | Unsubscribe subscription
  | Unsubscribe_with subscription 'u
  | Publish wamp_message
  | Publish_with wamp_message 'u
  | Enroll wamp_message 'u 'u
  | Enroll_interruptible wamp_message 'u 'u 'u
  | Unregister registration
  | Unregister_with registration 'u
  | Call rpc bool bool int 'u
  | Ongoing_call rpc bool bool int 'u
  | Cancel call_chit
  | Cancel_with call_chit call_cancel_mode
  | Authenticate wamp_message
  | Disconnect
  | Terminate
  | Reset

primrec session_request :: "codec list \<Rightarrow> 'u session_call \<Rightarrow> 'u client_event option" where
  "session_request legacy (Connect wishes h) = session_connect wishes h"
| "session_request legacy (Connect_wish w h) = session_connect_wish w h"
| "session_request legacy (Connect_legacy h) = session_connect_legacy legacy h"
| "session_request legacy (Join r h) = session_join r h"
| "session_request legacy (Leave reason h) = session_leave reason h"
| "session_request legacy (Leave_default h) = session_leave_default h"
| "session_request legacy (Subscribe topic slot h) = session_subscribe topic slot h"
| "session_request legacy (Unsubscribe s) = session_unsubscribe s"
| "session_request legacy (Unsubscribe_with s h) = session_unsubscribe_with s h"
| "session_request legacy (Publish pub) = session_publish pub"
| "session_request legacy (Publish_with pub h) = session_publish_with pub h"
| "session_request legacy (Enroll proc cs h) = session_enroll proc cs h"
| "session_request legacy (Enroll_interruptible proc cs is h) = session_enroll_interruptible proc cs is h"
| "session_request legacy (Unregister r) = session_unregister r"
| "session_request legacy (Unregister_with r h) = session_unregister_with r h"
| "session_request legacy (Call r chit canc now h) = session_call r chit canc now h"
| "session_request legacy (Ongoing_call r chit canc now h) = session_ongoing_call r chit canc now h"
| "session_request legacy (Cancel c) = session_cancel c"
| "session_request legacy (Cancel_with c mode) = session_cancel_with c mode"
| "session_request legacy (Authenticate auth) = session_authenticate auth"
| "session_request legacy Disconnect = session_disconnect"
| "session_request legacy Terminate = session_terminate"
| "session_request legacy Reset = session_reset"

text \<open>
  A session: the client, the legacy connectors and the strand's queue of what thread-safe calls and
  handles have dispatched.  A thread-safe call waits in the queue, another one runs at once, as does a
  thread-safe one made inside the strand.  The setters of handlers and of the log level are events of
  the client (\<open>Outside\<close>), as is what transport, timer and slots report.
\<close>

record 'u session =
  s_client :: "'u client"
  s_legacy :: "codec list"
  s_queue :: "'u client_event list"

datatype 'u session_input =
    Calls bool "'u session_call"
  | Handle_events "'u client_event list"
  | Run_queued
  | Outside "'u client_event"

datatype 'u session_effect = Did "'u client_effect" | Threw_logic "'u session_call"

definition session_destructor :: "'u session \<Rightarrow> 'u session" where
  "session_destructor s = s\<lparr>s_queue := s_queue s @ [Ev_disconnect]\<rparr>"

definition run_event :: "'u client_event \<Rightarrow> 'u session \<Rightarrow> 'u session \<times> 'u session_effect list" where
  "run_event e s =
    (let (c, xs) = client_step (s_client s) e in (s\<lparr>s_client := c\<rparr>, map Did xs))"

definition session_step :: "'u session \<Rightarrow> 'u session_input \<Rightarrow> 'u session \<times> 'u session_effect list" where
  "session_step s x =
    (case x of
       Calls safe call \<Rightarrow>
         (case session_request (s_legacy s) call of
            None \<Rightarrow> (s, [Threw_logic call])
          | Some e \<Rightarrow> if safe then (s\<lparr>s_queue := s_queue s @ [e]\<rparr>, []) else run_event e s)
     | Handle_events es \<Rightarrow> (s\<lparr>s_queue := s_queue s @ es\<rparr>, [])
     | Run_queued \<Rightarrow>
         (case s_queue s of [] \<Rightarrow> (s, []) | e # es \<Rightarrow> run_event e (s\<lparr>s_queue := es\<rparr>))
     | Outside e \<Rightarrow> run_event e s)"

subsection \<open>What scoped handles own\<close>

text \<open>The values of handles other than the empty one\<close>

definition owned :: "'r \<Rightarrow> 'r list \<Rightarrow> 'r multiset" where
  "owned blank hs = filter_mset (\<lambda>h. h \<noteq> blank) (mset hs)"

primrec parted_with :: "'r scoped_effect \<Rightarrow> 'r" where
  "parted_with (Undo h) = h"
| "parted_with (Let_go h) = h"

definition parted :: "'r \<Rightarrow> 'r scoped_effect list \<Rightarrow> 'r multiset" where
  "parted blank xs = owned blank (map parted_with xs)"

definition handed_in :: "'r \<Rightarrow> 'r list \<Rightarrow> 'r scoped_op \<Rightarrow> 'r multiset" where
  "handed_in blank hs x =
    (case x of
       Scoped_make s \<Rightarrow> owned blank [s]
     | Scoped_assign_value i s \<Rightarrow> if i < length hs then owned blank [s] else {#}
     | _ \<Rightarrow> {#})"

lemma owned_simps [simp]:
  "owned e [] = {#}" "owned e (hs @ ks) = owned e hs + owned e ks" "owned e [e] = {#}"
  by (simp_all add: owned_def)

lemma owned_nth: "i < length hs \<Longrightarrow> owned e hs = owned e (take i hs) + owned e [hs ! i] + owned e (drop (Suc i) hs)"
  using id_take_nth_drop [of i hs] owned_simps(2) [of e "take i hs" "[hs ! i] @ drop (Suc i) hs"]
  by (simp add: owned_def ac_simps)

lemma owned_update: "i < length hs \<Longrightarrow> owned e (hs[i := s]) + owned e [hs ! i] = owned e hs + owned e [s]"
  by (subst owned_nth [of i hs], assumption, subst owned_nth [of i "hs[i := s]"]) (simp_all add: ac_simps)

lemma parted_simps [simp]:
  "parted e [] = {#}" "parted e (xs @ ys) = parted e xs + parted e ys"
  "parted e [Undo h] = owned e [h]" "parted e [Let_go h] = owned e [h]"
  by (simp_all add: parted_def)

lemma scoped_assign_conserves:
  assumes "i < length hs" "j < length hs"
  shows "owned e (hs[i := hs ! j, j := e]) + owned e [hs ! i] = owned e hs"
proof -
  have "hs[i := hs ! j] ! j = hs ! j" using assms by (cases "i = j") simp_all
  then have "owned e (hs[i := hs ! j, j := e]) + owned e [hs ! j] = owned e (hs[i := hs ! j])"
    using owned_update [of j "hs[i := hs ! j]" e e] assms by simp
  moreover have "owned e (hs[i := hs ! j]) + owned e [hs ! i] = owned e hs + owned e [hs ! j]"
    using owned_update [of i hs e "hs ! j"] assms by simp
  ultimately have "owned e (hs[i := hs ! j, j := e]) + owned e [hs ! i] + owned e [hs ! j] =
      owned e hs + owned e [hs ! j]"
    by (simp add: ac_simps)
  then show ?thesis by simp
qed

lemma scoped_step_conserves:
  "owned e (fst (scoped_step e hs x)) + parted e (snd (scoped_step e hs x)) = owned e hs + handed_in e hs x"
proof (cases x)
  case (Scoped_destroy i)
  then show ?thesis
    using owned_nth [of i hs e]
    by (simp add: scoped_step_def scoped_destroy_def handed_in_def ac_simps)
qed (use owned_update [where e = e and hs = hs and s = e] owned_update [where e = e and hs = hs] in
    \<open>auto simp: scoped_step_def scoped_assign_def scoped_assign_value_def scoped_release_def move_handle_def
      handed_in_def scoped_assign_conserves\<close>)


subsection \<open>Scoped handles let go of nothing by themselves\<close>

fun scoped_given :: "'r \<Rightarrow> 'r list \<Rightarrow> 'r scoped_op list \<Rightarrow> 'r multiset" where
  "scoped_given blank hs [] = {#}"
| "scoped_given blank hs (x # xs) = handed_in blank hs x + scoped_given blank (fst (scoped_step blank hs x)) xs"

interpretation scoped_subscriptions: machine_conservation "scoped_step empty_subscription" "\<lambda>_. True"
    "owned empty_subscription" "handed_in empty_subscription" "parted empty_subscription"
  by unfold_locales (simp_all add: scoped_step_conserves)

interpretation scoped_registrations: machine_conservation "scoped_step empty_registration" "\<lambda>_. True"
    "owned empty_registration" "handed_in empty_registration" "parted empty_registration"
  by unfold_locales (simp_all add: scoped_step_conserves)

lemma scoped_given_run:
  "scoped_subscriptions.brought_by_run hs xs = scoped_given empty_subscription hs xs"
  "scoped_registrations.brought_by_run ks ys = scoped_given empty_registration ks ys"
  by (induction xs arbitrary: hs, simp_all) (induction ys arbitrary: ks, simp_all)

primrec is_release :: "'r scoped_op \<Rightarrow> bool" where
  "is_release (Scoped_make s) \<longleftrightarrow> False"
| "is_release (Scoped_move i) \<longleftrightarrow> False"
| "is_release (Scoped_assign i j) \<longleftrightarrow> False"
| "is_release (Scoped_assign_value i s) \<longleftrightarrow> False"
| "is_release (Scoped_release i) \<longleftrightarrow> True"
| "is_release (Scoped_destroy i) \<longleftrightarrow> False"

primrec is_undo :: "'r scoped_effect \<Rightarrow> bool" where
  "is_undo (Undo h) \<longleftrightarrow> True"
| "is_undo (Let_go h) \<longleftrightarrow> False"

lemma scoped_step_undoes: "\<not> is_release x \<Longrightarrow> list_all is_undo (snd (scoped_step blank hs x))"
  by (cases x) (simp_all add: scoped_step_def scoped_assign_def scoped_assign_value_def scoped_destroy_def
      move_handle_def)

lemma scoped_run_undoes:
  "\<forall>x \<in> set ops. \<not> is_release x \<Longrightarrow> list_all is_undo (snd (run_machine (scoped_step blank) hs ops))"
  by (induction ops arbitrary: hs) (simp_all only: run_machine.simps(1) run_machine_Cons_snd,
      simp_all add: scoped_step_undoes)

definition unsubscription :: "subscription \<Rightarrow> 'u client_event" where
  "unsubscription s = Ev_unsubscribe (sub_id s) (sub_slot s)"

lemma subscription_events_eq:
  "list_all is_undo xs \<Longrightarrow> mset (subscription_events xs) =
     image_mset unsubscription (filter_mset sub_alive (parted empty_subscription xs))"
proof (induction xs rule: subscription_events.induct)
  case (2 s xs)
  then show ?case
    by (auto simp: parted_def owned_def subscription_unsubscribe_def unsubscription_def empty_subscription_def)
qed (simp_all add: parted_def)

text \<open>
  C26: once all scoped subscriptions of a program are destroyed, none having been released, each
  live subscription that was put into one has been unsubscribed exactly once, whatever moves and
  assignments it went through.
\<close>

theorem scoped_subscriptions_unsubscribed:
  assumes "run_machine (scoped_step empty_subscription) [] ops = ([], xs)"
    and "\<forall>x \<in> set ops. \<not> is_release x"
  shows "mset (subscription_events xs) =
    image_mset unsubscription (filter_mset sub_alive (scoped_given empty_subscription [] ops))"
proof -
  have "parted empty_subscription xs = scoped_given empty_subscription [] ops"
    using scoped_subscriptions.run_conserves [of "[]" ops] assms(1) by (simp add: scoped_given_run)
  moreover have "list_all is_undo xs"
    using scoped_run_undoes [OF assms(2), of empty_subscription "[]"] assms(1) by simp
  ultimately show ?thesis by (simp add: subscription_events_eq)
qed

definition sample_scoped :: "subscription scoped_op list" where
  "sample_scoped = [Scoped_make (make_subscription 5 0), Scoped_make (make_subscription 5 1), Scoped_move 0,
     Scoped_assign 1 2, Scoped_assign 0 0, Scoped_destroy 2, Scoped_destroy 0, Scoped_destroy 0]"

lemma sample_scoped_run:
  "run_machine (scoped_step empty_subscription) [] sample_scoped =
     ([], map Undo [make_subscription 5 1, empty_subscription, empty_subscription, empty_subscription,
       make_subscription 5 0])"
  by (simp add: sample_scoped_def scoped_step_def scoped_assign_def move_handle_def scoped_destroy_def)

lemma sample_scoped_keeps: "\<forall>x \<in> set sample_scoped. \<not> is_release x"
  by (simp add: sample_scoped_def)

theorem scoped_subscriptions_unsubscribed_witness:
  "mset (subscription_events (snd (run_machine (scoped_step empty_subscription) [] sample_scoped))) =
     {#Ev_unsubscribe 5 1, Ev_unsubscribe 5 0 :: nat client_event#}"
  unfolding sample_scoped_run snd_conv
    scoped_subscriptions_unsubscribed [OF sample_scoped_run sample_scoped_keeps]
  by (simp add: sample_scoped_def handed_in_def owned_def make_subscription_def empty_subscription_def
      unsubscription_def invalid_id_def scoped_step_def move_handle_def)

subsection \<open>Duplicate handles\<close>

lemma remove_slot_gone: "subs_of c (sub, slot) = None \<Longrightarrow> remove_slot sub slot c \<in> {None, Some (False, c)}"
  by (auto simp: remove_slot_def subs_of_def split: option.splits)

lemma unsubscribe_gone: "subs_of c (sub, slot) = None \<Longrightarrow> unsubscribe sub slot c = (c, [])"
  using remove_slot_gone [of c sub slot] by (auto simp: unsubscribe_def)

lemma registry_unregister: "omap_find (c_registry (fst (unregister reg c))) reg = None"
proof -
  have "c_registry (fst (request_by m req c')) = c_registry c'" for m req and c' :: "'a client"
    using tables_request_by [of m req c'] by (simp add: tables_def)
  then show ?thesis by (simp add: unregister_def Let_def omap_find_erase split: option.split)
qed

text \<open>
  Unsubscribing or unregistering once more, through another copy of a handle or through the same
  one, sends nothing and leaves the client as it is.
\<close>

theorem duplicate_handles_ignored:
  "client_step (fst (client_step c (Ev_unsubscribe sub slot))) (Ev_unsubscribe sub slot) =
     (fst (client_step c (Ev_unsubscribe sub slot)), []) \<and>
   client_step (fst (client_step c (Ev_unregister reg))) (Ev_unregister reg) =
     (fst (client_step c (Ev_unregister reg)), [])"
  using unsubscribe_gone [of "fst (unsubscribe sub slot c)" sub slot] registry_unregister [of reg c]
  by (simp add: subs_of_unsubscribe unregister_def [of _ "fst (unregister reg c)"])

subsection \<open>The handlers of a session\<close>

text \<open>The completion handler of a call, and what the C++ types of its arguments guarantee\<close>

fun call_users :: "'u session_call \<Rightarrow> 'u multiset" where
  "call_users (Connect wishes h) = {#h#}"
| "call_users (Connect_wish w h) = {#h#}"
| "call_users (Connect_legacy h) = {#h#}"
| "call_users (Join r h) = {#h#}"
| "call_users (Leave reason h) = {#h#}"
| "call_users (Leave_default h) = {#h#}"
| "call_users (Subscribe topic slot h) = {#h#}"
| "call_users (Unsubscribe_with s h) = {#h#}"
| "call_users (Publish_with pub h) = {#h#}"
| "call_users (Enroll p cs h) = {#h#}"
| "call_users (Enroll_interruptible p cs is h) = {#h#}"
| "call_users (Unregister_with r h) = {#h#}"
| "call_users (Call r chit canc now h) = {#h#}"
| "call_users (Ongoing_call r chit canc now h) = {#h#}"
| "call_users _ = {#}"

fun call_typed :: "'u session_call \<Rightarrow> bool" where
  "call_typed (Join r h) \<longleftrightarrow> msg_type (realm_message r) = W_hello"
| "call_typed (Leave m h) \<longleftrightarrow> msg_type m = W_goodbye"
| "call_typed (Subscribe m slot h) \<longleftrightarrow> msg_type m = W_subscribe"
| "call_typed (Publish_with m h) \<longleftrightarrow> msg_type m = W_publish"
| "call_typed (Enroll m cs h) \<longleftrightarrow> msg_type m = W_enroll"
| "call_typed (Enroll_interruptible m cs is h) \<longleftrightarrow> msg_type m = W_enroll"
| "call_typed (Call r chit canc now h) \<longleftrightarrow> msg_type (rpc_message r) = W_call"
| "call_typed (Ongoing_call r chit canc now h) \<longleftrightarrow> msg_type (rpc_message r) = W_call"
| "call_typed _ \<longleftrightarrow> True"

lemmas session_ops = session_connect_def session_connect_wish_def session_connect_legacy_def session_join_def
  session_leave_def session_leave_default_def session_subscribe_def session_unsubscribe_def
  session_unsubscribe_with_def session_publish_def session_publish_with_def session_enroll_def
  session_enroll_interruptible_def session_unregister_def session_unregister_with_def session_call_def
  session_ongoing_call_def session_cancel_with_def session_cancel_def session_authenticate_def
  session_disconnect_def session_terminate_def session_reset_def

lemma session_request_typed:
  "session_request legacy call = Some e \<Longrightarrow> call_typed call \<Longrightarrow> event_typed e \<and> users_given e = call_users call"
  by (cases call) (auto simp: session_ops logic_check_def reason_message_def goodbye_message_def make_message_def split: if_splits)

fun input_typed :: "'u session_input \<Rightarrow> bool" where
  "input_typed (Calls safe call) \<longleftrightarrow> call_typed call"
| "input_typed (Handle_events es) \<longleftrightarrow> list_all event_typed es"
| "input_typed Run_queued \<longleftrightarrow> True"
| "input_typed (Outside e) \<longleftrightarrow> event_typed e"

fun input_users :: "'u session_input \<Rightarrow> 'u multiset" where
  "input_users (Calls safe call) = call_users call"
| "input_users (Handle_events es) = (\<Sum>e \<leftarrow> es. users_given e)"
| "input_users Run_queued = {#}"
| "input_users (Outside e) = users_given e"

definition session_waiting :: "'u session \<Rightarrow> 'u multiset" where
  "session_waiting s = users_waiting (s_client s) + (\<Sum>e \<leftarrow> s_queue s. users_given e)"

primrec session_disposes :: "'u session_effect \<Rightarrow> 'u multiset" where
  "session_disposes (Did x) = disposes x"
| "session_disposes (Threw_logic call) = call_users call"

definition session_disposed :: "'u session_effect list \<Rightarrow> 'u multiset" where
  "session_disposed xs = (\<Sum>x \<leftarrow> xs. session_disposes x)"

definition session_ok :: "'u session \<Rightarrow> bool" where
  "session_ok s \<longleftrightarrow> client_ok (s_client s) \<and> list_all event_typed (s_queue s)"

definition init_session :: "codec \<Rightarrow> codec list \<Rightarrow> 'u session" where
  "init_session k legacy = \<lparr>s_client = init_client k, s_legacy = legacy, s_queue = []\<rparr>"

lemma session_disposed_simps [simp]:
  "session_disposed [] = {#}" "session_disposed (x # xs) = session_disposes x + session_disposed xs"
  "session_disposed (xs @ ys) = session_disposed xs + session_disposed ys"
  "session_disposed (map Did zs) = disposed zs"
  by (simp_all add: session_disposed_def disposed_def comp_def)

lemma run_event_accounts:
  assumes "session_ok s" and "event_typed e"
  shows "session_ok (fst (run_event e s)) \<and>
    session_waiting (fst (run_event e s)) + session_disposed (snd (run_event e s)) = session_waiting s + users_given e"
  using settles_step [of "s_client s" e] assms
  by (auto simp: session_ok_def run_event_def session_waiting_def settles_def case_prod_beta Let_def ac_simps)

lemma session_step_accounts:
  assumes "session_ok s" and "input_typed x"
  shows "session_ok (fst (session_step s x)) \<and>
    session_waiting (fst (session_step s x)) + session_disposed (snd (session_step s x)) = session_waiting s + input_users x"
proof (cases x)
  case (Calls safe call)
  show ?thesis
  proof (cases "session_request (s_legacy s) call")
    case None
    with Calls assms show ?thesis by (simp add: session_step_def)
  next
    case (Some e)
    with session_request_typed [OF Some] Calls assms run_event_accounts [OF assms(1), of e] show ?thesis
      by (auto simp: session_step_def session_ok_def session_waiting_def ac_simps)
  qed
next
  case Run_queued
  show ?thesis
  proof (cases "s_queue s")
    case Nil
    with Run_queued assms show ?thesis by (simp add: session_step_def)
  next
    case (Cons e es)
    with assms have "session_ok (s\<lparr>s_queue := es\<rparr>)" "event_typed e" by (simp_all add: session_ok_def)
    from run_event_accounts [OF this] Run_queued Cons show ?thesis
      by (simp add: session_step_def session_waiting_def ac_simps)
  qed
qed (use assms run_event_accounts [OF assms(1)] in
  \<open>auto simp: session_step_def session_ok_def session_waiting_def ac_simps\<close>)

definition typed_session_step :: "'u session \<Rightarrow> 'u session_input \<Rightarrow> 'u session \<times> 'u session_effect list" where
  "typed_session_step s x = (if input_typed x then session_step s x else (s, []))"

definition typed_users :: "'u session \<Rightarrow> 'u session_input \<Rightarrow> 'u multiset" where
  "typed_users s x = (if input_typed x then input_users x else {#})"

interpretation session_handlers: machine_conservation typed_session_step session_ok session_waiting typed_users
    session_disposed
  by unfold_locales (use session_step_accounts in \<open>auto simp: typed_session_step_def typed_users_def\<close>)

lemma typed_session_run:
  "list_all input_typed xs \<Longrightarrow> run_machine typed_session_step s xs = run_machine session_step s xs \<and>
     session_handlers.brought_by_run s xs = (\<Sum>x \<leftarrow> xs. input_users x)"
  by (induction xs arbitrary: s) (simp_all add: typed_session_step_def typed_users_def Let_def case_prod_beta)

text \<open>
  C17: however calls from several threads, events of the strand and those of handles interleave, each
  completion handler given to a session is still queued or waiting, or it was disposed of exactly
  once: by the client or by the check that threw.
\<close>

theorem session_handlers_accounted:
  assumes "list_all input_typed xs" and "run_machine session_step (init_session k legacy) xs = (s, ys)"
  shows "session_waiting s + session_disposed ys = (\<Sum>x \<leftarrow> xs. input_users x)"
proof -
  have "session_ok (init_session k legacy :: 'a session)" "session_waiting (init_session k legacy :: 'a session) = {#}"
    by (simp_all add: session_ok_def init_session_def session_waiting_def client_ok_init)
  with session_handlers.run_conserves [of "init_session k legacy" xs] typed_session_run [OF assms(1)] assms(2)
  show ?thesis by simp
qed

text \<open>Two calls wait in the queue while the third runs; the fourth throws, then the destructor's disconnect runs.\<close>

definition sample_inputs :: "nat session_input list" where
  "sample_inputs = [Calls True (Connect_legacy 1), Calls True (Join (make_realm ''r'') 2),
     Calls False (Subscribe (make_topic ''t'') 10 3), Calls False (Unsubscribe_with empty_subscription 4),
     Run_queued, Handle_events (subscription_unsubscribe (make_subscription 5 0)), Calls True Disconnect,
     Run_queued, Run_queued, Run_queued]"

lemma sample_inputs_typed: "list_all input_typed sample_inputs"
  by (simp add: sample_inputs_def make_realm_def hello_message_def make_message_def make_topic_def
      subscribe_message_def subscription_unsubscribe_def make_subscription_def)

theorem session_handlers_accounted_witness:
  "let r = run_machine session_step (init_session sample_codec [sample_codec]) sample_inputs
   in session_waiting (fst r) + session_disposed (snd r) = {#1, 2, 3, 4#}"
  using session_handlers_accounted [OF sample_inputs_typed, of sample_codec "[sample_codec]"]
  by (cases "run_machine session_step (init_session sample_codec [sample_codec]) sample_inputs")
    (simp add: sample_inputs_def subscription_unsubscribe_def)

text \<open>
  A call throws \<open>error::Logic\<close>, before anything else happens, exactly when it is given no wish, an
  empty subscription or registration, or asks for progressive results of a one-shot call.
\<close>

lemma rejected_calls:
  "session_request legacy call = None \<longleftrightarrow>
     (case call of
        Connect wishes h \<Rightarrow> wishes = []
      | Connect_legacy h \<Rightarrow> legacy = []
      | Unsubscribe sub \<Rightarrow> \<not> subscription_bool sub
      | Unsubscribe_with sub h \<Rightarrow> \<not> subscription_bool sub
      | Unregister reg \<Rightarrow> \<not> registration_bool reg
      | Unregister_with reg h \<Rightarrow> \<not> registration_bool reg
      | Call r chit canc now h \<Rightarrow> rpc_progressive r
      | _ \<Rightarrow> False)"
  by (cases call) (auto simp: session_ops logic_check_def)

end
