(* ===== verification/Variant_Convert.thy ===== *)
theory Variant_Convert
  imports Variant_Model
begin

section \<open>Conversions between variants and C++ values (\<open>variant.hpp\<close>, \<open>internal/variantvisitors.hpp\<close>, \<open>types/\<close>)\<close>

text \<open>
  The types that variants convert to and from are a datatype: the bound types, integers of any width,
  vectors and maps, and the types with a \<open>convert\<close> function: enumerations, the standard library types
  under \<open>types/\<close>, and classes of the user whose \<open>convert\<close> names their members.  Sets (whose order is the
  user's) and \<open>float\<close> are left out.  An unordered map is the list of its members in key order, since
  nothing here depends on its iteration order.  A conversion fails with \<open>error::Conversion\<close>, with
  \<open>error::Access\<close>, or with undefined behaviour, which C++ gives to the conversion of a double outside
  the range of the integer type.
\<close>

subsection \<open>Types and values\<close>

datatype cpp_type =
    Ty_null
  | Ty_bool
  | Ty_int nat
  | Ty_uint nat
  | Ty_real
  | Ty_string
  | Ty_blob
  | Ty_array
  | Ty_object
  | Ty_vector cpp_type
  | Ty_map cpp_type
  | Ty_variant
  | Ty_enum cpp_type
  | Ty_tuple "cpp_type list"
  | Ty_fixed nat cpp_type
  | Ty_optional cpp_type
  | Ty_unordered cpp_type
  | Ty_struct "(string \<times> cpp_type) list"

datatype cpp_value =
    Val_null
  | Val_bool bool
  | Val_int int
  | Val_uint int
  | Val_real double
  | Val_string string
  | Val_blob bytes
  | Val_array "variant list"
  | Val_object "(string \<times> variant) list"
  | Val_vector "cpp_value list"
  | Val_map "(string \<times> cpp_value) list"
  | Val_variant variant
  | Val_enum cpp_value
  | Val_tuple "cpp_value list"
  | Val_fixed "cpp_value list"
  | Val_optional "cpp_value option"
  | Val_unordered "(string \<times> cpp_value) list"
  | Val_struct "(string \<times> cpp_value) list"

text \<open>\<open>isValidArg\<close>: the types that \<open>ArgTraits\<close> knows\<close>

fun valid_arg :: "cpp_type \<Rightarrow> bool" where
  "valid_arg (Ty_vector t) \<longleftrightarrow> valid_arg t"
| "valid_arg (Ty_map t) \<longleftrightarrow> valid_arg t"
| "valid_arg Ty_variant \<longleftrightarrow> False"
| "valid_arg (Ty_enum t) \<longleftrightarrow> False"
| "valid_arg (Ty_tuple ts) \<longleftrightarrow> False"
| "valid_arg (Ty_fixed n t) \<longleftrightarrow> False"
| "valid_arg (Ty_optional t) \<longleftrightarrow> False"
| "valid_arg (Ty_unordered t) \<longleftrightarrow> False"
| "valid_arg (Ty_struct ts) \<longleftrightarrow> False"
| "valid_arg _ \<longleftrightarrow> True"

datatype convert_error = Conversion_error | Access_failed | Undefined_conversion

text \<open>Applying a conversion to a sequence, up to the first failure\<close>

fun traverse :: "('a \<Rightarrow> 'e + 'b) \<Rightarrow> 'a list \<Rightarrow> 'e + 'b list" where
  "traverse f [] = Inr []"
| "traverse f (x # xs) =
     (case f x of Inl e \<Rightarrow> Inl e
      | Inr y \<Rightarrow> (case traverse f xs of Inl e \<Rightarrow> Inl e | Inr ys \<Rightarrow> Inr (y # ys)))"

definition on_value :: "('a \<Rightarrow> 'e + 'b) \<Rightarrow> 'k \<times> 'a \<Rightarrow> 'e + ('k \<times> 'b)" where
  "on_value f m = (case f (snd m) of Inl e \<Rightarrow> Inl e | Inr y \<Rightarrow> Inr (fst m, y))"

subsection \<open>Numbers\<close>

definition wrap_int :: "nat \<Rightarrow> int \<Rightarrow> int" where
  "wrap_int n i = signed_take_bit (n - 1) i"

definition wrap_uint :: "nat \<Rightarrow> int \<Rightarrow> int" where
  "wrap_uint n i = take_bit n i"

text \<open>Towards zero; \<open>None\<close> for a value that is not finite\<close>

fun truncate_double :: "double \<Rightarrow> int option" where
  "truncate_double (Finite s m e) =
     Some (signed_mantissa s (if 0 \<le> e then m * 2 ^ nat e else m div 2 ^ nat (- e)))"
| "truncate_double _ = None"

definition fits_int :: "nat \<Rightarrow> int \<Rightarrow> bool" where
  "fits_int n i \<longleftrightarrow> - (2 ^ (n - 1)) \<le> i \<and> i < 2 ^ (n - 1)"

definition fits_uint :: "nat \<Rightarrow> int \<Rightarrow> bool" where
  "fits_uint n i \<longleftrightarrow> 0 \<le> i \<and> i < 2 ^ n"

text \<open>The \<open>static_cast\<close> of a number or boolean of a variant to an arithmetic type\<close>

datatype number = N_int int | N_real double

definition cast_bool :: "number \<Rightarrow> bool" where
  "cast_bool n = (case n of N_int i \<Rightarrow> i \<noteq> 0 | N_real d \<Rightarrow> \<not> double_eq d double_zero)"

definition cast_integer :: "(int \<Rightarrow> int) \<Rightarrow> (int \<Rightarrow> bool) \<Rightarrow> number \<Rightarrow> convert_error + int" where
  "cast_integer wrap fits n =
     (case n of
        N_int i \<Rightarrow> Inr (wrap i)
      | N_real d \<Rightarrow>
          (case truncate_double d of
             None \<Rightarrow> Inl Undefined_conversion
           | Some i \<Rightarrow> if fits i then Inr i else Inl Undefined_conversion))"

definition cast_real :: "number \<Rightarrow> double" where
  "cast_real n = (case n of N_int i \<Rightarrow> double_of_int i | N_real d \<Rightarrow> d)"

fun number_of :: "variant \<Rightarrow> number option" where
  "number_of (V_bool b) = Some (N_int (if b then 1 else 0))"
| "number_of (V_int i) = Some (N_int (sint i))"
| "number_of (V_uint u) = Some (N_int (uint u))"
| "number_of (V_real d) = Some (N_real d)"
| "number_of _ = None"

definition to_number :: "variant \<Rightarrow> (number \<Rightarrow> convert_error + cpp_value) \<Rightarrow> convert_error + cpp_value" where
  "to_number v f = (case number_of v of None \<Rightarrow> Inl Conversion_error | Some n \<Rightarrow> f n)"

subsection \<open>From variants\<close>

text \<open>
  \<open>VariantConvertTo\<close> for the types that are valid arguments: its implicit conversions exist between
  booleans and numbers only, its vectors and maps are converted element by element.
\<close>

definition vector_from :: "(variant \<Rightarrow> convert_error + cpp_value) \<Rightarrow> variant \<Rightarrow> convert_error + cpp_value" where
  "vector_from f v =
    (case v of V_array a \<Rightarrow> map_sum id Val_vector (traverse f a) | _ \<Rightarrow> Inl Conversion_error)"

definition map_from :: "(variant \<Rightarrow> convert_error + cpp_value) \<Rightarrow> variant \<Rightarrow> convert_error + cpp_value" where
  "map_from f v =
    (case v of V_object ob \<Rightarrow> map_sum id Val_map (traverse (on_value f) ob) | _ \<Rightarrow> Inl Conversion_error)"

text \<open>Vectors and maps of other types go through \<open>as\<close>, which throws \<open>error::Access\<close>.\<close>

definition custom_vector_from :: "(variant \<Rightarrow> convert_error + cpp_value) \<Rightarrow> variant \<Rightarrow> convert_error + cpp_value" where
  "custom_vector_from f v =
    (case v of V_array a \<Rightarrow> map_sum id Val_vector (traverse f a) | _ \<Rightarrow> Inl Access_failed)"

definition custom_map_from :: "(variant \<Rightarrow> convert_error + cpp_value) \<Rightarrow> variant \<Rightarrow> convert_error + cpp_value" where
  "custom_map_from f v =
    (case v of V_object ob \<Rightarrow> map_sum id Val_map (traverse (on_value f) ob) | _ \<Rightarrow> Inl Access_failed)"

text \<open>The \<open>convert\<close> functions of enumerations and of the standard library types\<close>

definition enum_from :: "(variant \<Rightarrow> convert_error + cpp_value) \<Rightarrow> variant \<Rightarrow> convert_error + cpp_value" where
  "enum_from f v = map_sum id Val_enum (f v)"

definition tuple_from ::
    "nat \<Rightarrow> (variant list \<Rightarrow> convert_error + cpp_value list) \<Rightarrow> variant \<Rightarrow> convert_error + cpp_value" where
  "tuple_from n f v =
    (case v of
       V_array a \<Rightarrow> if length a \<noteq> n then Inl Conversion_error else map_sum id Val_tuple (f a)
     | _ \<Rightarrow> Inl Conversion_error)"

definition fixed_from :: "nat \<Rightarrow> (variant \<Rightarrow> convert_error + cpp_value) \<Rightarrow> variant \<Rightarrow> convert_error + cpp_value" where
  "fixed_from n f v =
    (case v of
       V_array a \<Rightarrow> if length a \<noteq> n then Inl Conversion_error else map_sum id Val_fixed (traverse f a)
     | _ \<Rightarrow> Inl Conversion_error)"

definition optional_from :: "(variant \<Rightarrow> convert_error + cpp_value) \<Rightarrow> variant \<Rightarrow> convert_error + cpp_value" where
  "optional_from f v =
    (if \<not> variant_is_set v then Inr (Val_optional None) else map_sum id (\<lambda>x. Val_optional (Some x)) (f v))"

definition unordered_from :: "(variant \<Rightarrow> convert_error + cpp_value) \<Rightarrow> variant \<Rightarrow> convert_error + cpp_value" where
  "unordered_from f v =
    (case v of V_object ob \<Rightarrow> map_sum id Val_unordered (traverse (on_value f) ob) | _ \<Rightarrow> Inl Conversion_error)"

text \<open>
  \<open>FromVariantConverter::operator()(key, value)\<close>: whatever is wrong with the member or with the object,
  the exception is \<open>error::Conversion\<close>.
\<close>

definition converter_error :: "convert_error \<Rightarrow> convert_error" where
  "converter_error e = (case e of Undefined_conversion \<Rightarrow> Undefined_conversion | _ \<Rightarrow> Conversion_error)"

definition read_member :: "variant \<Rightarrow> string \<Rightarrow> (variant \<Rightarrow> convert_error + 'a) \<Rightarrow> convert_error + 'a" where
  "read_member v key f =
     (case variant_at_key v key of
        Inl _ \<Rightarrow> Inl Conversion_error
      | Inr w \<Rightarrow> (case f w of Inl e \<Rightarrow> Inl (converter_error e) | Inr x \<Rightarrow> Inr x))"

fun convert_to :: "cpp_type \<Rightarrow> variant \<Rightarrow> convert_error + cpp_value"
  and convert_tuple :: "cpp_type list \<Rightarrow> variant list \<Rightarrow> convert_error + cpp_value list"
  and convert_members :: "(string \<times> cpp_type) list \<Rightarrow> variant \<Rightarrow> convert_error + (string \<times> cpp_value) list" where
  "convert_to Ty_null v = (case v of V_null \<Rightarrow> Inr Val_null | _ \<Rightarrow> Inl Conversion_error)"
| "convert_to Ty_bool v = to_number v (\<lambda>n. Inr (Val_bool (cast_bool n)))"
| "convert_to (Ty_int b) v =
     to_number v (\<lambda>n. map_sum id Val_int (cast_integer (wrap_int b) (fits_int b) n))"
| "convert_to (Ty_uint b) v =
     to_number v (\<lambda>n. map_sum id Val_uint (cast_integer (wrap_uint b) (fits_uint b) n))"
| "convert_to Ty_real v = to_number v (\<lambda>n. Inr (Val_real (cast_real n)))"
| "convert_to Ty_string v = (case v of V_string s \<Rightarrow> Inr (Val_string s) | _ \<Rightarrow> Inl Conversion_error)"
| "convert_to Ty_blob v = (case v of V_blob b \<Rightarrow> Inr (Val_blob b) | _ \<Rightarrow> Inl Conversion_error)"
| "convert_to Ty_array v = (case v of V_array a \<Rightarrow> Inr (Val_array a) | _ \<Rightarrow> Inl Conversion_error)"
| "convert_to Ty_object v = (case v of V_object ob \<Rightarrow> Inr (Val_object ob) | _ \<Rightarrow> Inl Conversion_error)"
| "convert_to (Ty_vector t) v =
     (if valid_arg t then vector_from (\<lambda>x. convert_to t x) v else custom_vector_from (\<lambda>x. convert_to t x) v)"
| "convert_to (Ty_map t) v =
     (if valid_arg t then map_from (\<lambda>x. convert_to t x) v else custom_map_from (\<lambda>x. convert_to t x) v)"
| "convert_to Ty_variant v = Inr (Val_variant v)"
| "convert_to (Ty_enum t) v = enum_from (\<lambda>x. convert_to t x) v"
| "convert_to (Ty_tuple ts) v = tuple_from (length ts) (\<lambda>a. convert_tuple ts a) v"
| "convert_to (Ty_fixed n t) v = fixed_from n (\<lambda>x. convert_to t x) v"
| "convert_to (Ty_optional t) v = optional_from (\<lambda>x. convert_to t x) v"
| "convert_to (Ty_unordered t) v = unordered_from (\<lambda>x. convert_to t x) v"
| "convert_to (Ty_struct ms) v = map_sum id Val_struct (convert_members ms v)"
| "convert_tuple [] a = Inr []"
| "convert_tuple (t # ts) a =
     (case a of
        [] \<Rightarrow> Inl Conversion_error
      | x # xs \<Rightarrow>
         (case convert_to t x of Inl e \<Rightarrow> Inl e
          | Inr y \<Rightarrow> (case convert_tuple ts xs of Inl e \<Rightarrow> Inl e | Inr ys \<Rightarrow> Inr (y # ys))))"
| "convert_members [] v = Inr []"
| "convert_members ((k, t) # ms) v =
     (case read_member v k (\<lambda>x. convert_to t x) of Inl e \<Rightarrow> Inl e
      | Inr y \<Rightarrow> (case convert_members ms v of Inl e \<Rightarrow> Inl e | Inr ys \<Rightarrow> Inr ((k, y) # ys)))"

subsection \<open>To variants\<close>

text \<open>The operations of \<open>ToVariantConverter\<close> on its variant\<close>

definition conv_size :: "nat \<Rightarrow> variant \<Rightarrow> variant" where
  "conv_size n v = V_array []"

definition conv_assign :: "variant \<Rightarrow> variant \<Rightarrow> variant" where
  "conv_assign w v = w"

definition conv_append :: "variant \<Rightarrow> variant \<Rightarrow> variant" where
  "conv_append w v = (case v of V_array a \<Rightarrow> V_array (a @ [w]) | _ \<Rightarrow> V_array [w])"

definition conv_member :: "string \<Rightarrow> variant \<Rightarrow> variant \<Rightarrow> variant" where
  "conv_member key w v =
    (case v of V_object ob \<Rightarrow> V_object (omap_emplace key w ob) | _ \<Rightarrow> V_object (omap_emplace key w []))"

text \<open>\<open>convertFrom\<close>, with the constructors of \<open>Variant\<close> for valid arguments and \<open>convert\<close> for the others\<close>

definition vector_to :: "variant list \<Rightarrow> variant" where
  "vector_to xs = V_array xs"

definition map_to :: "(string \<times> variant) list \<Rightarrow> variant" where
  "map_to m = V_object m"

definition tuple_to :: "variant list \<Rightarrow> variant" where
  "tuple_to xs = conv_assign (V_array (fold (\<lambda>x a. a @ [x]) xs [])) V_null"

definition fixed_to :: "variant list \<Rightarrow> variant" where
  "fixed_to xs = conv_assign (V_array (fold (\<lambda>x a. a @ [x]) xs [])) V_null"

definition optional_to :: "variant option \<Rightarrow> variant" where
  "optional_to ov = (case ov of None \<Rightarrow> conv_assign V_null V_null | Some v \<Rightarrow> conv_assign v V_null)"

definition unordered_to :: "(string \<times> variant) list \<Rightarrow> variant" where
  "unordered_to m = conv_assign (V_object (fold (\<lambda>e. omap_emplace (fst e) (snd e)) m [])) V_null"

primrec from_value :: "cpp_value \<Rightarrow> variant" where
  "from_value Val_null = V_null"
| "from_value (Val_bool b) = V_bool b"
| "from_value (Val_int i) = V_int (word_of_int i)"
| "from_value (Val_uint i) = V_uint (word_of_int i)"
| "from_value (Val_real d) = V_real d"
| "from_value (Val_string s) = V_string s"
| "from_value (Val_blob b) = V_blob b"
| "from_value (Val_array a) = V_array a"
| "from_value (Val_object ob) = V_object ob"
| "from_value (Val_vector xs) = vector_to (map from_value xs)"
| "from_value (Val_map m) = map_to (map (map_prod id from_value) m)"
| "from_value (Val_variant v) = v"
| "from_value (Val_enum x) = from_value x"
| "from_value (Val_tuple xs) = tuple_to (map from_value xs)"
| "from_value (Val_fixed xs) = fixed_to (map from_value xs)"
| "from_value (Val_optional ov) = optional_to (map_option from_value ov)"
| "from_value (Val_unordered m) = unordered_to (map (map_prod id from_value) m)"
| "from_value (Val_struct ms) =
     fold (\<lambda>m. conv_member (fst m) (snd m)) (map (map_prod id from_value) ms) V_null"

subsection \<open>Typing\<close>

definition is_integer_type :: "cpp_type \<Rightarrow> bool" where
  "is_integer_type t = (case t of Ty_int b \<Rightarrow> True | Ty_uint b \<Rightarrow> True | _ \<Rightarrow> False)"

fun has_type :: "cpp_type \<Rightarrow> cpp_value \<Rightarrow> bool"
  and have_types :: "cpp_type list \<Rightarrow> cpp_value list \<Rightarrow> bool"
  and members_typed :: "(string \<times> cpp_type) list \<Rightarrow> (string \<times> cpp_value) list \<Rightarrow> bool" where
  "has_type Ty_null x \<longleftrightarrow> x = Val_null"
| "has_type Ty_bool x \<longleftrightarrow> (case x of Val_bool b \<Rightarrow> True | _ \<Rightarrow> False)"
| "has_type (Ty_int n) x \<longleftrightarrow> (case x of Val_int i \<Rightarrow> 0 < n \<and> n \<le> 64 \<and> fits_int n i | _ \<Rightarrow> False)"
| "has_type (Ty_uint n) x \<longleftrightarrow> (case x of Val_uint i \<Rightarrow> 0 < n \<and> n \<le> 64 \<and> fits_uint n i | _ \<Rightarrow> False)"
| "has_type Ty_real x \<longleftrightarrow> (case x of Val_real d \<Rightarrow> True | _ \<Rightarrow> False)"
| "has_type Ty_string x \<longleftrightarrow> (case x of Val_string s \<Rightarrow> True | _ \<Rightarrow> False)"
| "has_type Ty_blob x \<longleftrightarrow> (case x of Val_blob b \<Rightarrow> True | _ \<Rightarrow> False)"
| "has_type Ty_array x \<longleftrightarrow> (case x of Val_array a \<Rightarrow> True | _ \<Rightarrow> False)"
| "has_type Ty_object x \<longleftrightarrow> (case x of Val_object ob \<Rightarrow> omap_ok ob | _ \<Rightarrow> False)"
| "has_type (Ty_vector t) x \<longleftrightarrow> (case x of Val_vector xs \<Rightarrow> list_all (\<lambda>y. has_type t y) xs | _ \<Rightarrow> False)"
| "has_type (Ty_map t) x \<longleftrightarrow>
     (case x of Val_map m \<Rightarrow> omap_ok m \<and> list_all (\<lambda>e. has_type t (snd e)) m | _ \<Rightarrow> False)"
| "has_type Ty_variant x \<longleftrightarrow> (case x of Val_variant v \<Rightarrow> True | _ \<Rightarrow> False)"
| "has_type (Ty_enum t) x \<longleftrightarrow> (case x of Val_enum y \<Rightarrow> is_integer_type t \<and> has_type t y | _ \<Rightarrow> False)"
| "has_type (Ty_tuple ts) x \<longleftrightarrow> (case x of Val_tuple xs \<Rightarrow> have_types ts xs | _ \<Rightarrow> False)"
| "has_type (Ty_fixed n t) x \<longleftrightarrow>
     (case x of Val_fixed xs \<Rightarrow> length xs = n \<and> list_all (\<lambda>y. has_type t y) xs | _ \<Rightarrow> False)"
| "has_type (Ty_optional t) x \<longleftrightarrow>
     (case x of Val_optional ov \<Rightarrow> (case ov of None \<Rightarrow> True | Some y \<Rightarrow> has_type t y) | _ \<Rightarrow> False)"
| "has_type (Ty_unordered t) x \<longleftrightarrow>
     (case x of Val_unordered m \<Rightarrow> omap_ok m \<and> list_all (\<lambda>e. has_type t (snd e)) m | _ \<Rightarrow> False)"
| "has_type (Ty_struct ms) x \<longleftrightarrow> (case x of Val_struct xs \<Rightarrow> members_typed ms xs | _ \<Rightarrow> False)"
| "have_types [] xs \<longleftrightarrow> xs = []"
| "have_types (t # ts) xs \<longleftrightarrow> (case xs of [] \<Rightarrow> False | y # ys \<Rightarrow> has_type t y \<and> have_types ts ys)"
| "members_typed [] xs \<longleftrightarrow> xs = []"
| "members_typed ((k, t) # ms) xs \<longleftrightarrow>
     (case xs of [] \<Rightarrow> False | y # ys \<Rightarrow> fst y = k \<and> has_type t (snd y) \<and> members_typed ms ys)"

text \<open>
  What a conversion to a variant and back preserves: an optional value must not become a null
  itself, and the members of a class need names of their own.
\<close>

fun nullable :: "cpp_type \<Rightarrow> bool" where
  "nullable Ty_null \<longleftrightarrow> True"
| "nullable Ty_variant \<longleftrightarrow> True"
| "nullable (Ty_optional t) \<longleftrightarrow> True"
| "nullable (Ty_struct ms) \<longleftrightarrow> ms = []"
| "nullable _ \<longleftrightarrow> False"

fun storable :: "cpp_type \<Rightarrow> bool" where
  "storable (Ty_vector t) \<longleftrightarrow> storable t"
| "storable (Ty_map t) \<longleftrightarrow> storable t"
| "storable (Ty_tuple ts) \<longleftrightarrow> (\<forall>t \<in> set ts. storable t)"
| "storable (Ty_fixed n t) \<longleftrightarrow> storable t"
| "storable (Ty_optional t) \<longleftrightarrow> storable t \<and> \<not> nullable t"
| "storable (Ty_unordered t) \<longleftrightarrow> storable t"
| "storable (Ty_struct ms) \<longleftrightarrow> distinct (map fst ms) \<and> (\<forall>m \<in> set ms. storable (snd m))"
| "storable _ \<longleftrightarrow> True"

subsection \<open>There and back\<close>

lemma variant_is_set_iff: "variant_is_set v \<longleftrightarrow> v \<noteq> V_null"
  by (cases v) (simp_all add: variant_is_set_def)

lemma fold_snoc: "fold (\<lambda>x a. a @ [x]) xs ys = ys @ xs"
  by (induction xs arbitrary: ys) simp_all

text \<open>The members of an unordered map, given in key order, become the object with these members.\<close>

lemma fold_emplace_sorted:
  "omap_ok (m @ ms) \<Longrightarrow> fold (\<lambda>e. omap_emplace (fst e) (snd e)) ms m = m @ ms"
proof (induction ms arbitrary: m)
  case (Cons e ms)
  have "omap_find m (fst e) = None" and "\<forall>x \<in> set m. fst x < fst e"
    using Cons.prems by (auto simp: omap_ok_def sorted_wrt_append omap_find_None_iff)
  then have "omap_emplace (fst e) (snd e) m = m @ [e]"
    by (simp add: omap_emplace_def omap_put_last)
  with Cons show ?case by simp
qed simp

lemma omap_ok_map_values [simp]: "omap_ok (map (map_prod id f) m) = omap_ok m"
  by (simp add: omap_ok_def comp_def)

lemma to_variant_simps [simp]:
  "vector_to xs = V_array xs" "map_to m = V_object m" "tuple_to xs = V_array xs" "fixed_to xs = V_array xs"
  "optional_to None = V_null" "optional_to (Some v) = v"
  "omap_ok m \<Longrightarrow> unordered_to m = V_object m"
  using fold_emplace_sorted [of "[]" m]
  by (simp_all add: vector_to_def map_to_def tuple_to_def fixed_to_def optional_to_def unordered_to_def
      conv_assign_def fold_snoc)

lemmas container_from_defs = vector_from_def map_from_def custom_vector_from_def custom_map_from_def enum_from_def
  tuple_from_def fixed_from_def optional_from_def unordered_from_def

lemma traverse_map_Inr:
  "(\<And>x. x \<in> set xs \<Longrightarrow> f (g x) = Inr x) \<Longrightarrow> traverse f (map g xs) = Inr xs"
  by (induction xs) auto

lemma word_of_int_back:
  "0 < n \<Longrightarrow> n \<le> 64 \<Longrightarrow> fits_int n i \<Longrightarrow> sint (word_of_int i :: u64) = i"
  "n \<le> 64 \<Longrightarrow> fits_uint n i \<Longrightarrow> uint (word_of_int i :: u64) = i"
proof -
  assume n: "0 < n" "n \<le> 64" "fits_int n i"
  have "(2::int) ^ (n - 1) \<le> 2 ^ 63" using n by (intro power_increasing) simp_all
  with n(3) show "sint (word_of_int i :: u64) = i"
    by (simp add: fits_int_def signed_of_int signed_take_bit_int_eq_self)
next
  assume n: "n \<le> 64" "fits_uint n i"
  have "(2::int) ^ n \<le> 2 ^ 64" using n(1) by (intro power_increasing) simp_all
  with n(2) show "uint (word_of_int i :: u64) = i"
    by (simp add: fits_uint_def unsigned_of_int take_bit_int_eq_self)
qed

lemma wrap_fits:
  "0 < n \<Longrightarrow> fits_int n i \<Longrightarrow> wrap_int n i = i" "fits_uint n i \<Longrightarrow> wrap_uint n i = i"
  by (simp_all add: fits_int_def fits_uint_def wrap_int_def wrap_uint_def signed_take_bit_int_eq_self take_bit_int_eq_self)

lemma traverse_values:
  "(\<And>e. e \<in> set m \<Longrightarrow> f (from_value (snd e)) = Inr (snd e)) \<Longrightarrow>
     traverse (on_value f) (map (map_prod id from_value) m) = Inr m"
  by (rule traverse_map_Inr) (simp add: on_value_def)

lemma conv_member_simp [simp]: "conv_member k w (V_object ob) = V_object (omap_emplace k w ob)"
  by (simp add: conv_member_def)

lemma conv_member_object: "\<exists>ob'. conv_member k w v = V_object ob'"
  by (simp add: conv_member_def split: variant.split)

lemma conv_members_object: "xs \<noteq> [] \<Longrightarrow> \<exists>ob. fold (\<lambda>m. conv_member (fst m) (snd m)) xs v = V_object ob"
proof (induction xs arbitrary: v)
  case (Cons m xs)
  then show ?case using conv_member_object [of "fst m" "snd m" v] by (cases xs) auto
qed simp

lemma conv_members_find:
  "distinct (map fst xs) \<Longrightarrow> omap_ok ob \<Longrightarrow> \<forall>k \<in> set (map fst xs). omap_find ob k = None \<Longrightarrow>
     \<exists>ob'. fold (\<lambda>m. conv_member (fst m) (snd m)) xs (V_object ob) = V_object ob' \<and> omap_ok ob' \<and>
       (\<forall>k. omap_find ob' k = (case omap_find ob k of None \<Rightarrow> map_of xs k | Some w \<Rightarrow> Some w))"
proof (induction xs arbitrary: ob)
  case Nil
  then show ?case by (auto split: option.split)
next
  case (Cons m xs)
  let ?ob = "omap_emplace (fst m) (snd m) ob"
  have "omap_ok ?ob" using Cons.prems by (simp add: omap_emplace_ok)
  moreover have "\<forall>k \<in> set (map fst xs). omap_find ?ob k = None"
  proof
    fix k
    assume "k \<in> set (map fst xs)"
    moreover from this have "k \<noteq> fst m" using Cons.prems(1) by (metis distinct.simps(2) list.simps(9))
    ultimately have "k \<noteq> fst m" "omap_find ob k = None" using Cons.prems(3) by auto
    then show "omap_find ?ob k = None" by (simp add: omap_emplace_find)
  qed
  ultimately obtain ob' where
    "fold (\<lambda>m. conv_member (fst m) (snd m)) xs (V_object ?ob) = V_object ob'" "omap_ok ob'"
    "\<forall>k. omap_find ob' k = (case omap_find ?ob k of None \<Rightarrow> map_of xs k | Some w \<Rightarrow> Some w)"
    using Cons.IH [of ?ob] Cons.prems(1) by auto
  with Cons.prems show ?case
    by (auto simp: omap_emplace_find split: option.split)
qed

lemma struct_members:
  assumes "distinct (map fst xs)" and "(k, y) \<in> set xs"
  shows "variant_at_key (from_value (Val_struct xs)) k = Inr (from_value y)"
proof -
  let ?ys = "map (map_prod id from_value) xs"
  from assms(2) obtain z zs where xs: "xs = z # zs" by (cases xs) auto
  have d: "distinct (map fst ?ys)" using assms(1) by (simp add: comp_def)
  have start: "fold (\<lambda>m. conv_member (fst m) (snd m)) ?ys V_null =
      fold (\<lambda>m. conv_member (fst m) (snd m)) ?ys (V_object [])"
    using xs by (simp add: conv_member_def)
  obtain ob where ob: "fold (\<lambda>m. conv_member (fst m) (snd m)) ?ys (V_object []) = V_object ob"
      "\<forall>k. omap_find ob k = map_of ?ys k"
    using conv_members_find [OF d, of "[]"] omap_ok_empty by (auto simp: omap_empty_def)
  have "map_of ?ys k = Some (from_value y)"
    using d assms(2) by (intro map_of_is_SomeI) (auto intro: rev_image_eqI)
  with ob start show ?thesis by (simp add: variant_at_key_def)
qed

lemma has_type_not_null: "has_type t x \<Longrightarrow> \<not> nullable t \<Longrightarrow> from_value x \<noteq> V_null"
proof (cases t)
  case (Ty_struct ms)
  assume "has_type t x" "\<not> nullable t"
  with Ty_struct obtain xs where "x = Val_struct xs" "xs \<noteq> []"
    by (cases ms; auto split: cpp_value.splits list.splits)
  then show ?thesis
    using conv_members_object [of "map (map_prod id from_value) xs" V_null] by auto
qed (auto split: cpp_value.splits simp: is_integer_type_def split: cpp_type.splits)

lemma have_types_length: "have_types ts xs \<Longrightarrow> length xs = length ts"
  by (induction ts arbitrary: xs) (auto split: list.splits)

lemma storable_back:
  "has_type t x \<Longrightarrow> storable t \<Longrightarrow> convert_to t (from_value x) = Inr x"
  "have_types ts xs \<Longrightarrow> \<forall>t \<in> set ts. storable t \<Longrightarrow> convert_tuple ts (map from_value xs) = Inr xs"
  "members_typed ms ys \<Longrightarrow> \<forall>m \<in> set ms. storable (snd m) \<Longrightarrow>
     \<forall>e \<in> set ys. variant_at_key v (fst e) = Inr (from_value (snd e)) \<Longrightarrow> convert_members ms v = Inr ys"
proof (induction t x and ts xs and ms ys arbitrary: and and v rule: has_type_have_types_members_typed.induct)
  case (16 t x)
  then show ?case
    using has_type_not_null [of t]
    by (auto simp: optional_from_def variant_is_set_iff split: cpp_value.splits option.splits)
next
  case (18 ms x)
  then obtain xs where x: "x = Val_struct xs" "members_typed ms xs" by (auto split: cpp_value.splits)
  have keys: "map fst xs = map fst ms" if "members_typed ms xs" for ms xs
    using that by (induction ms arbitrary: xs) (auto split: list.splits)
  have "distinct (map fst xs)" using keys [OF x(2)] 18(3) by simp
  then show ?case using 18 x struct_members [of xs] by auto
qed (auto simp: to_number_def cast_integer_def word_of_int_back wrap_fits cast_bool_def cast_real_def
    container_from_defs traverse_map_Inr traverse_values list_all_iff read_member_def have_types_length is_integer_type_def
    split: cpp_value.splits list.splits cpp_type.splits)

text \<open>
  C18: what is stored in a variant comes back: a value of a type whose optional parts cannot be null
  themselves and whose classes name their members differently is converted to a variant and back to
  itself.
\<close>

theorem conversion_roundtrip:
  assumes "has_type t x" and "storable t"
  shows "convert_to t (from_value x) = Inr x"
  using assms by (rule storable_back)

definition sample_type :: cpp_type where
  "sample_type = Ty_struct [(''id'', Ty_uint 16), (''pos'', Ty_tuple [Ty_int 8, Ty_real]),
     (''tags'', Ty_vector (Ty_optional Ty_string)), (''kind'', Ty_enum (Ty_int 32))]"

definition sample_value :: cpp_value where
  "sample_value = Val_struct [(''id'', Val_uint 65535), (''pos'', Val_tuple [Val_int (-128), Val_real NaN]),
     (''tags'', Val_vector [Val_optional None, Val_optional (Some (Val_string ''x''))]),
     (''kind'', Val_enum (Val_int 7))]"

theorem conversion_roundtrip_witness:
  "convert_to sample_type (from_value sample_value) = Inr sample_value"
  by (rule conversion_roundtrip)
    (simp_all add: sample_type_def sample_value_def fits_int_def fits_uint_def is_integer_type_def)

text \<open>An optional that holds a null value does not come back.\<close>

lemma nested_optional_collapses:
  "convert_to (Ty_optional (Ty_optional Ty_bool)) (from_value (Val_optional (Some (Val_optional None)))) =
     Inr (Val_optional None)"
  by (simp add: optional_from_def variant_is_set_iff)

subsection \<open>Which conversions succeed\<close>

text \<open>The table in the documentation of \<open>Variant::to\<close>\<close>

fun convertible :: "cpp_type \<Rightarrow> variant \<Rightarrow> bool" where
  "convertible Ty_null v \<longleftrightarrow> type_id_of v = T_null"
| "convertible Ty_bool v \<longleftrightarrow> is_scalar v"
| "convertible (Ty_int n) v \<longleftrightarrow> is_scalar v"
| "convertible (Ty_uint n) v \<longleftrightarrow> is_scalar v"
| "convertible Ty_real v \<longleftrightarrow> is_scalar v"
| "convertible Ty_string v \<longleftrightarrow> type_id_of v = T_string"
| "convertible Ty_blob v \<longleftrightarrow> type_id_of v = T_blob"
| "convertible Ty_array v \<longleftrightarrow> type_id_of v = T_array"
| "convertible Ty_object v \<longleftrightarrow> type_id_of v = T_object"
| "convertible (Ty_vector t) v \<longleftrightarrow> (case v of V_array a \<Rightarrow> \<forall>x \<in> set a. convertible t x | _ \<Rightarrow> False)"
| "convertible (Ty_map t) v \<longleftrightarrow> (case v of V_object ob \<Rightarrow> \<forall>m \<in> set ob. convertible t (snd m) | _ \<Rightarrow> False)"
| "convertible _ v \<longleftrightarrow> False"

lemma traverse_ok:
  "(\<And>x. x \<in> set xs \<Longrightarrow> (\<exists>y. f x = Inr y) = p x \<and> (f x \<in> {Inl e} \<union> range Inr)) \<Longrightarrow>
     (\<exists>ys. traverse f xs = Inr ys) = (\<forall>x \<in> set xs. p x) \<and> traverse f xs \<in> {Inl e} \<union> range Inr"
proof (induction xs)
  case (Cons x xs)
  then have "(\<exists>ys. traverse f xs = Inr ys) = (\<forall>x \<in> set xs. p x)" "traverse f xs \<in> {Inl e} \<union> range Inr"
    by simp_all
  moreover have "(\<exists>y. f x = Inr y) = p x" "f x \<in> {Inl e} \<union> range Inr" using Cons.prems [of x] by simp_all
  ultimately show ?case by (auto split: sum.splits)
qed simp

lemma real_free_number: "real_free v \<Longrightarrow> number_of v \<in> insert None (range (Some \<circ> N_int))"
  by (cases v) auto

lemma on_value_ok:
  "(\<exists>y. on_value f m = Inr y) = (\<exists>y. f (snd m) = Inr y)"
  "on_value f m \<in> {Inl e} \<union> range Inr \<longleftrightarrow> f (snd m) \<in> {Inl e} \<union> range Inr"
  by (auto simp: on_value_def split: sum.splits)

lemma convert_valid:
  "valid_arg t \<Longrightarrow> real_free v \<Longrightarrow>
     (\<exists>y. convert_to t v = Inr y) = convertible t v \<and> convert_to t v \<in> {Inl Conversion_error} \<union> range Inr"
proof (induction t v rule: convertible.induct)
  case (10 t v)
  show ?case
  proof (cases v)
    case (V_array a)
    have "(\<exists>ys. traverse (convert_to t) a = Inr ys) = (\<forall>x \<in> set a. convertible t x) \<and>
        traverse (convert_to t) a \<in> {Inl Conversion_error} \<union> range Inr"
      by (rule traverse_ok) (use 10 V_array in simp)
    with V_array show ?thesis by (auto simp: container_from_defs)
  qed (use 10 in \<open>simp_all add: container_from_defs\<close>)
next
  case (11 t v)
  show ?case
  proof (cases v)
    case (V_object ob)
    have "(\<exists>ys. traverse (on_value (convert_to t)) ob = Inr ys) = (\<forall>m \<in> set ob. convertible t (snd m)) \<and>
        traverse (on_value (convert_to t)) ob \<in> {Inl Conversion_error} \<union> range Inr"
      by (rule traverse_ok) (use 11 V_object in \<open>simp only: on_value_ok, auto\<close>)
    with V_object show ?thesis by (auto simp: container_from_defs)
  qed (use 11 in \<open>simp_all add: container_from_defs\<close>)
qed (auto simp: to_number_def cast_integer_def is_scalar_def split: variant.splits option.splits number.splits
    dest: real_free_number elim!: number_of.elims)



text \<open>
  Vectors and maps of other types throw \<open>error::Access\<close> when the variant is not an array or object,
  which the callers that expect \<open>error::Conversion\<close> do not catch.
\<close>

lemma custom_vector_throws_access:
  "\<not> valid_arg t \<Longrightarrow> type_id_of v \<noteq> T_array \<Longrightarrow> convert_to (Ty_vector t) v = Inl Access_failed"
  by (cases v) (simp_all add: container_from_defs)

subsection \<open>Converting into an existing object\<close>

text \<open>
  \<open>Variant::to(T& value)\<close>: vectors and maps are added to, the rest is assigned.  The result is the error,
  if any, and what \<open>value\<close> holds then, including the elements converted before the error.  Of what
  follows when a map already has the key only the values are modelled, not how often they are moved.
\<close>

fun push_converted :: "('a \<Rightarrow> 'e + 'b) \<Rightarrow> 'b list \<Rightarrow> 'a list \<Rightarrow> 'e option \<times> 'b list" where
  "push_converted f old [] = (None, old)"
| "push_converted f old (x # xs) =
     (case f x of Inl e \<Rightarrow> (Some e, old) | Inr y \<Rightarrow> push_converted f (old @ [y]) xs)"

fun emplace_converted :: "('a \<Rightarrow> 'e + 'b) \<Rightarrow> (string, 'b) omap \<Rightarrow> (string \<times> 'a) list \<Rightarrow> 'e option \<times> (string, 'b) omap" where
  "emplace_converted f old [] = (None, old)"
| "emplace_converted f old (m # ms) =
     (case f (snd m) of Inl e \<Rightarrow> (Some e, old)
      | Inr y \<Rightarrow> emplace_converted f (omap_emplace (fst m) y old) ms)"

definition convert_into :: "cpp_type \<Rightarrow> cpp_value \<Rightarrow> variant \<Rightarrow> convert_error option \<times> cpp_value" where
  "convert_into t old v =
    (case (t, old, v) of
       (Ty_vector s, Val_vector xs, V_array a) \<Rightarrow> map_prod id Val_vector (push_converted (convert_to s) xs a)
     | (Ty_map s, Val_map m, V_object ob) \<Rightarrow> map_prod id Val_map (emplace_converted (convert_to s) m ob)
     | _ \<Rightarrow> (case convert_to t v of Inl e \<Rightarrow> (Some e, old) | Inr x \<Rightarrow> (None, x)))"

lemma push_converted_ok:
  "traverse f xs = Inr ys \<Longrightarrow> push_converted f old xs = (None, old @ ys)"
  by (induction xs arbitrary: old ys) (auto split: sum.splits)

lemma emplace_converted_keeps:
  "emplace_converted f m ms = (e, m') \<Longrightarrow> omap_find m k = Some x \<Longrightarrow> omap_find m' k = Some x"
proof (induction ms arbitrary: m)
  case (Cons a ms)
  have "omap_find (omap_emplace (fst a) y m) k = Some x" for y
    using Cons.prems(2) by (auto simp: omap_emplace_find)
  with Cons show ?case by (auto split: sum.splits)
qed simp

text \<open>
  Converting into a vector that is not empty appends to it instead of replacing its contents, and
  converting into a map keeps the values of the keys that it has.
\<close>

theorem convert_into_appends:
  "(\<forall>xs ys a. convert_to (Ty_vector t) (V_array a) = Inr (Val_vector ys) \<longrightarrow>
     convert_into (Ty_vector t) (Val_vector xs) (V_array a) = (None, Val_vector (xs @ ys))) \<and>
   (\<forall>m ob e m'. convert_into (Ty_map t) (Val_map m) (V_object ob) = (e, Val_map m') \<longrightarrow>
     (\<forall>k x. omap_find m k = Some x \<longrightarrow> omap_find m' k = Some x))"
proof (intro conjI allI impI)
  fix xs ys a
  assume "convert_to (Ty_vector t) (V_array a) = Inr (Val_vector ys)"
  then have "traverse (convert_to t) a = Inr ys"
    by (cases "traverse (convert_to t) a") (simp_all add: container_from_defs split: if_splits)
  then show "convert_into (Ty_vector t) (Val_vector xs) (V_array a) = (None, Val_vector (xs @ ys))"
    by (simp add: convert_into_def push_converted_ok)
qed (auto simp: convert_into_def map_prod_def emplace_converted_keeps split: prod.splits)

theorem convert_into_appends_witness:
  "convert_into (Ty_vector Ty_bool) (Val_vector [Val_bool True]) (V_array [V_int 0]) =
     (None, Val_vector [Val_bool True, Val_bool False])"
proof -
  have "convert_to (Ty_vector Ty_bool) (V_array [V_int 0]) = Inr (Val_vector [Val_bool False])"
    by (simp add: container_from_defs to_number_def cast_bool_def)
  with convert_into_appends [of Ty_bool] show ?thesis by auto
qed

text \<open>\<open>Variant::valueOr\<close>\<close>

definition value_or :: "cpp_type \<Rightarrow> cpp_value \<Rightarrow> variant \<Rightarrow> convert_error + cpp_value" where
  "value_or t fallback v = (if \<not> variant_is_set v then Inr fallback else convert_to t v)"

subsection \<open>Reading an array element by element\<close>

text \<open>\<open>FromVariantConverter\<close>: its variant and the index of the next element\<close>

definition from_size :: "variant \<times> nat \<Rightarrow> nat" where
  "from_size c = variant_size (fst c)"

definition from_next :: "cpp_type \<Rightarrow> variant \<times> nat \<Rightarrow> (convert_error + cpp_value) \<times> (variant \<times> nat)" where
  "from_next t c =
    (case variant_at (fst c) (snd c) of
       Inl _ \<Rightarrow> (Inl Conversion_error, c)
     | Inr w \<Rightarrow>
         (case convert_to t w of
            Inl e \<Rightarrow> (Inl (converter_error e), c)
          | Inr x \<Rightarrow> (Inr x, fst c, snd c + 1)))"

definition from_member :: "cpp_type \<Rightarrow> string \<Rightarrow> variant \<times> nat \<Rightarrow> convert_error + cpp_value" where
  "from_member t key c = read_member (fst c) key (convert_to t)"

definition from_member_or :: "cpp_type \<Rightarrow> string \<Rightarrow> cpp_value \<Rightarrow> variant \<times> nat \<Rightarrow> convert_error + cpp_value" where
  "from_member_or t key fallback c =
    (case fst c of
       V_object ob \<Rightarrow>
         (case omap_find ob key of
            None \<Rightarrow> Inr fallback
          | Some w \<Rightarrow> (case convert_to t w of Inl e \<Rightarrow> Inl (converter_error e) | Inr x \<Rightarrow> Inr x))
     | _ \<Rightarrow> Inl Conversion_error)"

fun read_elements :: "cpp_type list \<Rightarrow> variant \<times> nat \<Rightarrow> convert_error + cpp_value list" where
  "read_elements [] c = Inr []"
| "read_elements (t # ts) c =
     (case from_next t c of
        (Inl e, _) \<Rightarrow> Inl e
      | (Inr x, c') \<Rightarrow> (case read_elements ts c' of Inl e \<Rightarrow> Inl e | Inr xs \<Rightarrow> Inr (x # xs)))"

definition write_elements :: "cpp_value list \<Rightarrow> variant" where
  "write_elements xs = fold (\<lambda>x. conv_append (from_value x)) xs (conv_size (length xs) V_null)"

lemma write_elements_array: "fold (\<lambda>x. conv_append (from_value x)) xs (V_array a) = V_array (a @ map from_value xs)"
  by (induction xs arbitrary: a) (simp_all add: conv_append_def)

lemma read_elements_from:
  "list_all2 (\<lambda>t x. has_type t x \<and> storable t) ts xs \<Longrightarrow> b = a @ map from_value xs \<Longrightarrow> n = length a \<Longrightarrow>
     read_elements ts (V_array b, n) = Inr xs"
proof (induction ts xs arbitrary: a b n rule: list_all2_induct)
  case (Cons t ts x xs)
  have "read_elements ts (V_array b, n + 1) = Inr xs"
    by (rule Cons.IH [of _ "a @ [from_value x]"]) (use Cons.prems in simp_all)
  with Cons show ?case
    by (simp add: from_next_def variant_at_def vec_at_def nth_append storable_back(1))
qed simp

text \<open>
  Values written to an array variant one after the other with a \<open>ToVariantConverter\<close> are read
  back in the same order with a \<open>FromVariantConverter\<close>; reading one more is a conversion error.
\<close>

theorem elements_roundtrip:
  assumes "list_all2 (\<lambda>t x. has_type t x \<and> storable t) ts xs"
  shows "read_elements ts (write_elements xs, 0) = Inr xs \<and>
    from_size (write_elements xs, 0) = length xs \<and>
    from_next t (write_elements xs, length xs) = (Inl Conversion_error, write_elements xs, length xs)"
  using read_elements_from [OF assms, of _ "[]" 0]
  by (simp add: write_elements_def conv_size_def write_elements_array from_size_def from_next_def variant_at_def vec_at_def)

theorem elements_roundtrip_witness:
  "read_elements [Ty_bool, Ty_string] (write_elements [Val_bool True, Val_string ''a''], 0) =
     Inr [Val_bool True, Val_string ''a'']"
  using elements_roundtrip [of "[Ty_bool, Ty_string]" "[Val_bool True, Val_string ''a'']"] by simp

subsection \<open>Comparing variants with values\<close>

text \<open>The values that \<open>operator==\<close> accepts on the other side, and what it gives\<close>

fun comparable :: "cpp_value \<Rightarrow> bool" where
  "comparable (Val_vector xs) \<longleftrightarrow> (\<forall>x \<in> set xs. comparable x)"
| "comparable (Val_map m) \<longleftrightarrow> (\<forall>e \<in> set m. comparable (snd e))"
| "comparable (Val_tuple xs) \<longleftrightarrow> (\<forall>x \<in> set xs. comparable x)"
| "comparable (Val_optional ov) \<longleftrightarrow> (case ov of None \<Rightarrow> True | Some x \<Rightarrow> comparable x)"
| "comparable (Val_enum x) \<longleftrightarrow> False"
| "comparable (Val_fixed xs) \<longleftrightarrow> False"
| "comparable (Val_unordered m) \<longleftrightarrow> False"
| "comparable (Val_struct ms) \<longleftrightarrow> False"
| "comparable _ \<longleftrightarrow> True"

fun equals_value :: "variant \<Rightarrow> cpp_value \<Rightarrow> bool"
  and equals_all :: "variant list \<Rightarrow> cpp_value list \<Rightarrow> bool"
  and equals_members :: "(string \<times> variant) list \<Rightarrow> (string \<times> cpp_value) list \<Rightarrow> bool" where
  "equals_value v Val_null \<longleftrightarrow> v = V_null"
| "equals_value v (Val_bool b) \<longleftrightarrow> (case v of V_bool c \<Rightarrow> c = b | _ \<Rightarrow> False)"
| "equals_value v (Val_int i) \<longleftrightarrow>
     (case v of V_int a \<Rightarrow> sint a = i
      | V_uint a \<Rightarrow> (if i < 0 then False else uint a = i)
      | V_real d \<Rightarrow> double_eq d (double_of_int i)
      | _ \<Rightarrow> False)"
| "equals_value v (Val_uint i) \<longleftrightarrow>
     (case v of V_int a \<Rightarrow> (if sint a < 0 then False else sint a = i)
      | V_uint a \<Rightarrow> uint a = i
      | V_real d \<Rightarrow> (if double_less d double_zero then False else double_eq d (double_of_int i))
      | _ \<Rightarrow> False)"
| "equals_value v (Val_real e) \<longleftrightarrow>
     (case v of V_int a \<Rightarrow> double_eq (double_of_int (sint a)) e
      | V_uint a \<Rightarrow> (if double_less e double_zero then False else double_eq (double_of_int (uint a)) e)
      | V_real d \<Rightarrow> double_eq d e
      | _ \<Rightarrow> False)"
| "equals_value v (Val_string s) \<longleftrightarrow> (case v of V_string t \<Rightarrow> t = s | _ \<Rightarrow> False)"
| "equals_value v (Val_blob b) \<longleftrightarrow> (case v of V_blob c \<Rightarrow> c = b | _ \<Rightarrow> False)"
| "equals_value v (Val_array a) \<longleftrightarrow> (case v of V_array b \<Rightarrow> variants_eq b a | _ \<Rightarrow> False)"
| "equals_value v (Val_object a) \<longleftrightarrow> (case v of V_object b \<Rightarrow> members_eq b a | _ \<Rightarrow> False)"
| "equals_value v (Val_vector xs) \<longleftrightarrow>
     (case v of V_array a \<Rightarrow> (if length a \<noteq> length xs then False else equals_all a xs) | _ \<Rightarrow> False)"
| "equals_value v (Val_map m) \<longleftrightarrow>
     (case v of V_object ob \<Rightarrow> (if length ob \<noteq> length m then False else equals_members ob m) | _ \<Rightarrow> False)"
| "equals_value v (Val_variant w) \<longleftrightarrow> variant_eq v w"
| "equals_value v (Val_enum x) \<longleftrightarrow> False"
| "equals_value v (Val_tuple xs) \<longleftrightarrow>
     (case v of V_array a \<Rightarrow> (if length a = length xs then equals_all a xs else False) | _ \<Rightarrow> False)"
| "equals_value v (Val_fixed xs) \<longleftrightarrow> False"
| "equals_value v (Val_optional None) \<longleftrightarrow> \<not> variant_is_set v"
| "equals_value v (Val_optional (Some x)) \<longleftrightarrow> equals_value v x"
| "equals_value v (Val_unordered m) \<longleftrightarrow> False"
| "equals_value v (Val_struct ms) \<longleftrightarrow> False"
| "equals_all a [] \<longleftrightarrow> True"
| "equals_all a (x # xs) \<longleftrightarrow>
     (case a of [] \<Rightarrow> True | v # vs \<Rightarrow> equals_value v x \<and> equals_all vs xs)"
| "equals_members a [] \<longleftrightarrow> True"
| "equals_members a ((k, x) # ms) \<longleftrightarrow>
     (case a of [] \<Rightarrow> True | v # vs \<Rightarrow> fst v = k \<and> equals_value (snd v) x \<and> equals_members vs ms)"

lemma equals_all_eq:
  "(\<And>x v. x \<in> set xs \<Longrightarrow> equals_value v x = variant_eq v (from_value x)) \<Longrightarrow> length vs = length xs \<Longrightarrow>
     equals_all vs xs = variants_eq vs (map from_value xs)"
  by (induction xs arbitrary: vs) (auto simp: length_Suc_conv)

lemma equals_members_eq:
  "(\<And>e v. e \<in> set m \<Longrightarrow> equals_value v (snd e) = variant_eq v (from_value (snd e))) \<Longrightarrow> length vs = length m \<Longrightarrow>
     equals_members vs m = members_eq vs (map (map_prod id from_value) m)"
  by (induction m arbitrary: vs) (fastforce simp: length_Suc_conv)+

lemma variants_eq_length: "variants_eq xs ys \<Longrightarrow> length xs = length ys"
  by (simp add: variants_eq_all2 list_all2_lengthD)

lemma members_eq_length: "members_eq xs ys \<Longrightarrow> length xs = length ys"
  by (simp add: members_eq_all2 list_all2_lengthD)

lemma variant_eq_null: "variant_eq v V_null \<longleftrightarrow> v = V_null"
  by (cases v) auto

lemma equals_value_eq:
  "has_type t x \<Longrightarrow> comparable x \<Longrightarrow> equals_value v x = variant_eq v (from_value x)"
  "have_types ts xs \<Longrightarrow> \<forall>x \<in> set xs. comparable x \<Longrightarrow> length vs = length xs \<Longrightarrow>
     equals_all vs xs = variants_eq vs (map from_value xs)"
  "members_typed ms ys \<Longrightarrow> True"
proof (induction t x and ts xs and ms ys arbitrary: v and vs and rule: has_type_have_types_members_typed.induct)
  case (3 n x)
  then obtain i where i: "x = Val_int i" "sint (word_of_int i :: u64) = i"
    by (auto simp: word_of_int_back split: cpp_value.splits)
  moreover have "0 \<le> i \<Longrightarrow> uint (word_of_int i :: u64) = i" using i sint_nonneg_uint by metis
  ultimately show ?case by (cases v) (auto simp: word_uint_eq_iff not_less)
next
  case (4 n x)
  then obtain i where "x = Val_uint i" "uint (word_of_int i :: u64) = i"
    by (auto simp: word_of_int_back split: cpp_value.splits)
  then show ?case by (cases v) (auto simp: word_uint_eq_iff not_less sint_nonneg_uint)
next
  case (5 x)
  then show ?case by (cases v) (auto split: cpp_value.splits)
next
  case (10 t x)
  then show ?case
    by (cases v) (auto simp: list_all_iff equals_all_eq dest: variants_eq_length split: cpp_value.splits)
next
  case (11 t x)
  then show ?case
    by (cases v) (auto simp: list_all_iff equals_members_eq dest: members_eq_length split: cpp_value.splits)
next
  case (14 ts x)
  then show ?case
    by (cases v) (auto dest: variants_eq_length split: cpp_value.splits)
next
  case (16 t x)
  then show ?case
    by (cases v) (auto simp: variant_eq_null variant_is_set_def split: cpp_value.splits option.splits)
next
  case (20 t ts xs)
  then show ?case by (auto simp: length_Suc_conv split: list.splits)
qed (auto simp: variant_eq_null split: cpp_value.splits variant.splits)

text \<open>
  C29: comparing a variant with a C++ value gives what comparing it with the variant made of that value
  gives, for integers of every width and signedness, doubles, containers, tuples and optional values.
\<close>

theorem comparison_equivalence:
  assumes "has_type t x" and "comparable x"
  shows "equals_value v x = variant_eq v (from_value x)"
  using assms by (rule equals_value_eq(1))

theorem comparison_equivalence_witness:
  "equals_value (V_array [V_uint 3, V_null]) (Val_tuple [Val_int 3, Val_optional None]) =
     variant_eq (V_array [V_uint 3, V_null]) (V_array [V_int 3, V_null])"
  using comparison_equivalence [of "Ty_tuple [Ty_int 8, Ty_optional Ty_bool]" "Val_tuple [Val_int 3, Val_optional None]"
      "V_array [V_uint 3, V_null]"]
  by (simp add: fits_int_def)

end
