(* ===== verification/Variant_Storage.thy ===== *)
theory Variant_Storage
  imports Variant_Model "HOL-Library.Monad_Syntax"
begin

section \<open>The storage of variants (\<open>internal/variant.ipp\<close>, \<open>internal/varianttraits.hpp\<close>)\<close>

text \<open>
  A \<open>Variant\<close> is a tag and a union.  Blobs, arrays and objects are allocated, the union then holds a
  pointer; strings live in the union itself and are constructed and destroyed there.  The model is a
  program with any number of variants: the list of the objects it has made, some of which have ended,
  and the heap, a map from addresses to contents.  Contents are values; that they contain variants
  themselves is not looked into.  \<open>None\<close> is undefined behaviour, or a live string or pointer that is
  overwritten: using a pointer to nothing, or to contents of another type, deleting twice, destroying
  or assigning what is not there.  What is moved from is left empty, as the standard library does.
\<close>

subsection \<open>Fields and heap\<close>

datatype field =
    F_null
  | F_bool bool
  | F_int u64
  | F_uint u64
  | F_real double
  | F_string string
  | F_ptr "nat option"
  | F_dead

record variant_obj =
  vo_type :: type_id
  vo_field :: field
  vo_alive :: bool

record storage =
  st_objs :: "variant_obj list"
  st_cells :: "nat \<Rightarrow> variant option"
  st_next :: nat

definition no_storage :: storage where
  "no_storage = \<lparr>st_objs = [], st_cells = (\<lambda>_. None), st_next = 0\<rparr>"

definition is_boxed :: "type_id \<Rightarrow> bool" where
  "is_boxed t \<longleftrightarrow> t \<in> {T_blob, T_array, T_object}"

fun live :: "field \<Rightarrow> bool" where
  "live (F_string s) \<longleftrightarrow> True"
| "live (F_ptr (Some a)) \<longleftrightarrow> True"
| "live _ \<longleftrightarrow> False"

definition field_at :: "nat \<Rightarrow> storage \<Rightarrow> field" where
  "field_at i s = vo_field (st_objs s ! i)"

definition set_field :: "nat \<Rightarrow> field \<Rightarrow> storage \<Rightarrow> storage" where
  "set_field i f s = s\<lparr>st_objs := (st_objs s)[i := (st_objs s ! i)\<lparr>vo_field := f\<rparr>]\<rparr>"

definition set_cell :: "nat \<Rightarrow> variant option \<Rightarrow> storage \<Rightarrow> storage" where
  "set_cell a x s = s\<lparr>st_cells := (st_cells s)(a := x)\<rparr>"

text \<open>The union without the pointers: what a scalar or a string leaves in it\<close>

definition in_place :: "variant \<Rightarrow> field" where
  "in_place v =
    (case v of V_null \<Rightarrow> F_null | V_bool b \<Rightarrow> F_bool b | V_int i \<Rightarrow> F_int i | V_uint u \<Rightarrow> F_uint u
     | V_real r \<Rightarrow> F_real r | V_string str \<Rightarrow> F_string str | _ \<Rightarrow> F_dead)"

subsection \<open>\<open>Access<TField>\<close>\<close>

text \<open>\<open>construct\<close>: \<open>new\<close>, placement \<open>new\<close> or assignment\<close>

definition construct_at :: "nat \<Rightarrow> variant \<Rightarrow> storage \<Rightarrow> storage option" where
  "construct_at i v s =
    (if live (field_at i s) then None
     else if is_boxed (type_id_of v) then
       Some (set_field i (F_ptr (Some (st_next s))) (set_cell (st_next s) (Some v) (s\<lparr>st_next := st_next s + 1\<rparr>)))
     else Some (set_field i (in_place v) s))"

text \<open>\<open>destruct\<close>: \<open>delete\<close>, which accepts a null pointer, or the destructor\<close>

definition destruct_at :: "type_id \<Rightarrow> nat \<Rightarrow> storage \<Rightarrow> storage option" where
  "destruct_at t i s =
    (if is_boxed t then
       (case field_at i s of
          F_ptr None \<Rightarrow> Some s
        | F_ptr (Some a) \<Rightarrow>
            (case st_cells s a of
               None \<Rightarrow> None
             | Some v \<Rightarrow> if type_id_of v = t then Some (set_field i (F_ptr None) (set_cell a None s)) else None)
        | _ \<Rightarrow> None)
     else if t = T_string then
       (case field_at i s of F_string str \<Rightarrow> Some (set_field i F_dead s) | _ \<Rightarrow> None)
     else Some s)"

text \<open>\<open>get\<close>: the value at a type\<close>

definition load_at :: "type_id \<Rightarrow> nat \<Rightarrow> storage \<Rightarrow> variant option" where
  "load_at t i s =
    (case field_at i s of
       F_null \<Rightarrow> (if t = T_null then Some V_null else None)
     | F_bool b \<Rightarrow> (if t = T_boolean then Some (V_bool b) else None)
     | F_int n \<Rightarrow> (if t = T_integer then Some (V_int n) else None)
     | F_uint u \<Rightarrow> (if t = T_uint then Some (V_uint u) else None)
     | F_real r \<Rightarrow> (if t = T_real then Some (V_real r) else None)
     | F_string str \<Rightarrow> (if t = T_string then Some (V_string str) else None)
     | F_ptr (Some a) \<Rightarrow>
         (case st_cells s a of None \<Rightarrow> None | Some v \<Rightarrow> if is_boxed t \<and> type_id_of v = t then Some v else None)
     | _ \<Rightarrow> None)"

text \<open>Assignment to the reference that \<open>get\<close> gives\<close>

definition assign_at :: "nat \<Rightarrow> variant \<Rightarrow> storage \<Rightarrow> storage option" where
  "assign_at i v s =
    (case load_at (type_id_of v) i s of
       None \<Rightarrow> None
     | Some _ \<Rightarrow>
         (case field_at i s of
            F_ptr (Some a) \<Rightarrow> Some (set_cell a (Some v) s)
          | _ \<Rightarrow> Some (set_field i (in_place v) s)))"

subsection \<open>The operations of \<open>Variant\<close>\<close>

definition type_at :: "nat \<Rightarrow> storage \<Rightarrow> type_id" where
  "type_at i s = vo_type (st_objs s ! i)"

definition retag :: "nat \<Rightarrow> type_id \<Rightarrow> storage \<Rightarrow> storage" where
  "retag i t s = s\<lparr>st_objs := (st_objs s)[i := (st_objs s ! i)\<lparr>vo_type := t\<rparr>]\<rparr>"

definition new_object :: "type_id \<Rightarrow> storage \<Rightarrow> storage" where
  "new_object t s = s\<lparr>st_objs := st_objs s @ [\<lparr>vo_type = t, vo_field = F_null, vo_alive = True\<rparr>]\<rparr>"

definition end_object :: "nat \<Rightarrow> storage \<Rightarrow> storage" where
  "end_object i s = s\<lparr>st_objs := (st_objs s)[i := (st_objs s ! i)\<lparr>vo_alive := False\<rparr>]\<rparr>"

fun moved_from :: "variant \<Rightarrow> variant" where
  "moved_from (V_string s) = V_string []"
| "moved_from (V_blob b) = V_blob []"
| "moved_from (V_array a) = V_array []"
| "moved_from (V_object ob) = V_object []"
| "moved_from v = v"

primrec default_of :: "type_id \<Rightarrow> variant" where
  "default_of T_null = V_null"
| "default_of T_boolean = V_bool False"
| "default_of T_integer = V_int 0"
| "default_of T_uint = V_uint 0"
| "default_of T_real = V_real double_zero"
| "default_of T_string = V_string []"
| "default_of T_blob = V_blob []"
| "default_of T_array = V_array []"
| "default_of T_object = V_object []"

text \<open>\<open>apply\<close> gives a visitor the field at the type of the tag.\<close>

definition visit_field :: "nat \<Rightarrow> storage \<Rightarrow> variant option" where
  "visit_field i s = load_at (type_at i s) i s"

definition variant_default :: "storage \<Rightarrow> storage option" where
  "variant_default s = Some (new_object T_null s)"

definition variant_construct :: "variant \<Rightarrow> storage \<Rightarrow> storage option" where
  "variant_construct v s = construct_at (length (st_objs s)) v (new_object (type_id_of v) s)"

definition assign_value :: "nat \<Rightarrow> variant \<Rightarrow> storage \<Rightarrow> storage option" where
  "assign_value i v s =
    (if type_at i s = type_id_of v then assign_at i v s
     else do {
       visit_field i s;
       s1 \<leftarrow> destruct_at (type_at i s) i s;
       s2 \<leftarrow> construct_at i v s1;
       Some (retag i (type_id_of v) s2)
     })"

definition variant_copy :: "nat \<Rightarrow> storage \<Rightarrow> storage option" where
  "variant_copy j s = do {
     let k = length (st_objs s);
     let s1 = new_object (type_at j s) s;
     v \<leftarrow> visit_field j s1;
     construct_at k v s1
   }"

definition variant_move :: "nat \<Rightarrow> storage \<Rightarrow> storage option" where
  "variant_move j s = do {
     let k = length (st_objs s);
     let s1 = new_object (type_at j s) s;
     v \<leftarrow> visit_field j s1;
     s2 \<leftarrow> construct_at k v s1;
     s3 \<leftarrow> assign_at j (moved_from v) s2;
     assign_value j V_null s3
   }"

definition variant_swap :: "nat \<Rightarrow> nat \<Rightarrow> storage \<Rightarrow> storage option" where
  "variant_swap i j s =
    (if i = j then Some s
     else do {
       r \<leftarrow> visit_field j s;
       l \<leftarrow> visit_field i s;
       if type_at i s = type_at j s then do {
         s1 \<leftarrow> assign_at i r s;
         assign_at j l s1
       } else do {
         s1 \<leftarrow> assign_at i (moved_from l) s;
         s2 \<leftarrow> assign_at i (default_of (type_at i s)) s1;
         s3 \<leftarrow> destruct_at (type_at i s) i s2;
         s4 \<leftarrow> construct_at i r s3;
         s5 \<leftarrow> assign_at j (moved_from r) s4;
         s6 \<leftarrow> assign_at j (default_of (type_at j s)) s5;
         s7 \<leftarrow> destruct_at (type_at j s) j s6;
         s8 \<leftarrow> construct_at j l s7;
         Some (retag j (type_at i s) (retag i (type_at j s) s8))
       }
     })"

definition variant_destroy :: "nat \<Rightarrow> storage \<Rightarrow> storage option" where
  "variant_destroy i s = do {
     s1 \<leftarrow> assign_value i V_null s;
     Some (end_object i s1)
   }"

definition copy_assign :: "nat \<Rightarrow> nat \<Rightarrow> storage \<Rightarrow> storage option" where
  "copy_assign i j s =
    (if i = j then Some s
     else do {
       let k = length (st_objs s);
       s1 \<leftarrow> variant_copy j s;
       s2 \<leftarrow> variant_swap k i s1;
       variant_destroy k s2
     })"

definition move_assign :: "nat \<Rightarrow> nat \<Rightarrow> storage \<Rightarrow> storage option" where
  "move_assign i j s =
    (if i = j then Some s
     else do {
       r \<leftarrow> visit_field j s;
       l \<leftarrow> visit_field i s;
       s1 \<leftarrow> (if type_at i s = type_at j s then do {
                s1 \<leftarrow> assign_at i r s;
                assign_at j (moved_from r) s1
              } else do {
                s1 \<leftarrow> destruct_at (type_at i s) i s;
                s2 \<leftarrow> construct_at i r s1;
                s3 \<leftarrow> assign_at j (moved_from r) s2;
                Some (retag i (type_at j s) s3)
              });
       assign_value j V_null s1
     })"

datatype variant_op =
    Op_default
  | Op_construct variant
  | Op_copy nat
  | Op_move nat
  | Op_assign_value nat variant
  | Op_copy_assign nat nat
  | Op_move_assign nat nat
  | Op_swap nat nat
  | Op_destroy nat

definition alive_at :: "nat \<Rightarrow> storage \<Rightarrow> bool" where
  "alive_at i s \<longleftrightarrow> i < length (st_objs s) \<and> vo_alive (st_objs s ! i)"

text \<open>Operations on what is not alive do nothing.\<close>

definition variant_step :: "variant_op \<Rightarrow> storage \<Rightarrow> storage option" where
  "variant_step x s =
    (case x of
       Op_default \<Rightarrow> variant_default s
     | Op_construct v \<Rightarrow> variant_construct v s
     | Op_copy j \<Rightarrow> if alive_at j s then variant_copy j s else Some s
     | Op_move j \<Rightarrow> if alive_at j s then variant_move j s else Some s
     | Op_assign_value i v \<Rightarrow> if alive_at i s then assign_value i v s else Some s
     | Op_copy_assign i j \<Rightarrow> if alive_at i s \<and> alive_at j s then copy_assign i j s else Some s
     | Op_move_assign i j \<Rightarrow> if alive_at i s \<and> alive_at j s then move_assign i j s else Some s
     | Op_swap i j \<Rightarrow> if alive_at i s \<and> alive_at j s then variant_swap i j s else Some s
     | Op_destroy i \<Rightarrow> if alive_at i s then variant_destroy i s else Some s)"

fun run_storage :: "variant_op list \<Rightarrow> storage \<Rightarrow> storage option" where
  "run_storage [] s = Some s"
| "run_storage (x # xs) s = Option.bind (variant_step x s) (run_storage xs)"

subsection \<open>What the fields hold\<close>

text \<open>
  \<open>stores s ws\<close>: the field of each object holds the given value, or nothing that must be destroyed; the
  pointers of different fields differ; the cells of the heap are those that the fields point to.
\<close>

definition stores :: "storage \<Rightarrow> variant option list \<Rightarrow> bool" where
  "stores s ws \<longleftrightarrow> length ws = length (st_objs s) \<and>
    (\<forall>i < length ws. case ws ! i of None \<Rightarrow> \<not> live (field_at i s) | Some v \<Rightarrow> load_at (type_id_of v) i s = Some v) \<and>
    (\<forall>i j a. i < length ws \<longrightarrow> j < length ws \<longrightarrow> field_at i s = F_ptr (Some a) \<longrightarrow>
      field_at j s = F_ptr (Some a) \<longrightarrow> i = j) \<and>
    (\<forall>a. st_cells s a \<noteq> None \<longleftrightarrow> (\<exists>i < length ws. field_at i s = F_ptr (Some a))) \<and>
    (\<forall>a. st_cells s a \<noteq> None \<longrightarrow> a < st_next s)"

definition types :: "storage \<Rightarrow> type_id list" where
  "types s = map vo_type (st_objs s)"

definition lives :: "storage \<Rightarrow> bool list" where
  "lives s = map vo_alive (st_objs s)"

definition same_objects :: "storage \<Rightarrow> storage \<Rightarrow> bool" where
  "same_objects s s' \<longleftrightarrow> types s' = types s \<and> lives s' = lives s"

lemma same_objects_length: "same_objects s s' \<Longrightarrow> length (st_objs s') = length (st_objs s)"
  by (metis same_objects_def types_def length_map)

lemma same_objects_trans: "same_objects s s' \<Longrightarrow> same_objects s' s'' \<Longrightarrow> same_objects s s''"
  by (simp add: same_objects_def)

lemma field_at_set_field:
  "i < length (st_objs s) \<Longrightarrow> field_at j (set_field i f s) = (if j = i then f else field_at j s)"
  by (auto simp: field_at_def set_field_def nth_list_update)

lemma set_field_simps [simp]:
  "st_cells (set_field i f s) = st_cells s" "st_next (set_field i f s) = st_next s"
  "length (st_objs (set_field i f s)) = length (st_objs s)"
  "st_cells (set_cell a x s) = (st_cells s)(a := x)" "st_next (set_cell a x s) = st_next s"
  "st_objs (set_cell a x s) = st_objs s" "field_at j (set_cell a x s) = field_at j s"
  "field_at j (s\<lparr>st_next := n\<rparr>) = field_at j s"
  by (simp_all add: set_field_def set_cell_def field_at_def)

lemma map_update_same: "f y = f (xs ! i) \<Longrightarrow> map f (xs[i := y]) = map f xs"
  by (metis list_update_beyond list_update_id map_update not_less nth_map)

lemma set_field_same:
  "same_objects s (set_field i f s)" "same_objects s (set_cell a x s)" "same_objects s (s\<lparr>st_next := n\<rparr>)"
  by (simp_all add: same_objects_def types_def lives_def set_field_def set_cell_def map_update_same)

text \<open>What \<open>get\<close> gives, by the kind of the value\<close>

lemma load_at_iff:
  "load_at (type_id_of v) i s = Some v \<longleftrightarrow>
     (if is_boxed (type_id_of v) then \<exists>a. field_at i s = F_ptr (Some a) \<and> st_cells s a = Some v
      else field_at i s = in_place v)"
  by (cases v) (auto simp: load_at_def is_boxed_def in_place_def split: field.splits option.splits)

lemma boxed_in_place: "\<not> is_boxed (type_id_of v) \<Longrightarrow> in_place v \<noteq> F_ptr x"
  by (cases v) (simp_all add: in_place_def is_boxed_def)

lemma storesD:
  assumes "stores s ws"
  shows "length ws = length (st_objs s)"
    and "i < length ws \<Longrightarrow> ws ! i = Some v \<Longrightarrow> load_at (type_id_of v) i s = Some v"
    and "i < length ws \<Longrightarrow> ws ! i = None \<Longrightarrow> \<not> live (field_at i s)"
    and "i < length ws \<Longrightarrow> j < length ws \<Longrightarrow> field_at i s = F_ptr (Some a) \<Longrightarrow>
      field_at j s = F_ptr (Some a) \<Longrightarrow> i = j"
    and "st_cells s a \<noteq> None \<longleftrightarrow> (\<exists>i < length ws. field_at i s = F_ptr (Some a))"
    and "st_cells s a \<noteq> None \<Longrightarrow> a < st_next s"
  using assms by (auto simp: stores_def)

text \<open>A store in which one field is set to what is in place there\<close>

lemma stores_in_place:
  assumes s: "stores s ws" and i: "i < length ws" and f: "\<forall>a. field_at i s \<noteq> F_ptr (Some a)"
    and g: "\<forall>a. f \<noteq> F_ptr (Some a)"
    and w: "case w of None \<Rightarrow> \<not> live f | Some v \<Rightarrow> \<not> is_boxed (type_id_of v) \<and> f = in_place v"
  shows "stores (set_field i f s) (ws[i := w])"
proof -
  note len = storesD(1) [OF s]
  have "case ws[i := w] ! j of None \<Rightarrow> \<not> live (field_at j (set_field i f s))
      | Some v \<Rightarrow> load_at (type_id_of v) j (set_field i f s) = Some v" if "j < length ws" for j
  proof (cases "j = i")
    case True
    with w i len show ?thesis by (auto simp: load_at_iff field_at_set_field split: option.splits)
  next
    case False
    with that s i len show ?thesis
      by (auto simp: stores_def load_at_iff field_at_set_field split: option.splits)
  qed
  moreover have "st_cells s a \<noteq> None \<longleftrightarrow> (\<exists>j < length ws. field_at j (set_field i f s) = F_ptr (Some a))" for a
    using storesD(5) [OF s, of a] i f g len by (auto simp: field_at_set_field)
  ultimately show ?thesis
    using s i g len by (auto simp: stores_def field_at_set_field split: if_splits)
qed

lemma stores_destruct:
  assumes s: "stores s ws" and i: "i < length ws" and v: "ws ! i = Some v"
  obtains s' where "destruct_at (type_id_of v) i s = Some s'" "stores s' (ws[i := None])" "same_objects s s'"
proof (cases "is_boxed (type_id_of v)")
  case True
  with storesD(2) [OF s i v] obtain a where a: "field_at i s = F_ptr (Some a)" "st_cells s a = Some v"
    by (auto simp: load_at_iff)
  let ?s = "set_field i (F_ptr None) (set_cell a None s)"
  note len = storesD(1) [OF s]
  have other: "field_at j s \<noteq> F_ptr (Some a)" if "j < length ws" "j \<noteq> i" for j
    using storesD(4) [OF s that(1) i] a that by blast
  have "stores ?s (ws[i := None])"
    unfolding stores_def
  proof (intro conjI allI impI, goal_cases)
    case 1
    then show ?case using len by simp
  next
    case (2 j)
    then have j: "j < length ws" by simp
    show ?case
    proof (cases "j = i")
      case True
      with i len show ?thesis by (simp add: field_at_set_field)
    next
      case False
      with i len other [OF j] storesD(2) [OF s j] storesD(3) [OF s j] show ?thesis
        by (simp add: load_at_iff field_at_set_field split: option.split) fastforce
    qed
  next
    case (3 j k b)
    then show ?case using storesD(4) [OF s, of j k b] i len by (auto simp: field_at_set_field split: if_splits)
  next
    case (4 b)
    have "(\<exists>j < length ws. field_at j ?s = F_ptr (Some b)) \<longleftrightarrow>
        b \<noteq> a \<and> (\<exists>j < length ws. field_at j s = F_ptr (Some b))"
      using i len other a(1) by (auto simp: field_at_set_field) (metis field.inject(6) option.inject)+
    then show ?case using storesD(5) [OF s, of b] by simp
  next
    case (5 b)
    then show ?case using storesD(6) [OF s, of b] by (auto split: if_splits)
  qed
  moreover have "destruct_at (type_id_of v) i s = Some ?s" using True a by (simp add: destruct_at_def)
  moreover have "same_objects s ?s" by (rule same_objects_trans [OF set_field_same(2) set_field_same(1)])
  ultimately show ?thesis using that by blast
next
  case False
  then have f: "field_at i s = in_place v" using storesD(2) [OF s i v] by (simp add: load_at_iff)
  show ?thesis
  proof (cases "type_id_of v = T_string")
    case True
    then have "destruct_at (type_id_of v) i s = Some (set_field i F_dead s)"
      using f by (cases v) (simp_all add: destruct_at_def is_boxed_def in_place_def)
    moreover have "stores (set_field i F_dead s) (ws[i := None])"
      by (rule stores_in_place [OF s i]) (use f False boxed_in_place in auto)
    ultimately show ?thesis using set_field_same(1) by (rule that)
  next
    case scalar: False
    have dead: "\<not> live (in_place v)" using False scalar by (cases v) (simp_all add: in_place_def is_boxed_def)
    have "set_field i (in_place v) s = s"
      using f i storesD(1) [OF s] list_update_id [of "st_objs s" i]
      by (cases "st_objs s ! i") (simp add: set_field_def field_at_def)
    moreover have "stores (set_field i (in_place v) s) (ws[i := None])"
      by (rule stores_in_place [OF s i]) (use f dead boxed_in_place [OF False] in simp_all)
    moreover have "destruct_at (type_id_of v) i s = Some s"
      using False scalar by (simp add: destruct_at_def)
    ultimately show ?thesis using that [of s] by (simp add: same_objects_def)
  qed
qed

lemma stores_construct:
  assumes s: "stores s ws" and i: "i < length ws" and w: "ws ! i = None"
  obtains s' where "construct_at i v s = Some s'" "stores s' (ws[i := Some v])" "same_objects s s'"
proof (cases "is_boxed (type_id_of v)")
  case True
  let ?a = "st_next s"
  let ?s = "set_field i (F_ptr (Some ?a)) (set_cell ?a (Some v) (s\<lparr>st_next := ?a + 1\<rparr>))"
  note len = storesD(1) [OF s]
  have dead: "\<not> live (field_at i s)" by (rule storesD(3) [OF s i w])
  have fresh: "st_cells s ?a = None" using storesD(6) [OF s, of ?a] by (cases "st_cells s ?a") simp_all
  have other: "field_at j s \<noteq> F_ptr (Some ?a)" if "j < length ws" for j
    using storesD(5) [OF s, of ?a] fresh that by auto
  have ne: "j \<noteq> i" if "field_at j s = F_ptr (Some b)" for j b using dead that by auto
  have "stores ?s (ws[i := Some v])"
    unfolding stores_def
  proof (intro conjI allI impI, goal_cases)
    case 1
    then show ?case using len by (simp add: set_field_def)
  next
    case (2 j)
    then have j: "j < length ws" by simp
    show ?case
    proof (cases "j = i")
      case True
      with i len \<open>is_boxed _\<close> show ?thesis by (simp add: field_at_set_field load_at_iff)
    next
      case False
      with i len other [OF j] storesD(2) [OF s j] storesD(3) [OF s j] show ?thesis
        by (simp add: load_at_iff field_at_set_field split: option.split) fastforce
    qed
  next
    case (3 j k b)
    then show ?case
      using storesD(4) [OF s, of j k b] other i len by (auto simp: field_at_set_field split: if_splits)
  next
    case (4 b)
    have "(\<exists>j < length ws. field_at j ?s = F_ptr (Some b)) \<longleftrightarrow>
        b = ?a \<or> (\<exists>j < length ws. field_at j s = F_ptr (Some b))"
    proof
      assume "\<exists>j < length ws. field_at j ?s = F_ptr (Some b)"
      then show "b = ?a \<or> (\<exists>j < length ws. field_at j s = F_ptr (Some b))"
        using i len by (auto simp: field_at_set_field split: if_splits)
    next
      assume "b = ?a \<or> (\<exists>j < length ws. field_at j s = F_ptr (Some b))"
      then show "\<exists>j < length ws. field_at j ?s = F_ptr (Some b)"
      proof
        assume "b = ?a"
        with i len show ?thesis by (intro exI [of _ i]) (simp add: field_at_set_field)
      next
        assume "\<exists>j < length ws. field_at j s = F_ptr (Some b)"
        then obtain j where "j < length ws" "field_at j s = F_ptr (Some b)" by blast
        with i len ne [of j b] show ?thesis by (intro exI [of _ j]) (simp add: field_at_set_field)
      qed
    qed
    then show ?case using storesD(5) [OF s, of b] by simp
  next
    case (5 b)
    then show ?case using storesD(6) [OF s, of b] by (auto split: if_splits)
  qed
  moreover have "construct_at i v s = Some ?s" using True dead by (simp add: construct_at_def)
  moreover have "same_objects s ?s"
    by (rule same_objects_trans [OF same_objects_trans [OF set_field_same(3) set_field_same(2)] set_field_same(1)])
  ultimately show ?thesis using that by blast
next
  case False
  have dead: "\<not> live (field_at i s)" by (rule storesD(3) [OF s i w])
  then have "construct_at i v s = Some (set_field i (in_place v) s)" using False by (simp add: construct_at_def)
  moreover have "stores (set_field i (in_place v) s) (ws[i := Some v])"
    by (rule stores_in_place [OF s i]) (use dead False boxed_in_place [OF False] in auto)
  ultimately show ?thesis using that set_field_same(1) by blast
qed

lemma stores_assign:
  assumes s: "stores s ws" and i: "i < length ws" and w: "ws ! i = Some w" "type_id_of w = type_id_of v"
  obtains s' where "assign_at i v s = Some s'" "stores s' (ws[i := Some v])" "same_objects s s'"
proof (cases "is_boxed (type_id_of v)")
  case True
  then obtain a where a: "field_at i s = F_ptr (Some a)" "st_cells s a = Some w"
    using storesD(2) [OF s i w(1)] load_at_iff [of w i s] w(2) by auto
  let ?s = "set_cell a (Some v) s"
  note len = storesD(1) [OF s]
  have other: "field_at j s \<noteq> F_ptr (Some a)" if "j < length ws" "j \<noteq> i" for j
    using storesD(4) [OF s that(1) i] a that by blast
  have "stores ?s (ws[i := Some v])"
    unfolding stores_def
  proof (intro conjI allI impI, goal_cases)
    case 1
    then show ?case using len by simp
  next
    case (2 j)
    then have j: "j < length ws" by simp
    show ?case
    proof (cases "j = i")
      case True
      with i a \<open>is_boxed _\<close> show ?thesis by (simp add: load_at_iff)
    next
      case False
      with other [OF j] storesD(2) [OF s j] storesD(3) [OF s j] show ?thesis
        by (simp add: load_at_iff split: option.split) fastforce
    qed
  next
    case (3 j k b)
    then show ?case using storesD(4) [OF s, of j k b] by simp
  next
    case (4 b)
    then show ?case using storesD(5) [OF s, of b] a i by auto
  next
    case (5 b)
    then show ?case using storesD(6) [OF s, of b] storesD(6) [OF s, of a] a by (auto split: if_splits)
  qed
  moreover have "assign_at i v s = Some ?s"
    using True a w storesD(2) [OF s i w(1)] by (simp add: assign_at_def load_at_def)
  ultimately show ?thesis using that set_field_same(2) by blast
next
  case False
  then have f: "field_at i s = in_place w"
    using storesD(2) [OF s i w(1)] load_at_iff [of w i s] w(2) by simp
  have "\<not> is_boxed (type_id_of w)" using False w by simp
  note in_place = boxed_in_place [OF False] boxed_in_place [OF this]
  have "load_at (type_id_of v) i s = Some w" using storesD(2) [OF s i w(1)] w by simp
  then have "assign_at i v s = Some (set_field i (in_place v) s)"
    using f in_place by (simp add: assign_at_def split: field.split)
  moreover have "stores (set_field i (in_place v) s) (ws[i := Some v])"
    by (rule stores_in_place [OF s i]) (use f False in_place in auto)
  ultimately show ?thesis using that set_field_same(1) by blast
qed

subsection \<open>Objects as values\<close>

text \<open>
  \<open>variables s vs\<close>: the objects alive have the values \<open>vs\<close>, their tags are those of their values, and
  nothing else is on the heap.
\<close>

definition variables :: "storage \<Rightarrow> variant option list \<Rightarrow> bool" where
  "variables s vs \<longleftrightarrow> stores s vs \<and> lives s = map (\<lambda>v. v \<noteq> None) vs \<and>
    (\<forall>i < length vs. \<forall>v. vs ! i = Some v \<longrightarrow> type_at i s = type_id_of v)"

text \<open>What the operations do to the values\<close>

primrec value_step :: "variant_op \<Rightarrow> variant option list \<Rightarrow> variant option list" where
  "value_step Op_default vs = vs @ [Some V_null]"
| "value_step (Op_construct v) vs = vs @ [Some v]"
| "value_step (Op_copy j) vs = (if j < length vs \<and> vs ! j \<noteq> None then vs @ [vs ! j] else vs)"
| "value_step (Op_move j) vs =
     (if j < length vs \<and> vs ! j \<noteq> None then vs[j := Some V_null] @ [vs ! j] else vs)"
| "value_step (Op_assign_value i v) vs = (if i < length vs \<and> vs ! i \<noteq> None then vs[i := Some v] else vs)"
| "value_step (Op_copy_assign i j) vs =
     (if i < length vs \<and> j < length vs \<and> vs ! i \<noteq> None \<and> vs ! j \<noteq> None \<and> i \<noteq> j
      then vs[i := vs ! j] @ [None] else vs)"
| "value_step (Op_move_assign i j) vs =
     (if i < length vs \<and> j < length vs \<and> vs ! i \<noteq> None \<and> vs ! j \<noteq> None \<and> i \<noteq> j
      then vs[i := vs ! j, j := Some V_null] else vs)"
| "value_step (Op_swap i j) vs =
     (if i < length vs \<and> j < length vs \<and> vs ! i \<noteq> None \<and> vs ! j \<noteq> None
      then vs[i := vs ! j, j := vs ! i] else vs)"
| "value_step (Op_destroy i) vs = (if i < length vs then vs[i := None] else vs)"

lemma type_at_same: "same_objects s s' \<Longrightarrow> i < length (st_objs s) \<Longrightarrow> type_at i s' = type_at i s"
  using same_objects_length [of s s'] by (metis nth_map same_objects_def type_at_def types_def)

lemma alive_at_variables: "variables s vs \<Longrightarrow> alive_at i s \<longleftrightarrow> i < length vs \<and> vs ! i \<noteq> None"
  by (metis (mono_tags, lifting) alive_at_def length_map lives_def nth_map variables_def)

lemma stores_cong:
  assumes "\<And>j. field_at j s' = field_at j s" and "st_cells s' = st_cells s" and "st_next s' = st_next s"
    and "length (st_objs s') = length (st_objs s)"
  shows "stores s' ws = stores s ws"
proof -
  have "load_at t j s' = load_at t j s" for t j by (simp only: load_at_def assms)
  with assms show ?thesis by (simp add: stores_def cong: option.case_cong)
qed

lemma stores_set_type: "stores (retag i t s) ws = stores s ws" "stores (end_object i s) ws = stores s ws"
proof -
  have f: "field_at j (retag i t s) = field_at j s" "field_at j (end_object i s) = field_at j s" for j
    by (cases "i < length (st_objs s)";
        simp add: field_at_def retag_def end_object_def nth_list_update list_update_beyond)+
  show "stores (retag i t s) ws = stores s ws"
    by (rule stores_cong, rule f(1)) (simp_all add: retag_def)
  show "stores (end_object i s) ws = stores s ws"
    by (rule stores_cong, rule f(2)) (simp_all add: end_object_def)
qed

lemma stores_new_object: "stores s ws \<Longrightarrow> stores (new_object t s) (ws @ [None])"
proof -
  assume s: "stores s ws"
  note len = storesD(1) [OF s]
  have f: "field_at j (new_object t s) = (if j < length ws then field_at j s else F_null)" if "j < Suc (length ws)" for j
    using that len by (auto simp: field_at_def new_object_def nth_append)
  have c: "st_cells (new_object t s) = st_cells s" "st_next (new_object t s) = st_next s"
    by (simp_all add: new_object_def)
  show ?thesis
    unfolding stores_def
  proof (intro conjI allI impI, goal_cases)
    case 1
    then show ?case using len by (simp add: new_object_def)
  next
    case (2 j)
    show ?case
    proof (cases "j < length ws")
      case True
      with f [of j] storesD(2,3) [OF s True] c show ?thesis
        by (simp add: nth_append load_at_iff split: option.split)
    qed (use 2 f [of j] in \<open>simp add: nth_append\<close>)
  next
    case (3 i j a)
    then show ?case using storesD(4) [OF s, of i j a] f [of i] f [of j] by (auto split: if_splits)
  next
    case (4 a)
    have "(\<exists>j < length (ws @ [None]). field_at j (new_object t s) = F_ptr (Some a)) \<longleftrightarrow>
        (\<exists>j < length ws. field_at j s = F_ptr (Some a))"
      using f by (auto simp: less_Suc_eq)
    then show ?case using storesD(5) [OF s, of a] c by simp
  next
    case (5 a)
    then show ?case using storesD(6) [OF s, of a] c by simp
  qed
qed

lemma variablesD:
  assumes "variables s vs"
  shows "stores s vs" "length (st_objs s) = length vs" "lives s = map (\<lambda>v. v \<noteq> None) vs"
    and "i < length vs \<Longrightarrow> vs ! i = Some v \<Longrightarrow> type_at i s = type_id_of v"
    and "i < length vs \<Longrightarrow> vs ! i = Some v \<Longrightarrow> visit_field i s = Some v"
  using assms storesD(1,2) [of s vs] by (auto simp: variables_def visit_field_def)

lemma set_type_simps [simp]:
  "length (st_objs (retag i t s)) = length (st_objs s)" "lives (retag i t s) = lives s"
  "i < length (st_objs s) \<Longrightarrow> type_at j (retag i t s) = (if j = i then t else type_at j s)"
  by (auto simp: retag_def lives_def type_at_def map_update_same nth_list_update)

lemma variables_update:
  assumes "variables s vs" and "stores s' ws" and "same_objects s s'"
    and "length ws = length vs" and "\<And>k. k < length vs \<Longrightarrow> (ws ! k \<noteq> None) = (vs ! k \<noteq> None)"
    and "\<And>k v. k < length vs \<Longrightarrow> ws ! k = Some v \<Longrightarrow> type_at k s = type_id_of v"
  shows "variables s' ws"
proof -
  have "lives s' = map (\<lambda>v. v \<noteq> None) ws"
    using variablesD(3) [OF assms(1)] assms(3,4,5) by (auto simp: same_objects_def intro!: nth_equalityI)
  moreover have "type_at k s' = type_id_of v" if "k < length ws" "ws ! k = Some v" for k v
    using that assms(4,6) variablesD(2) [OF assms(1)] type_at_same [OF assms(3), of k] by simp
  ultimately show ?thesis using assms(2) by (simp add: variables_def)
qed

lemma assign_value_ok:
  assumes s: "variables s vs" and i: "i < length vs" and w: "vs ! i = Some w"
  obtains s' where "assign_value i v s = Some s'" "variables s' (vs[i := Some v])"
proof (cases "type_id_of w = type_id_of v")
  case True
  obtain s' where s': "assign_at i v s = Some s'" "stores s' (vs[i := Some v])" "same_objects s s'"
    using stores_assign [OF variablesD(1) [OF s] i w True] .
  have "variables s' (vs[i := Some v])"
    by (rule variables_update [OF s s'(2,3)])
      (use w True variablesD(4) [OF s] i in \<open>auto simp: nth_list_update split: if_splits\<close>)
  with s'(1) True variablesD(4) [OF s i w] show ?thesis by (intro that) (simp_all add: assign_value_def)
next
  case False
  obtain s1 where s1: "destruct_at (type_id_of w) i s = Some s1" "stores s1 (vs[i := None])" "same_objects s s1"
    using stores_destruct [OF variablesD(1) [OF s] i w] .
  obtain s2 where s2: "construct_at i v s1 = Some s2" "stores s2 (vs[i := None, i := Some v])" "same_objects s1 s2"
    using stores_construct [OF s1(2), of i v] i by auto
  have same: "same_objects s s2" by (rule same_objects_trans [OF s1(3) s2(3)])
  have len: "length (st_objs s2) = length vs" using same_objects_length [OF same] variablesD(2) [OF s] by simp
  have "variables (retag i (type_id_of v) s2) (vs[i := Some v])"
    unfolding variables_def
  proof (intro conjI allI impI)
    show "stores (retag i (type_id_of v) s2) (vs[i := Some v])" using s2(2) by (simp add: stores_set_type)
    show "lives (retag i (type_id_of v) s2) = map (\<lambda>v. v \<noteq> None) (vs[i := Some v])"
      using same variablesD(3) [OF s] w by (simp add: same_objects_def map_update_same)
    fix k x
    assume "k < length (vs[i := Some v])" "vs[i := Some v] ! k = Some x"
    then show "type_at k (retag i (type_id_of v) s2) = type_id_of x"
      using i len variablesD(4) [OF s, of k x] type_at_same [OF same, of k] variablesD(2) [OF s]
      by (auto simp: nth_list_update split: if_splits)
  qed
  with s1(1) s2(1) False variablesD(4,5) [OF s i w] show ?thesis
    by (intro that) (auto simp: assign_value_def)
qed

lemma swap_ok:
  assumes s: "variables s vs" and i: "i < length vs" and j: "j < length vs" and ij: "i \<noteq> j"
    and l: "vs ! i = Some l" and r: "vs ! j = Some r"
  obtains s' where "variant_swap i j s = Some s'" "variables s' (vs[i := Some r, j := Some l])"
proof (cases "type_id_of l = type_id_of r")
  case True
  obtain s1 where s1: "assign_at i r s = Some s1" "stores s1 (vs[i := Some r])" "same_objects s s1"
    using stores_assign [OF variablesD(1) [OF s] i l True] .
  obtain s2 where s2: "assign_at j l s1 = Some s2" "stores s2 (vs[i := Some r, j := Some l])" "same_objects s1 s2"
    using stores_assign [OF s1(2), of j r l] i j ij l r True by auto
  have "variables s2 (vs[i := Some r, j := Some l])"
    by (rule variables_update [OF s s2(2) same_objects_trans [OF s1(3) s2(3)]])
      (use l r True variablesD(4) [OF s] i j in \<open>auto simp: nth_list_update split: if_splits\<close>)
  with s1(1) s2(1) True ij variablesD(4,5) [OF s i l] variablesD(4,5) [OF s j r] show ?thesis
    by (intro that) (auto simp: variant_swap_def)
next
  case False
  have moved: "type_id_of (moved_from v) = type_id_of v" "type_id_of (default_of t) = t" for v t
    by (cases v; cases t; simp)+
  obtain s1 where s1: "assign_at i (moved_from l) s = Some s1" "stores s1 (vs[i := Some (moved_from l)])" "same_objects s s1"
    using stores_assign [OF variablesD(1) [OF s] i l, of "moved_from l"] moved by auto
  obtain s2 where s2: "assign_at i (default_of (type_id_of l)) s1 = Some s2"
      "stores s2 (vs[i := Some (default_of (type_id_of l))])" "same_objects s1 s2"
    using stores_assign [OF s1(2), of i "moved_from l" "default_of (type_id_of l)"] moved i by auto
  obtain s3 where s3: "destruct_at (type_id_of l) i s2 = Some s3" "stores s3 (vs[i := None])" "same_objects s2 s3"
    using stores_destruct [OF s2(2), of i "default_of (type_id_of l)"] moved i by auto
  obtain s4 where s4: "construct_at i r s3 = Some s4" "stores s4 (vs[i := Some r])" "same_objects s3 s4"
    using stores_construct [OF s3(2), of i r] i by auto
  obtain s5 where s5: "assign_at j (moved_from r) s4 = Some s5"
      "stores s5 (vs[i := Some r, j := Some (moved_from r)])" "same_objects s4 s5"
    using stores_assign [OF s4(2), of j r "moved_from r"] moved j ij r by auto
  obtain s6 where s6: "assign_at j (default_of (type_id_of r)) s5 = Some s6"
      "stores s6 (vs[i := Some r, j := Some (default_of (type_id_of r))])" "same_objects s5 s6"
    using stores_assign [OF s5(2), of j "moved_from r" "default_of (type_id_of r)"] moved j by auto
  obtain s7 where s7: "destruct_at (type_id_of r) j s6 = Some s7" "stores s7 (vs[i := Some r, j := None])" "same_objects s6 s7"
    using stores_destruct [OF s6(2), of j "default_of (type_id_of r)"] moved j by auto
  obtain s8 where s8: "construct_at j l s7 = Some s8" "stores s8 (vs[i := Some r, j := Some l])" "same_objects s7 s8"
    using stores_construct [OF s7(2), of j l] j by auto
  have same: "same_objects s s8"
    using s1(3) s2(3) s3(3) s4(3) s5(3) s6(3) s7(3) s8(3) by (simp add: same_objects_def)
  have len: "length (st_objs s8) = length vs" using same_objects_length [OF same] variablesD(2) [OF s] by simp
  let ?s = "retag j (type_id_of l) (retag i (type_id_of r) s8)"
  have "variables ?s (vs[i := Some r, j := Some l])"
    unfolding variables_def
  proof (intro conjI allI impI)
    show "stores ?s (vs[i := Some r, j := Some l])" using s8(2) by (simp add: stores_set_type)
    show "lives ?s = map (\<lambda>v. v \<noteq> None) (vs[i := Some r, j := Some l])"
      using same variablesD(3) [OF s] l r ij by (simp add: same_objects_def map_update_same)
    fix k x
    assume "k < length (vs[i := Some r, j := Some l])" "vs[i := Some r, j := Some l] ! k = Some x"
    then show "type_at k ?s = type_id_of x"
      using i j len variablesD(4) [OF s, of k x] type_at_same [OF same, of k] variablesD(2) [OF s]
      by (auto simp: nth_list_update split: if_splits)
  qed
  with s1(1) s2(1) s3(1) s4(1) s5(1) s6(1) s7(1) s8(1) False ij variablesD(4,5) [OF s i l] variablesD(4,5) [OF s j r]
  show ?thesis by (intro that) (auto simp: variant_swap_def)
qed

lemma visit_default [simp]: "type_id_of (moved_from v) = type_id_of v" "type_id_of (default_of t) = t"
  by (cases v; simp) (cases t; simp)

lemma new_object_facts:
  assumes "variables s vs"
  shows "j < length vs \<Longrightarrow> vs ! j = Some v \<Longrightarrow> visit_field j (new_object t s) = Some v"
    and "j < length vs \<Longrightarrow> type_at j (new_object t s) = type_at j s"
    and "type_at (length vs) (new_object t s) = t"
    and "lives (new_object t s) = map (\<lambda>v. v \<noteq> None) vs @ [True]"
proof -
  note len = variablesD(2) [OF assms]
  show type: "type_at j (new_object t s) = type_at j s" if "j < length vs" for j
    using that len by (simp add: type_at_def new_object_def nth_append)
  show "type_at (length vs) (new_object t s) = t"
    using len by (simp add: type_at_def new_object_def nth_append)
  show "lives (new_object t s) = map (\<lambda>v. v \<noteq> None) vs @ [True]"
    using variablesD(3) [OF assms] by (simp add: lives_def new_object_def)
  show "visit_field j (new_object t s) = Some v" if "j < length vs" "vs ! j = Some v"
    using storesD(2) [OF stores_new_object [OF variablesD(1) [OF assms]], of j v] that type [OF that(1)]
      variablesD(4) [OF assms that]
    by (simp add: visit_field_def nth_append)
qed

lemma variables_new:
  assumes s: "variables s vs" and s': "stores s' (ws @ [Some v])" "same_objects (new_object (type_id_of v) s) s'"
    and ws: "length ws = length vs" "\<And>k. k < length vs \<Longrightarrow> (ws ! k \<noteq> None) = (vs ! k \<noteq> None)"
      "\<And>k v. k < length vs \<Longrightarrow> ws ! k = Some v \<Longrightarrow> type_at k s = type_id_of v"
  shows "variables s' (ws @ [Some v])"
proof -
  have "map (\<lambda>v. v \<noteq> None) ws = map (\<lambda>v. v \<noteq> None) vs" using ws(1,2) by (auto intro!: nth_equalityI)
  then have "lives s' = map (\<lambda>v. v \<noteq> None) (ws @ [Some v])"
    using s'(2) new_object_facts(4) [OF s] by (simp add: same_objects_def)
  moreover have "type_at k s' = type_id_of x" if "k < length (ws @ [Some v])" "(ws @ [Some v]) ! k = Some x" for k x
  proof -
    have "type_at k s' = type_at k (new_object (type_id_of v) s)"
      using that(1) ws(1) variablesD(2) [OF s] by (intro type_at_same [OF s'(2)]) (simp add: new_object_def)
    with that new_object_facts(2,3) [OF s] ws(1,3) show ?thesis
      by (cases "k < length vs") (auto simp: nth_append less_Suc_eq)
  qed
  ultimately show ?thesis using s'(1) by (simp add: variables_def)
qed

lemma construct_ok:
  assumes s: "variables s vs"
  obtains s' where "construct_at (length vs) v (new_object (type_id_of v) s) = Some s'"
    "stores s' (vs @ [Some v])" "same_objects (new_object (type_id_of v) s) s'"
  using stores_construct [OF stores_new_object [OF variablesD(1) [OF s]], of "length vs" v] by auto

lemma copy_ok:
  assumes s: "variables s vs" and j: "j < length vs" "vs ! j = Some v"
  obtains s' where "variant_copy j s = Some s'" "variables s' (vs @ [Some v])"
proof -
  obtain s' where s': "construct_at (length vs) v (new_object (type_id_of v) s) = Some s'"
    "stores s' (vs @ [Some v])" "same_objects (new_object (type_id_of v) s) s'"
    using construct_ok [OF s] .
  have "variables s' (vs @ [Some v])"
    by (rule variables_new [OF s s'(2,3)]) (use variablesD(4) [OF s] in auto)
  with s'(1) show ?thesis
    using new_object_facts(1) [OF s j] variablesD(2,4) [OF s] j
    by (intro that) (simp_all add: variant_copy_def Let_def)
qed

lemma move_ok:
  assumes s: "variables s vs" and j: "j < length vs" "vs ! j = Some v"
  obtains s' where "variant_move j s = Some s'" "variables s' (vs[j := Some V_null] @ [Some v])"
proof -
  obtain s1 where s1: "construct_at (length vs) v (new_object (type_id_of v) s) = Some s1"
    "stores s1 (vs @ [Some v])" "same_objects (new_object (type_id_of v) s) s1"
    using construct_ok [OF s] .
  obtain s2 where s2: "assign_at j (moved_from v) s1 = Some s2"
      "stores s2 (vs[j := Some (moved_from v)] @ [Some v])" "same_objects s1 s2"
    using stores_assign [OF s1(2), of j v "moved_from v"] j by (auto simp: nth_append list_update_append)
  have "variables s2 (vs[j := Some (moved_from v)] @ [Some v])"
    by (rule variables_new [OF s s2(2) same_objects_trans [OF s1(3) s2(3)]])
      (use j variablesD(4) [OF s] in \<open>auto simp: nth_list_update split: if_splits\<close>)
  then obtain s3 where s3: "assign_value j V_null s2 = Some s3"
      "variables s3 ((vs[j := Some (moved_from v)] @ [Some v])[j := Some V_null])"
    using j by (auto simp: nth_append intro: assign_value_ok [of s2 _ j "moved_from v" V_null])
  with s1(1) s2(1) show ?thesis
    using new_object_facts(1) [OF s j] variablesD(2,4) [OF s] j
    by (intro that) (simp_all add: variant_move_def Let_def list_update_append)
qed

lemma destroy_ok:
  assumes s: "variables s vs" and i: "i < length vs" "vs ! i = Some v"
  obtains s' where "variant_destroy i s = Some s'" "variables s' (vs[i := None])"
proof -
  obtain s1 where s1: "assign_value i V_null s = Some s1" "variables s1 (vs[i := Some V_null])"
    using assign_value_ok [OF s i] .
  note st = variablesD(1) [OF s1(2)]
  have len: "length (st_objs s1) = length vs" using variablesD(2) [OF s1(2)] by simp
  have f: "field_at i s1 = F_null"
    using storesD(2) [OF st, of i V_null] i load_at_iff [of V_null i s1] by (simp add: is_boxed_def in_place_def)
  have "stores s1 (vs[i := None])"
    unfolding stores_def
  proof (intro conjI allI impI, goal_cases)
    case (2 k)
    then show ?case using storesD(2,3) [OF st, of k] f i
      by (cases "k = i") (auto split: option.split)
  next
    case (3 k j a)
    then show ?case using storesD(4) [OF st, of k j a] by simp
  next
    case (4 a)
    then show ?case using storesD(5) [OF st, of a] by simp
  qed (use len storesD(6) [OF st] in simp_all)
  moreover have "lives (end_object i s1) = map (\<lambda>v. v \<noteq> None) (vs[i := None])"
    using variablesD(3) [OF s1(2)] len i by (simp add: lives_def end_object_def map_update map_update_same)
  moreover have "type_at k (end_object i s1) = type_at k s1" for k
    by (cases "i < length (st_objs s1)")
      (simp_all add: type_at_def end_object_def nth_list_update list_update_beyond)
  then have "type_at k (end_object i s1) = type_id_of x" if "k < length vs" "vs[i := None] ! k = Some x" for k x
    using that variablesD(4) [OF s1(2), of k x] i by (auto simp: nth_list_update split: if_splits)
  ultimately have "variables (end_object i s1) (vs[i := None])"
    by (simp add: variables_def stores_set_type)
  with s1(1) show ?thesis by (intro that) (simp_all add: variant_destroy_def)
qed

lemma copy_assign_ok:
  assumes s: "variables s vs" and i: "i < length vs" "vs ! i = Some l" and j: "j < length vs" "vs ! j = Some r"
    and ij: "i \<noteq> j"
  obtains s' where "copy_assign i j s = Some s'" "variables s' (vs[i := Some r] @ [None])"
proof -
  let ?k = "length vs"
  obtain s1 where s1: "variant_copy j s = Some s1" "variables s1 (vs @ [Some r])"
    using copy_ok [OF s j] .
  obtain s2 where s2: "variant_swap ?k i s1 = Some s2" "variables s2 ((vs @ [Some r])[?k := Some l, i := Some r])"
    using i by (auto intro: swap_ok [OF s1(2), of ?k i r l] simp: nth_append)
  obtain s3 where s3: "variant_destroy ?k s2 = Some s3"
      "variables s3 ((vs @ [Some r])[?k := Some l, i := Some r, ?k := None])"
    using i by (auto intro: destroy_ok [OF s2(2), of ?k l] simp: nth_append nth_list_update)
  from i have "(vs @ [Some r])[?k := Some l, i := Some r, ?k := None] = vs[i := Some r] @ [None]"
    by (simp add: list_update_append)
  with s1(1) s2(1) s3 ij show ?thesis
    using variablesD(2) [OF s] by (intro that) (simp_all add: copy_assign_def Let_def)
qed

lemma move_assign_ok:
  assumes s: "variables s vs" and i: "i < length vs" "vs ! i = Some l" and j: "j < length vs" "vs ! j = Some r"
    and ij: "i \<noteq> j"
  obtains s' where "move_assign i j s = Some s'" "variables s' (vs[i := Some r, j := Some V_null])"
proof -
  let ?vs = "vs[i := Some r, j := Some (moved_from r)]"
  have last: "\<exists>s'. assign_value j V_null s1 = Some s' \<and> variables s' (vs[i := Some r, j := Some V_null])"
    if "variables s1 ?vs" for s1
    using assign_value_ok [OF that, of j "moved_from r" V_null] j by auto
  show ?thesis
  proof (cases "type_id_of l = type_id_of r")
    case True
    obtain s1 where s1: "assign_at i r s = Some s1" "stores s1 (vs[i := Some r])" "same_objects s s1"
      using stores_assign [OF variablesD(1) [OF s] i True] .
    obtain s2 where s2: "assign_at j (moved_from r) s1 = Some s2" "stores s2 ?vs" "same_objects s1 s2"
      using stores_assign [OF s1(2), of j r "moved_from r"] j ij by auto
    have "variables s2 ?vs"
      by (rule variables_update [OF s s2(2) same_objects_trans [OF s1(3) s2(3)]])
        (use i j True variablesD(4) [OF s] in \<open>auto simp: nth_list_update split: if_splits\<close>)
    from last [OF this] s1(1) s2(1) True ij variablesD(4,5) [OF s i] variablesD(4,5) [OF s j] show ?thesis
      by (auto simp: move_assign_def intro: that)
  next
    case False
    obtain s1 where s1: "destruct_at (type_id_of l) i s = Some s1" "stores s1 (vs[i := None])" "same_objects s s1"
      using stores_destruct [OF variablesD(1) [OF s] i] .
    obtain s2 where s2: "construct_at i r s1 = Some s2" "stores s2 (vs[i := Some r])" "same_objects s1 s2"
      using stores_construct [OF s1(2), of i r] i by auto
    obtain s3 where s3: "assign_at j (moved_from r) s2 = Some s3" "stores s3 ?vs" "same_objects s2 s3"
      using stores_assign [OF s2(2), of j r "moved_from r"] j ij by auto
    have same: "same_objects s s3" using s1(3) s2(3) s3(3) by (simp add: same_objects_def)
    have len: "length (st_objs s3) = length vs" using same_objects_length [OF same] variablesD(2) [OF s] by simp
    let ?s = "retag i (type_id_of r) s3"
    have "lives ?s = map (\<lambda>v. v \<noteq> None) ?vs"
      using same variablesD(3) [OF s] i j ij by (simp add: same_objects_def map_update_same)
    moreover have "type_at k ?s = type_id_of x" if "k < length vs" "?vs ! k = Some x" for k x
      using that i j ij len variablesD(4) [OF s, of k x] variablesD(4) [OF s j] type_at_same [OF same, of k]
        variablesD(2) [OF s]
      by (auto simp: nth_list_update split: if_splits)
    ultimately have "variables ?s ?vs" using s3(2) by (simp add: variables_def stores_set_type)
    from last [OF this] s1(1) s2(1) s3(1) False ij variablesD(4,5) [OF s i] variablesD(4,5) [OF s j] show ?thesis
      by (auto simp: move_assign_def intro: that)
  qed
qed

lemma step_ok: "variables s vs \<Longrightarrow> \<exists>s'. variant_step x s = Some s' \<and> variables s' (value_step x vs)"
proof (cases x)
  case Op_default
  assume s: "variables s vs"
  have "stores (new_object T_null s) (vs @ [Some V_null])"
  proof -
    obtain s' where "construct_at (length vs) V_null (new_object T_null s) = Some s'" "stores s' (vs @ [Some V_null])"
      using construct_ok [OF s, of V_null] by auto
    moreover have "field_at (length vs) (new_object T_null s) = F_null"
      using variablesD(2) [OF s] by (simp add: field_at_def new_object_def nth_append)
    moreover have "set_field (length vs) F_null (new_object T_null s) = new_object T_null s"
      using variablesD(2) [OF s] by (simp add: set_field_def new_object_def nth_append list_update_append)
    ultimately show ?thesis by (simp add: construct_at_def is_boxed_def in_place_def)
  qed
  then have "variables (new_object T_null s) (vs @ [Some V_null])"
    by (rule variables_new [OF s]) (use variablesD(4) [OF s] in \<open>auto simp: same_objects_def\<close>)
  with Op_default show ?thesis by (simp add: variant_step_def variant_default_def)
next
  case (Op_construct v)
  assume s: "variables s vs"
  obtain s' where s': "construct_at (length vs) v (new_object (type_id_of v) s) = Some s'"
    "stores s' (vs @ [Some v])" "same_objects (new_object (type_id_of v) s) s'"
    using construct_ok [OF s] .
  have "variables s' (vs @ [Some v])"
    by (rule variables_new [OF s s'(2,3)]) (use variablesD(4) [OF s] in auto)
  with s'(1) Op_construct show ?thesis
    using variablesD(2) [OF s] by (simp add: variant_step_def variant_construct_def)
next
  case (Op_copy j)
  assume s: "variables s vs"
  show ?thesis
  proof (cases "alive_at j s")
    case True
    then obtain v' where v: "j < length vs" "vs ! j = Some v'" using alive_at_variables [OF s] by auto
    from copy_ok [OF s v] obtain s' where "variant_copy j s = Some s'" "variables s' (value_step x vs)" using v Op_copy by auto
    with True Op_copy show ?thesis by (simp add: variant_step_def)
  qed (use s Op_copy in \<open>auto simp: variant_step_def alive_at_variables [OF s]\<close>)
next
  case (Op_move j)
  assume s: "variables s vs"
  show ?thesis
  proof (cases "alive_at j s")
    case True
    then obtain v' where v: "j < length vs" "vs ! j = Some v'" using alive_at_variables [OF s] by auto
    from move_ok [OF s v] obtain s' where "variant_move j s = Some s'" "variables s' (value_step x vs)" using v Op_move by auto
    with True Op_move show ?thesis by (simp add: variant_step_def)
  qed (use s Op_move in \<open>auto simp: variant_step_def alive_at_variables [OF s]\<close>)
next
  case (Op_assign_value i v)
  assume s: "variables s vs"
  show ?thesis
  proof (cases "alive_at i s")
    case True
    then obtain v' where v: "i < length vs" "vs ! i = Some v'" using alive_at_variables [OF s] by auto
    from assign_value_ok [OF s v, of v] obtain s' where "assign_value i v s = Some s'" "variables s' (value_step x vs)" using v Op_assign_value by auto
    with True Op_assign_value show ?thesis by (simp add: variant_step_def)
  qed (use s Op_assign_value in \<open>auto simp: variant_step_def alive_at_variables [OF s]\<close>)
next
  case (Op_copy_assign i j)
  assume s: "variables s vs"
  show ?thesis
  proof (cases "alive_at i s \<and> alive_at j s \<and> i \<noteq> j")
    case True
    then obtain l r where v: "i < length vs" "vs ! i = Some l" "j < length vs" "vs ! j = Some r"
      using alive_at_variables [OF s] by auto
    from copy_assign_ok [OF s v] obtain s' where "copy_assign i j s = Some s'" "variables s' (value_step x vs)" using v True Op_copy_assign by auto
    with True Op_copy_assign show ?thesis by (simp add: variant_step_def)
  next
    case False
    then show ?thesis
      using s Op_copy_assign by (auto simp: variant_step_def alive_at_variables [OF s] copy_assign_def)
  qed
next
  case (Op_move_assign i j)
  assume s: "variables s vs"
  show ?thesis
  proof (cases "alive_at i s \<and> alive_at j s \<and> i \<noteq> j")
    case True
    then obtain l r where v: "i < length vs" "vs ! i = Some l" "j < length vs" "vs ! j = Some r"
      using alive_at_variables [OF s] by auto
    from move_assign_ok [OF s v] obtain s' where "move_assign i j s = Some s'" "variables s' (value_step x vs)" using v True Op_move_assign by auto
    with True Op_move_assign show ?thesis by (simp add: variant_step_def)
  next
    case False
    then show ?thesis
      using s Op_move_assign by (auto simp: variant_step_def alive_at_variables [OF s] move_assign_def)
  qed
next
  case (Op_swap i j)
  assume s: "variables s vs"
  show ?thesis
  proof (cases "alive_at i s \<and> alive_at j s \<and> i \<noteq> j")
    case True
    then obtain l r where v: "i < length vs" "vs ! i = Some l" "j < length vs" "vs ! j = Some r"
      using alive_at_variables [OF s] by auto
    from swap_ok [OF s v(1,3) _ v(2,4)] obtain s' where "variant_swap i j s = Some s'" "variables s' (value_step x vs)" using v True Op_swap by auto
    with True Op_swap show ?thesis by (simp add: variant_step_def)
  next
    case False
    then show ?thesis
      using s Op_swap by (auto simp: variant_step_def alive_at_variables [OF s] variant_swap_def)
  qed
next
  case (Op_destroy i)
  assume s: "variables s vs"
  show ?thesis
  proof (cases "alive_at i s")
    case True
    then obtain v' where v: "i < length vs" "vs ! i = Some v'" using alive_at_variables [OF s] by auto
    from destroy_ok [OF s v] obtain s' where "variant_destroy i s = Some s'" "variables s' (value_step x vs)" using v Op_destroy by auto
    with True Op_destroy show ?thesis by (simp add: variant_step_def)
  next
    case False
    then have "value_step x vs = vs"
      using Op_destroy list_update_same_conv [of i vs None] by (auto simp: alive_at_variables [OF s])
    with False s Op_destroy show ?thesis by (simp add: variant_step_def)
  qed
qed

lemma no_storage_variables: "variables no_storage []"
  by (simp add: variables_def stores_def no_storage_def lives_def)

lemma run_ok: "variables s vs \<Longrightarrow> \<exists>s'. run_storage xs s = Some s' \<and> variables s' (fold value_step xs vs)"
proof (induction xs arbitrary: s vs)
  case (Cons x xs)
  from step_ok [OF Cons.prems, of x] Cons.IH show ?case by fastforce
qed simp

subsection \<open>What is in the variants, and on the heap\<close>

text \<open>The values of the objects; \<open>None\<close> for those that have ended\<close>

definition contents :: "storage \<Rightarrow> variant option list" where
  "contents s = map (\<lambda>i. if alive_at i s then visit_field i s else None) [0 ..< length (st_objs s)]"

text \<open>The pointers in the objects that are alive\<close>

definition owned_cells :: "storage \<Rightarrow> nat list" where
  "owned_cells s = concat (map (\<lambda>i. case field_at i s of F_ptr (Some a) \<Rightarrow> if alive_at i s then [a] else [] | _ \<Rightarrow> [])
    [0 ..< length (st_objs s)])"

lemma variables_contents: "variables s vs \<Longrightarrow> contents s = vs"
  by (rule nth_equalityI)
    (auto simp: contents_def alive_at_variables variablesD(2) dest: variablesD(5))

lemma distinct_concat_map:
  assumes "\<And>x. x \<in> set xs \<Longrightarrow> length (f x) \<le> 1"
    and "\<And>i j a. i < length xs \<Longrightarrow> j < length xs \<Longrightarrow> a \<in> set (f (xs ! i)) \<Longrightarrow> a \<in> set (f (xs ! j)) \<Longrightarrow> i = j"
  shows "distinct (concat (map f xs))"
  using assms
proof (induction xs)
  case (Cons x xs)
  have "distinct (f x)" using Cons.prems(1) [of x] by (cases "f x") auto
  moreover have "set (f x) \<inter> (\<Union>y\<in>set xs. set (f y)) = {}"
    using Cons.prems(2) [of 0 "Suc _"] by (fastforce simp: in_set_conv_nth)
  moreover have "distinct (concat (map f xs))"
    by (rule Cons.IH) (use Cons.prems(1) Cons.prems(2) [of "Suc _" "Suc _"] in auto)
  ultimately show ?case by simp
qed simp

lemma variables_owned:
  assumes s: "variables s vs"
  shows "set (owned_cells s) = {a. st_cells s a \<noteq> None}" and "distinct (owned_cells s)"
proof -
  let ?f = "\<lambda>i. case field_at i s of F_ptr (Some a) \<Rightarrow> if alive_at i s then [a] else [] | _ \<Rightarrow> []"
  note st = variablesD(1) [OF s]
  have alive: "alive_at i s" if "i < length vs" "field_at i s = F_ptr (Some a)" for i a
    using alive_at_variables [OF s, of i] storesD(3) [OF st that(1)] that by (cases "vs ! i") auto
  have f: "a \<in> set (?f i) \<longleftrightarrow> field_at i s = F_ptr (Some a) \<and> alive_at i s" "length (?f i) \<le> 1" for a i
    by (auto split: field.split option.split)
  show "distinct (owned_cells s)"
    unfolding owned_cells_def
  proof (rule distinct_concat_map)
    fix i j a
    assume "i < length [0 ..< length (st_objs s)]" "j < length [0 ..< length (st_objs s)]"
      "a \<in> set (?f ([0 ..< length (st_objs s)] ! i))" "a \<in> set (?f ([0 ..< length (st_objs s)] ! j))"
    then show "i = j" using storesD(4) [OF st, of i j a] variablesD(2) [OF s] unfolding f by simp
  qed (rule f)
  have "a \<in> set (owned_cells s) \<longleftrightarrow> (\<exists>i < length vs. field_at i s = F_ptr (Some a))" for a
    using alive variablesD(2) [OF s] unfolding owned_cells_def set_concat set_map UN_simps UN_iff f(1) by auto
  then show "set (owned_cells s) = {a. st_cells s a \<noteq> None}"
    using storesD(5) [OF st] by auto
qed



end
