(* ===== verification/Payload.thy ===== *)
theory Payload
  imports Client Variant_Convert Variant_Storage
begin

section \<open>Payloads and unpacked slots (\<open>payload.hpp\<close>, \<open>unpacker.hpp\<close>, \<open>corounpacker.hpp\<close>)\<close>

text \<open>
  The positional arguments of a message as C++ values, and the wrappers that call a slot with them,
  at once or in a coroutine.  The slot is a parameter: a function from what it is given to how it ends.
  \<open>None\<close> is the undefined behaviour of converting a double that is out of range.  The text of
  conversion exceptions is a parameter, \<open>what\<close>.  Exceptions other than \<open>Error\<close> and \<open>error::BadType\<close>
  are not modelled.
\<close>

subsection \<open>Arguments\<close>

text \<open>\<open>withArgs\<close> and \<open>withArgsTuple\<close>\<close>

primrec bundle_args :: "cpp_value list \<Rightarrow> varray \<Rightarrow> varray" where
  "bundle_args [] array = array"
| "bundle_args (x # xs) array = bundle_args xs (array @ [from_value x])"

definition with_values :: "cpp_value list \<Rightarrow> wamp_message \<Rightarrow> wamp_message" where
  "with_values xs m = with_arg_list (bundle_args xs []) m"

definition with_tuple :: "cpp_value list \<Rightarrow> wamp_message \<Rightarrow> wamp_message" where
  "with_tuple xs m = with_arg_list (map from_value xs) m"

text \<open>
  \<open>convertTo\<close> and \<open>convertToTuple\<close>: the error if any, the number of values converted, and what the
  targets, given with their types, hold then.
\<close>

fun unbundle_to :: "varray \<Rightarrow> nat \<Rightarrow> (cpp_type \<times> cpp_value) list \<Rightarrow> convert_error option \<times> nat \<times> cpp_value list" where
  "unbundle_to array i [] = (None, i, [])"
| "unbundle_to array i ((t, x) # ts) =
     (if i < length array then
        (case convert_to t (array ! i) of
           Inl e \<Rightarrow> (Some e, i, x # map snd ts)
         | Inr y \<Rightarrow> (let (e, n, ys) = unbundle_to array (i + 1) ts in (e, n, y # ys)))
      else (None, i, x # map snd ts))"

definition convert_args_to :: "(cpp_type \<times> cpp_value) list \<Rightarrow> wamp_message \<Rightarrow> convert_error option \<times> nat \<times> cpp_value list" where
  "convert_args_to ts m = unbundle_to (message_args m) 0 ts"

fun unbundle_to_tuple :: "varray \<Rightarrow> nat \<Rightarrow> (cpp_type \<times> cpp_value) list \<Rightarrow> convert_error option \<times> nat \<times> cpp_value list" where
  "unbundle_to_tuple array i [] = (None, i, [])"
| "unbundle_to_tuple array i ((t, x) # ts) =
     (if i < length array then
        (case convert_to t (array ! i) of
           Inl e \<Rightarrow> (Some e, i, x # map snd ts)
         | Inr y \<Rightarrow> (let (e, n, ys) = unbundle_to_tuple array (i + 1) ts in (e, n, y # ys)))
      else (None, i, x # map snd ts))"

definition convert_args_to_tuple ::
    "(cpp_type \<times> cpp_value) list \<Rightarrow> wamp_message \<Rightarrow> convert_error option \<times> nat \<times> cpp_value list" where
  "convert_args_to_tuple ts m = unbundle_to_tuple (message_args m) 0 ts"

text \<open>
  \<open>moveTo\<close>: the targets must be of the bound types that the arguments have.  What is moved from stays an
  argument of its type.  \<open>moveToTuple\<close> takes the arguments as constant, and copies.
\<close>

primrec bound_type :: "variant \<Rightarrow> cpp_type" where
  "bound_type V_null = Ty_null"
| "bound_type (V_bool b) = Ty_bool"
| "bound_type (V_int i) = Ty_int 64"
| "bound_type (V_uint u) = Ty_uint 64"
| "bound_type (V_real d) = Ty_real"
| "bound_type (V_string s) = Ty_string"
| "bound_type (V_blob b) = Ty_blob"
| "bound_type (V_array a) = Ty_array"
| "bound_type (V_object ob) = Ty_object"

primrec bound_value :: "variant \<Rightarrow> cpp_value" where
  "bound_value V_null = Val_null"
| "bound_value (V_bool b) = Val_bool b"
| "bound_value (V_int i) = Val_int (sint i)"
| "bound_value (V_uint u) = Val_uint (uint u)"
| "bound_value (V_real d) = Val_real d"
| "bound_value (V_string s) = Val_string s"
| "bound_value (V_blob b) = Val_blob b"
| "bound_value (V_array a) = Val_array a"
| "bound_value (V_object ob) = Val_object ob"

fun unbundle_as :: "varray \<Rightarrow> nat \<Rightarrow> (cpp_type \<times> cpp_value) list \<Rightarrow>
    convert_error option \<times> nat \<times> cpp_value list \<times> varray" where
  "unbundle_as array i [] = (None, i, [], array)"
| "unbundle_as array i ((t, x) # ts) =
     (if i < length array then
        (if bound_type (array ! i) \<noteq> t then (Some Access_failed, i, x # map snd ts, array)
         else
           (let (e, n, ys, array') = unbundle_as (array[i := moved_from (array ! i)]) (i + 1) ts
            in (e, n, bound_value (array ! i) # ys, array')))
      else (None, i, x # map snd ts, array))"

definition move_args_to :: "(cpp_type \<times> cpp_value) list \<Rightarrow> wamp_message \<Rightarrow>
    convert_error option \<times> nat \<times> cpp_value list \<times> wamp_message" where
  "move_args_to ts m =
    (let (e, n, xs, array) = unbundle_as (message_args m) 0 ts in (e, n, xs, with_arg_list array m))"

fun unbundle_as_tuple :: "varray \<Rightarrow> nat \<Rightarrow> (cpp_type \<times> cpp_value) list \<Rightarrow> convert_error option \<times> nat \<times> cpp_value list" where
  "unbundle_as_tuple array i [] = (None, i, [])"
| "unbundle_as_tuple array i ((t, x) # ts) =
     (if i < length array then
        (if bound_type (array ! i) \<noteq> t then (Some Access_failed, i, x # map snd ts)
         else
           (let (e, n, ys) = unbundle_as_tuple array (i + 1) ts in (e, n, bound_value (array ! i) # ys)))
      else (None, i, x # map snd ts))"

definition move_args_to_tuple :: "(cpp_type \<times> cpp_value) list \<Rightarrow> wamp_message \<Rightarrow> convert_error option \<times> nat \<times> cpp_value list" where
  "move_args_to_tuple ts m = unbundle_as_tuple (message_args m) 0 ts"

subsection \<open>Unpacked slots\<close>

text \<open>What a default-constructed element of the tuple holds\<close>

fun default_value :: "cpp_type \<Rightarrow> cpp_value" where
  "default_value Ty_null = Val_null"
| "default_value Ty_bool = Val_bool False"
| "default_value (Ty_int n) = Val_int 0"
| "default_value (Ty_uint n) = Val_uint 0"
| "default_value Ty_real = Val_real double_zero"
| "default_value Ty_string = Val_string []"
| "default_value Ty_blob = Val_blob []"
| "default_value Ty_array = Val_array []"
| "default_value Ty_object = Val_object []"
| "default_value (Ty_vector t) = Val_vector []"
| "default_value (Ty_map t) = Val_map []"
| "default_value Ty_variant = Val_variant V_null"
| "default_value (Ty_enum t) = Val_enum (default_value t)"
| "default_value (Ty_tuple ts) = Val_tuple (map default_value ts)"
| "default_value (Ty_fixed n t) = Val_fixed (replicate n (default_value t))"
| "default_value (Ty_optional t) = Val_optional None"
| "default_value (Ty_unordered t) = Val_unordered []"
| "default_value (Ty_struct ms) = Val_struct (map (\<lambda>m. (fst m, default_value (snd m))) ms)"

definition unpack_error :: "string \<Rightarrow> wamp_message" where
  "unpack_error text = with_values [Val_string text] (make_error ''wamp.error.invalid_argument'')"

definition too_few_args :: "nat \<Rightarrow> nat \<Rightarrow> wamp_message" where
  "too_few_args expected n =
    unpack_error (''Expected '' @ decimal expected @ '' args, but only got '' @ decimal n)"

text \<open>The arguments for the slot, or how the wrapper ends without calling it\<close>

definition invoke_args :: "string \<Rightarrow> cpp_type list \<Rightarrow> wamp_message \<Rightarrow> (slot_end + cpp_value list) option" where
  "invoke_args what ts m =
    (case convert_args_to_tuple (map (\<lambda>t. (t, default_value t)) ts) m of
       (None, _, xs) \<Rightarrow> Some (Inr xs)
     | (Some Conversion_error, _, _) \<Rightarrow> Some (Inl (Threw_error (unpack_error what)))
     | (Some Access_failed, _, _) \<Rightarrow> Some (Inl (Threw_bad_type what))
     | (Some Undefined_conversion, _, _) \<Rightarrow> None)"

definition unpack_args :: "string \<Rightarrow> cpp_type list \<Rightarrow> wamp_message \<Rightarrow> (slot_end + cpp_value list) option" where
  "unpack_args what ts m =
    (if length (message_args m) < length ts
     then Some (Inl (Threw_error (too_few_args (length ts) (length (message_args m)))))
     else invoke_args what ts m)"

definition call_with :: "(cpp_value list \<Rightarrow> slot_end) \<Rightarrow> (slot_end + cpp_value list) option \<Rightarrow> slot_end option" where
  "call_with f = map_option (\<lambda>r. case r of Inl e \<Rightarrow> e | Inr xs \<Rightarrow> f xs)"

text \<open>\<open>EventUnpacker\<close>, \<open>SimpleEventUnpacker\<close>, \<open>InvocationUnpacker\<close>\<close>

definition unpacked_event ::
    "string \<Rightarrow> cpp_type list \<Rightarrow> (wamp_message \<Rightarrow> cpp_value list \<Rightarrow> slot_end) \<Rightarrow> wamp_message \<Rightarrow> slot_end option" where
  "unpacked_event what ts slot event = call_with (slot event) (unpack_args what ts event)"

definition simple_event :: "string \<Rightarrow> cpp_type list \<Rightarrow> (cpp_value list \<Rightarrow> slot_end) \<Rightarrow> wamp_message \<Rightarrow> slot_end option" where
  "simple_event what ts slot event = call_with slot (unpack_args what ts event)"

definition unpacked_rpc ::
    "string \<Rightarrow> cpp_type list \<Rightarrow> (wamp_message \<Rightarrow> cpp_value list \<Rightarrow> slot_end) \<Rightarrow> wamp_message \<Rightarrow> slot_end option" where
  "unpacked_rpc what ts slot invocation = call_with (slot invocation) (unpack_args what ts invocation)"

text \<open>\<open>SimpleInvocationUnpacker\<close>: the slot returns a value, or nothing, or throws.\<close>

datatype value_end = Gave "cpp_value option" | Gave_error wamp_message | Gave_bad_type string

definition slot_end_of :: "value_end \<Rightarrow> slot_end" where
  "slot_end_of e =
    (case e of
       Gave None \<Rightarrow> Returned (outcome_of_result (make_result []))
     | Gave (Some x) \<Rightarrow> Returned (outcome_of_result (with_values [x] (make_result [])))
     | Gave_error m \<Rightarrow> Threw_error m
     | Gave_bad_type what \<Rightarrow> Threw_bad_type what)"

definition simple_rpc :: "string \<Rightarrow> cpp_type list \<Rightarrow> (cpp_value list \<Rightarrow> value_end) \<Rightarrow> wamp_message \<Rightarrow> slot_end option" where
  "simple_rpc what ts slot invocation = call_with (\<lambda>xs. slot_end_of (slot xs)) (unpack_args what ts invocation)"

subsection \<open>Slots in coroutines\<close>

text \<open>
  The wrapper checks the number of arguments and spawns a coroutine, which converts them and runs the
  slot.  For an event, what the coroutine ends with is dropped if it is \<open>error::BadType\<close>, and leaves the
  coroutine if it is an \<open>Error\<close>.  For an invocation the wrapper returns a deferment, and the coroutine
  yields to the callee, through a weak pointer: \<open>answers\<close> is what it yields if the client still exists.
\<close>

datatype answer = Answer_result wamp_message | Answer_error wamp_message

definition coro_spawned :: "cpp_type list \<Rightarrow> wamp_message \<Rightarrow> slot_end \<times> bool" where
  "coro_spawned ts m =
    (if length (message_args m) < length ts
     then (Threw_error (too_few_args (length ts) (length (message_args m))), False)
     else (Returned outcome_deferred, True))"

definition coro_convert :: "string \<Rightarrow> cpp_type list \<Rightarrow> wamp_message \<Rightarrow> (slot_end + cpp_value list) option" where
  "coro_convert what ts m =
    (case convert_args_to_tuple (map (\<lambda>t. (t, default_value t)) ts) m of
       (None, _, xs) \<Rightarrow> Some (Inr xs)
     | (Some Undefined_conversion, _, _) \<Rightarrow> None
     | (Some _, _, _) \<Rightarrow> Some (Inl (Threw_bad_type what)))"

definition coro_event_body ::
    "string \<Rightarrow> cpp_type list \<Rightarrow> (wamp_message \<Rightarrow> cpp_value list \<Rightarrow> slot_end) \<Rightarrow> wamp_message \<Rightarrow> wamp_message option option" where
  "coro_event_body what ts slot event =
    map_option (\<lambda>e. case e of Threw_error m \<Rightarrow> Some m | _ \<Rightarrow> None)
      (call_with (slot event) (coro_convert what ts event))"

definition simple_coro_event_body ::
    "string \<Rightarrow> cpp_type list \<Rightarrow> (cpp_value list \<Rightarrow> slot_end) \<Rightarrow> wamp_message \<Rightarrow> wamp_message option option" where
  "simple_coro_event_body what ts slot event =
    map_option (\<lambda>e. case e of Threw_error m \<Rightarrow> Some m | _ \<Rightarrow> None)
      (call_with slot (coro_convert what ts event))"

definition coro_answers :: "slot_end \<Rightarrow> answer list" where
  "coro_answers e =
    (case e of
       Returned oc \<Rightarrow>
         (case oc_type oc of
            Type_deferred \<Rightarrow> []
          | Type_result \<Rightarrow> (case outcome_as_result oc of None \<Rightarrow> [] | Some m \<Rightarrow> [Answer_result m])
          | Type_error \<Rightarrow> (case outcome_as_error oc of None \<Rightarrow> [] | Some m \<Rightarrow> [Answer_error m]))
     | Threw_error m \<Rightarrow> [Answer_error m]
     | Threw_bad_type w \<Rightarrow> [Answer_error (error_of_bad_type w)])"

definition coro_rpc_body ::
    "string \<Rightarrow> cpp_type list \<Rightarrow> (wamp_message \<Rightarrow> cpp_value list \<Rightarrow> slot_end) \<Rightarrow> wamp_message \<Rightarrow> answer list option" where
  "coro_rpc_body what ts slot invocation =
    map_option coro_answers (call_with (slot invocation) (coro_convert what ts invocation))"

definition simple_coro_rpc_body ::
    "string \<Rightarrow> cpp_type list \<Rightarrow> (cpp_value list \<Rightarrow> value_end) \<Rightarrow> wamp_message \<Rightarrow> answer list option" where
  "simple_coro_rpc_body what ts slot invocation =
    map_option (\<lambda>r.
      case r of
        Inl e \<Rightarrow> coro_answers e
      | Inr xs \<Rightarrow>
          (case slot xs of
             Gave None \<Rightarrow> [Answer_result (make_result [])]
           | Gave (Some x) \<Rightarrow> [Answer_result (with_values [x] (make_result []))]
           | Gave_error m \<Rightarrow> [Answer_error m]
           | Gave_bad_type w \<Rightarrow> [Answer_error (error_of_bad_type w)]))
      (coro_convert what ts invocation)"


subsection \<open>What a slot is called with\<close>

lemma unbundle_tuple_same: "unbundle_to_tuple array i ts = unbundle_to array i ts"
  by (induction array i ts rule: unbundle_to.induct) (simp_all split: sum.split)

lemma unbundle_convert:
  "i + length ts \<le> length array \<Longrightarrow>
     (case unbundle_to_tuple array i ts of (e, n, xs) \<Rightarrow>
        convert_tuple (map fst ts) (drop i array) = (case e of None \<Rightarrow> Inr xs | Some e \<Rightarrow> Inl e))"
proof (induction array i ts rule: unbundle_to_tuple.induct)
  case (2 array i t x ts)
  then have i: "i < length array" by simp
  have "drop i array = array ! i # drop (i + 1) array" using i by (simp add: Cons_nth_drop_Suc)
  with 2 i show ?case by (fastforce split: sum.splits prod.splits option.splits)
qed simp

lemma invoke_args_convert:
  assumes "length ts \<le> length (message_args m)"
  shows "invoke_args what ts m =
    (case convert_tuple ts (message_args m) of
       Inr xs \<Rightarrow> Some (Inr xs)
     | Inl Conversion_error \<Rightarrow> Some (Inl (Threw_error (unpack_error what)))
     | Inl Access_failed \<Rightarrow> Some (Inl (Threw_bad_type what))
     | Inl Undefined_conversion \<Rightarrow> None)"
  using unbundle_convert [of 0 "map (\<lambda>t. (t, default_value t)) ts" "message_args m"] assms
  by (auto simp: invoke_args_def convert_args_to_tuple_def comp_def split: prod.splits option.splits)

lemma coro_convert_tuple:
  assumes "length ts \<le> length (message_args m)"
  shows "coro_convert what ts m =
    (case convert_tuple ts (message_args m) of
       Inr xs \<Rightarrow> Some (Inr xs)
     | Inl Undefined_conversion \<Rightarrow> None
     | Inl _ \<Rightarrow> Some (Inl (Threw_bad_type what)))"
  using unbundle_convert [of 0 "map (\<lambda>t. (t, default_value t)) ts" "message_args m"] assms
  by (auto simp: coro_convert_def convert_args_to_tuple_def comp_def split: prod.splits option.splits convert_error.splits)

lemma convert_tuple_append: "convert_tuple ts a = Inr xs \<Longrightarrow> convert_tuple ts (a @ b) = Inr xs"
  by (induction ts arbitrary: a xs) (auto split: list.splits sum.splits)

lemma bundle_args_map: "bundle_args xs array = array @ map from_value xs"
  by (induction xs arbitrary: array) simp_all

lemma message_args_set:
  assumes "well_formed m" and "msg_type m \<in> set payload_types"
  shows "message_args (with_arg_list vs m) = vs"
proof -
  let ?j = "args_position (msg_type m)"
  let ?m = "with_args ?j m"
  have j: "?j < length (msg_fields ?m)" using well_formed_with_args [OF assms] by simp
  have set: "with_arg_list vs m = ?m\<lparr>msg_fields := (msg_fields ?m)[?j := V_array vs]\<rparr>"
    by (simp add: with_arg_list_def set_arg_list_def Let_def)
  then have "with_args ?j (with_arg_list vs m) = with_arg_list vs m" "msg_type (with_arg_list vs m) = msg_type m"
    using j by (simp_all add: with_args_def split: if_splits)
  with set j show ?thesis by (simp add: message_args_def array_field_def vec_at_def)
qed

lemma unpack_error_bad_type: "unpack_error what = error_of_bad_type what"
  by (simp add: unpack_error_def error_of_bad_type_def with_values_def)

lemma convert_tuple_iff:
  "convert_tuple ts a = Inr xs \<longleftrightarrow>
     length ts \<le> length a \<and> list_all2 (\<lambda>(t, v) x. convert_to t v = Inr x) (zip ts a) xs"
proof (induction ts arbitrary: a xs)
  case (Cons t ts)
  show ?case
  proof (cases a)
    case (Cons v vs)
    have "convert_tuple (t # ts) (v # vs) = Inr xs \<longleftrightarrow>
        (\<exists>y ys. xs = y # ys \<and> convert_to t v = Inr y \<and> convert_tuple ts vs = Inr ys)"
      by (auto split: sum.splits)
    with Cons Cons.IH [of vs] show ?thesis by (cases xs) auto
  qed simp
qed auto

lemma typed_convert_tuple:
  assumes "list_all2 (\<lambda>t x. has_type t x \<and> storable t) ts xs"
  shows "convert_tuple ts (map from_value xs) = Inr xs"
  using assms by (induction rule: list_all2_induct) (simp_all add: storable_back(1))

lemma convert_args_to_tuple_ok:
  assumes "convert_tuple (map fst ts) (message_args m) = Inr xs"
  shows "convert_args_to_tuple ts m = (None, length ts, xs)"
proof -
  have n: "unbundle_to_tuple array i us = (None, n, ys) \<Longrightarrow> i + length us \<le> length array \<Longrightarrow> n = i + length us"
    for array i us n ys
    by (induction array i us arbitrary: ys rule: unbundle_to_tuple.induct)
      (auto split: if_splits sum.splits prod.splits)
  have len: "length ts \<le> length (message_args m)" using assms by (simp add: convert_tuple_iff)
  with n [of "message_args m" 0 ts] unbundle_convert [of 0 ts "message_args m"] assms show ?thesis
    by (auto simp: convert_args_to_tuple_def split: prod.splits option.splits)
qed

text \<open>
  A slot with parameters of given types is called exactly when there are enough arguments and each
  converts to the type in its place, and gets these conversions; further arguments are ignored.
\<close>

theorem slot_called_iff:
  "unpack_args what ts m = Some (Inr xs) \<longleftrightarrow>
     length ts \<le> length (message_args m) \<and>
     list_all2 (\<lambda>(t, v) x. convert_to t v = Inr x) (zip ts (message_args m)) xs"
proof (cases "length ts \<le> length (message_args m)")
  case True
  then have "unpack_args what ts m = Some (Inr xs) \<longleftrightarrow> convert_tuple ts (message_args m) = Inr xs"
    by (auto simp: unpack_args_def invoke_args_convert split: sum.splits convert_error.splits)
  with True show ?thesis by (simp add: convert_tuple_iff)
qed (simp add: unpack_args_def)




lemma rejected_end:
  "unpack_args what ts m = Some (Inl e) \<Longrightarrow>
     \<exists>wording. e = Threw_error (error_of_bad_type wording) \<or> e = Threw_bad_type wording"
  by (auto simp: unpack_args_def invoke_args_def too_few_args_def unpack_error_bad_type
      split: if_splits sum.splits option.splits prod.splits convert_error.splits)

lemma slot_end_answered: "\<exists>a. coro_answers (slot_end_of v) = [a]"
  by (simp add: coro_answers_def slot_end_of_def outcome_of_result_def outcome_as_result_def
      split: value_end.split option.split)

lemma simple_rpc_answered:
  "simple_rpc what ts slot m = Some e \<Longrightarrow> \<exists>a. coro_answers e = [a]"
proof -
  assume "simple_rpc what ts slot m = Some e"
  then obtain r where r: "unpack_args what ts m = Some r" "e = (case r of Inl e \<Rightarrow> e | Inr xs \<Rightarrow> slot_end_of (slot xs))"
    by (auto simp: simple_rpc_def call_with_def)
  show ?thesis
  proof (cases r)
    case (Inl e')
    with r rejected_end [of what ts m e'] show ?thesis by (auto simp: coro_answers_def)
  qed (use r slot_end_answered in simp)
qed

text \<open>
  When the slot is not called, the client answers the invocation with the error
  \<open>wamp.error.invalid_argument\<close>, whether there are too few arguments or one is of the wrong type.
\<close>

theorem bad_arguments_answered:
  assumes "unpack_args what ts m = Some (Inl e)"
  shows "\<exists>wording. fst (rpc_slot_ran i e c) = fst (snd (yield_error i (error_of_bad_type wording) c)) \<and>
    coro_answers e = [Answer_error (error_of_bad_type wording)] \<and>
    (\<exists>ys. snd (rpc_slot_ran i e c) = snd (snd (yield_error i (error_of_bad_type wording) c)) @ ys \<and>
      set ys \<subseteq> {Client_threw})"
proof -
  from rejected_end [OF assms]
  obtain wording where "e = Threw_error (error_of_bad_type wording) \<or> e = Threw_bad_type wording" by blast
  then show ?thesis
    by (auto simp: rpc_slot_ran_def coro_answers_def split: prod.splits intro!: exI [of _ wording])
qed

theorem bad_arguments_answered_witness:
  "\<exists>wording. coro_answers (Threw_error (too_few_args 1 0)) = [Answer_error (error_of_bad_type wording)]"
proof -
  have "unpack_args [] [Ty_bool] (make_result []) = Some (Inl (Threw_error (too_few_args 1 0)))"
    by (simp add: unpack_args_def make_result_def with_arg_list_def set_arg_list_def message_args_def array_field_def
        vec_at_def with_args_def args_position_def result_message_def make_message_def lookup_named id_variant_def Let_def)
  from bad_arguments_answered [OF this, of 1 "init_client \<lparr>encode = \<lambda>_. [], decode = \<lambda>_. (no_error, V_null)\<rparr>"] show ?thesis by blast
qed

end
