(* ===== verification/Error_Or.thy ===== *)
theory Error_Or
  imports Errors
begin

section \<open>Values or errors (\<open>erroror.hpp\<close>)\<close>

text \<open>
  \<open>ErrorOr<T>\<close> keeps a value, an error code and a flag.  The default value of \<open>T\<close>, which fills the
  place of the value while there is an error, is a parameter, \<open>d\<close>, as is what moving leaves of a value,
  \<open>hull\<close>.  \<open>None\<close> is a failed assertion.
\<close>

record 'a error_or =
  eo_value :: 'a
  eo_error :: error_code
  eo_has_error :: bool

subsection \<open>Making and assigning\<close>

definition eo_default :: "'a \<Rightarrow> 'a error_or" where
  "eo_default d = \<lparr>eo_value = d, eo_error = no_error, eo_has_error = False\<rparr>"

definition eo_of_value :: "'a \<Rightarrow> 'a error_or" where
  "eo_of_value v = \<lparr>eo_value = v, eo_error = no_error, eo_has_error = False\<rparr>"

definition eo_of_error :: "'a \<Rightarrow> error_code \<Rightarrow> 'a error_or" where
  "eo_of_error d ec = \<lparr>eo_value = d, eo_error = ec, eo_has_error = True\<rparr>"

definition eo_emplace :: "'a \<Rightarrow> 'a error_or \<Rightarrow> 'a error_or" where
  "eo_emplace v x = x\<lparr>eo_value := v, eo_error := no_error, eo_has_error := False\<rparr>"

definition eo_assign_value :: "'a \<Rightarrow> 'a error_or \<Rightarrow> 'a error_or" where
  "eo_assign_value v x = x\<lparr>eo_value := v, eo_error := no_error, eo_has_error := False\<rparr>"

definition eo_assign_error :: "'a \<Rightarrow> error_code \<Rightarrow> 'a error_or \<Rightarrow> 'a error_or" where
  "eo_assign_error d ec x = x\<lparr>eo_error := ec, eo_value := d, eo_has_error := True\<rparr>"

definition eo_swap :: "'a error_or \<Rightarrow> 'a error_or \<Rightarrow> 'a error_or \<times> 'a error_or" where
  "eo_swap x y =
    (x\<lparr>eo_value := eo_value y, eo_error := eo_error y, eo_has_error := eo_has_error y\<rparr>,
     y\<lparr>eo_value := eo_value x, eo_error := eo_error x, eo_has_error := eo_has_error x\<rparr>)"

text \<open>The move constructor is the default one: the flag and the code of the source stay.\<close>

definition eo_move :: "('a \<Rightarrow> 'a) \<Rightarrow> 'a error_or \<Rightarrow> 'a error_or \<times> 'a error_or" where
  "eo_move hull x = (x, x\<lparr>eo_value := hull (eo_value x)\<rparr>)"

subsection \<open>Observing\<close>

definition eo_ok :: "'a error_or \<Rightarrow> bool" where
  "eo_ok x \<longleftrightarrow> \<not> eo_has_error x"

definition eo_deref :: "'a error_or \<Rightarrow> 'a option" where
  "eo_deref x = (if eo_ok x then Some (eo_value x) else None)"

text \<open>\<open>value\<close>: the exception is \<open>error::Failure\<close> with the code.\<close>

definition eo_check :: "'a error_or \<Rightarrow> error_code + unit" where
  "eo_check x = (if eo_has_error x then Inl (eo_error x) else Inr ())"

definition eo_get :: "'a error_or \<Rightarrow> error_code + 'a" where
  "eo_get x = (case eo_check x of Inl ec \<Rightarrow> Inl ec | Inr _ \<Rightarrow> Inr (eo_value x))"

definition eo_error_code :: "'a error_or \<Rightarrow> error_code option" where
  "eo_error_code x = (if \<not> eo_ok x then Some (eo_error x) else None)"

definition eo_legacy_code :: "'a error_or \<Rightarrow> error_code" where
  "eo_legacy_code x = (if eo_has_error x then eo_error x else no_error)"

definition eo_value_or :: "'a \<Rightarrow> 'a error_or \<Rightarrow> 'a" where
  "eo_value_or v x = (if eo_ok x then eo_value x else v)"

text \<open>The comparisons; both operands have passed their assertions where they are read.\<close>

definition eo_eq :: "('a \<Rightarrow> 'b \<Rightarrow> bool) \<Rightarrow> 'a error_or \<Rightarrow> 'b error_or \<Rightarrow> bool" where
  "eo_eq eq x y \<longleftrightarrow>
    (if eo_ok x = eo_ok y then (if eo_ok x then eq (eo_value x) (eo_value y) else eo_error x = eo_error y) else False)"

definition eo_neq :: "('a \<Rightarrow> 'b \<Rightarrow> bool) \<Rightarrow> 'a error_or \<Rightarrow> 'b error_or \<Rightarrow> bool" where
  "eo_neq neq x y \<longleftrightarrow>
    (if eo_ok x = eo_ok y then (if eo_ok x then neq (eo_value x) (eo_value y) else eo_error x \<noteq> eo_error y) else True)"

definition eo_eq_value :: "('a \<Rightarrow> 'b \<Rightarrow> bool) \<Rightarrow> 'a error_or \<Rightarrow> 'b \<Rightarrow> bool" where
  "eo_eq_value eq x v \<longleftrightarrow> (if eo_ok x then eq (eo_value x) v else False)"

definition eo_neq_value :: "('a \<Rightarrow> 'b \<Rightarrow> bool) \<Rightarrow> 'a error_or \<Rightarrow> 'b \<Rightarrow> bool" where
  "eo_neq_value neq x v \<longleftrightarrow> (if eo_ok x then neq (eo_value x) v else True)"

definition eo_eq_error :: "'a error_or \<Rightarrow> error_code \<Rightarrow> bool" where
  "eo_eq_error x ec \<longleftrightarrow> (if eo_ok x then False else eo_error x = ec)"

definition eo_neq_error :: "'a error_or \<Rightarrow> error_code \<Rightarrow> bool" where
  "eo_neq_error x ec \<longleftrightarrow> (if eo_ok x then True else eo_error x \<noteq> ec)"

subsection \<open>As a sum\<close>

text \<open>
  The rest of the library writes \<open>error_code + 'a\<close> for an \<open>ErrorOr\<close>.  The contract of a place for
  such a sum:
\<close>

locale sum_store =
  fixes put_value :: "'a \<Rightarrow> 's \<Rightarrow> 's" and put_error :: "'e \<Rightarrow> 's \<Rightarrow> 's" and get :: "'s \<Rightarrow> 'e + 'a"
  assumes get_value: "get (put_value v s) = Inr v"
    and get_error: "get (put_error e s) = Inl e"
begin

definition put :: "'e + 'a \<Rightarrow> 's \<Rightarrow> 's" where
  "put r s = (case r of Inl e \<Rightarrow> put_error e s | Inr v \<Rightarrow> put_value v s)"

lemma get_put: "get (put r s) = r"
  by (simp add: put_def get_value get_error split: sum.split)

lemma get_last: "rs \<noteq> [] \<Longrightarrow> get (fold put rs s) = last rs"
  by (induction rs rule: rev_induct) (simp_all add: get_put)

end

interpretation assigned: sum_store eo_assign_value "eo_assign_error d" eo_get for d
  by unfold_locales (simp_all add: eo_assign_value_def eo_assign_error_def eo_get_def eo_check_def)

interpretation emplaced: sum_store eo_emplace "eo_assign_error d" eo_get for d
  by unfold_locales (simp_all add: eo_emplace_def eo_assign_error_def eo_get_def eo_check_def)

text \<open>While there is a value there is no code, and while there is an error there is a default value.\<close>

definition eo_tidy :: "'a \<Rightarrow> 'a error_or \<Rightarrow> bool" where
  "eo_tidy d x \<longleftrightarrow> (if eo_has_error x then eo_value x = d else eo_error x = no_error)"

datatype 'a eo_op =
    Eo_value 'a
  | Eo_emplace 'a
  | Eo_error error_code
  | Eo_swap
  | Eo_copy_other
  | Eo_flip

text \<open>
  A program with two \<open>ErrorOr\<close> objects: the operations work on the first, \<open>Eo_copy_other\<close> copies the
  second to it and \<open>Eo_flip\<close> makes the second the first.  \<open>sum_step\<close> does the same with sums.
\<close>

fun eo_step :: "'a \<Rightarrow> 'a eo_op \<Rightarrow> 'a error_or \<times> 'a error_or \<Rightarrow> 'a error_or \<times> 'a error_or" where
  "eo_step d (Eo_value v) (x, y) = (eo_assign_value v x, y)"
| "eo_step d (Eo_emplace v) (x, y) = (eo_emplace v x, y)"
| "eo_step d (Eo_error ec) (x, y) = (eo_assign_error d ec x, y)"
| "eo_step d Eo_swap (x, y) = eo_swap x y"
| "eo_step d Eo_copy_other (x, y) = (y, y)"
| "eo_step d Eo_flip (x, y) = (y, x)"

fun sum_step :: "'a eo_op \<Rightarrow> (error_code + 'a) \<times> (error_code + 'a) \<Rightarrow> (error_code + 'a) \<times> (error_code + 'a)" where
  "sum_step (Eo_value v) (x, y) = (Inr v, y)"
| "sum_step (Eo_emplace v) (x, y) = (Inr v, y)"
| "sum_step (Eo_error ec) (x, y) = (Inl ec, y)"
| "sum_step Eo_swap (x, y) = (y, x)"
| "sum_step Eo_copy_other (x, y) = (y, y)"
| "sum_step Eo_flip (x, y) = (y, x)"

lemma eo_get_simps: "eo_get x = (if eo_has_error x then Inl (eo_error x) else Inr (eo_value x))"
  by (simp add: eo_get_def eo_check_def)

lemma eo_get_swap: "map_prod eo_get eo_get (eo_swap x y) = (eo_get y, eo_get x)"
  by (simp add: eo_swap_def eo_get_simps)

lemma eo_step_get: "map_prod eo_get eo_get (eo_step d z s) = sum_step z (map_prod eo_get eo_get s)"
  by (cases z; cases s)
    (simp_all add: assigned.get_value assigned.get_error emplaced.get_value eo_get_swap)

lemma eo_step_tidy: "pred_prod (eo_tidy d) (eo_tidy d) s \<Longrightarrow> pred_prod (eo_tidy d) (eo_tidy d) (eo_step d z s)"
  by (cases z; cases s)
    (auto simp: eo_tidy_def eo_assign_value_def eo_assign_error_def eo_emplace_def eo_swap_def)

lemma eo_observed:
  "eo_deref x = (case eo_get x of Inl ec \<Rightarrow> None | Inr v \<Rightarrow> Some v)"
  "eo_error_code x = (case eo_get x of Inl ec \<Rightarrow> Some ec | Inr v \<Rightarrow> None)"
  "eo_value_or w x = (case eo_get x of Inl ec \<Rightarrow> w | Inr v \<Rightarrow> v)"
  "eo_eq (=) x y \<longleftrightarrow> eo_get x = eo_get y"
  "eo_neq (\<noteq>) x y \<longleftrightarrow> eo_get x \<noteq> eo_get y"
  "eo_eq_value (=) x v \<longleftrightarrow> eo_get x = Inr v"
  "eo_neq_value (\<noteq>) x v \<longleftrightarrow> eo_get x \<noteq> Inr v"
  "eo_eq_error x ec \<longleftrightarrow> eo_get x = Inl ec"
  "eo_neq_error x ec \<longleftrightarrow> eo_get x \<noteq> Inl ec"
  by (auto simp: eo_get_simps eo_deref_def eo_error_code_def eo_value_or_def eo_eq_def eo_neq_def
      eo_eq_value_def eo_neq_value_def eo_eq_error_def eo_neq_error_def eo_ok_def)

text \<open>
  C33: \<open>ErrorOr\<close> is the sum of its two parts: whatever is assigned, emplaced, swapped and copied, what
  \<open>value()\<close> gives or throws is what the same operations on sums give, the comparison operators
  compare these sums, and no stale value or error code stays behind.
\<close>

theorem error_or_refines_sum:
  "let (x, y) = fold (eo_step d) zs (eo_default d, eo_default d)
   in (eo_get x, eo_get y) = fold sum_step zs (Inr d, Inr d) \<and> eo_tidy d x \<and> eo_tidy d y \<and>
      (eo_eq (=) x y \<longleftrightarrow> eo_get x = eo_get y) \<and> (eo_neq (\<noteq>) x y \<longleftrightarrow> eo_get x \<noteq> eo_get y)"
proof -
  let ?s = "(eo_default d, eo_default d)"
  have "map_prod eo_get eo_get (fold (eo_step d) zs s) = fold sum_step zs (map_prod eo_get eo_get s)" for s
    by (induction zs arbitrary: s) (simp_all add: eo_step_get)
  then have "map_prod eo_get eo_get (fold (eo_step d) zs ?s) = fold sum_step zs (Inr d, Inr d)"
    by (simp add: eo_default_def eo_get_simps)
  moreover have "pred_prod (eo_tidy d) (eo_tidy d) s \<Longrightarrow>
      pred_prod (eo_tidy d) (eo_tidy d) (fold (eo_step d) zs s)" for s
    by (induction zs arbitrary: s) (simp_all add: eo_step_tidy)
  then have "pred_prod (eo_tidy d) (eo_tidy d) (fold (eo_step d) zs ?s)"
    by (simp add: eo_tidy_def eo_default_def)
  ultimately show ?thesis
    by (auto simp: eo_observed split: prod.split)
qed

end
