(* ===== verification/Endpoint.thy ===== *)
theory Endpoint
  imports Rawsock_Connect
begin

section \<open>Endpoints: settings, openers and acceptors (\<open>tcphost.hpp\<close>, \<open>internal/tcpopener.hpp\<close> and others)\<close>

text \<open>
  The settings of TCP and Unix domain sockets, the openers and acceptors that get a socket from Asio,
  and a connector with its opener.  Asynchronous operations are effects, their completions events;
  \<open>Opened\<close> is the call of the callback given to \<open>establish\<close>.  Opening a socket, setting an option of it
  and binding an acceptor may throw \<open>boost::system::system_error\<close>: whether they do is a parameter.
\<close>

subsection \<open>Socket options\<close>

datatype socket_option =
    Broadcast bool
  | Debug bool
  | Do_not_route bool
  | Keep_alive bool
  | Linger bool int
  | Out_of_band_inline bool
  | Receive_buffer_size int
  | Receive_low_watermark int
  | Reuse_address bool
  | Send_buffer_size int
  | Send_low_watermark int
  | Unicast_hops int
  | Ip_v6_only bool
  | No_delay bool

type_synonym socket_options = "socket_option list"

definition add_option :: "socket_option \<Rightarrow> socket_options \<Rightarrow> socket_options" where
  "add_option x opts = opts @ [x]"

text \<open>\<open>TcpOptions\<close> has all options, \<open>UdsOptions\<close> those of every socket.\<close>

definition tcp_option_set :: "socket_option \<Rightarrow> socket_options \<Rightarrow> socket_options" where
  "tcp_option_set x opts = add_option x opts"

fun is_ip_option :: "socket_option \<Rightarrow> bool" where
  "is_ip_option (Unicast_hops n) \<longleftrightarrow> True"
| "is_ip_option (Ip_v6_only b) \<longleftrightarrow> True"
| "is_ip_option (No_delay b) \<longleftrightarrow> True"
| "is_ip_option _ \<longleftrightarrow> False"

definition uds_option_set :: "socket_option \<Rightarrow> socket_options \<Rightarrow> socket_options" where
  "uds_option_set x opts = (if is_ip_option x then opts else add_option x opts)"

subsection \<open>Settings\<close>

record tcp_host =
  th_host_name :: string
  th_service_name :: string
  th_options :: socket_options
  th_max_rx_length :: rawsock_max_length

definition make_tcp_host :: "string \<Rightarrow> string \<Rightarrow> socket_options \<Rightarrow> rawsock_max_length \<Rightarrow> tcp_host" where
  "make_tcp_host name service opts len =
    \<lparr>th_host_name = name, th_service_name = service, th_options = opts, th_max_rx_length = len\<rparr>"

definition make_tcp_host_port :: "string \<Rightarrow> 16 word \<Rightarrow> socket_options \<Rightarrow> rawsock_max_length \<Rightarrow> tcp_host" where
  "make_tcp_host_port name port opts len =
    \<lparr>th_host_name = name, th_service_name = decimal (unat port), th_options = opts, th_max_rx_length = len\<rparr>"

definition tcp_host_with_options :: "socket_options \<Rightarrow> tcp_host \<Rightarrow> tcp_host" where
  "tcp_host_with_options opts h = h\<lparr>th_options := opts\<rparr>"

definition tcp_host_with_max_rx_length :: "rawsock_max_length \<Rightarrow> tcp_host \<Rightarrow> tcp_host" where
  "tcp_host_with_max_rx_length len h = h\<lparr>th_max_rx_length := len\<rparr>"

text \<open>The deprecated setters of single options\<close>

definition tcp_host_set :: "socket_option \<Rightarrow> tcp_host \<Rightarrow> tcp_host" where
  "tcp_host_set x h = h\<lparr>th_options := tcp_option_set x (th_options h)\<rparr>"

record tcp_endpoint =
  te_address :: string
  te_port :: "16 word"
  te_options :: socket_options
  te_max_rx_length :: rawsock_max_length

definition make_tcp_endpoint_port :: "16 word \<Rightarrow> socket_options \<Rightarrow> rawsock_max_length \<Rightarrow> tcp_endpoint" where
  "make_tcp_endpoint_port port opts len =
    \<lparr>te_address = [], te_port = port, te_options = opts, te_max_rx_length = len\<rparr>"

definition make_tcp_endpoint :: "string \<Rightarrow> 16 word \<Rightarrow> socket_options \<Rightarrow> rawsock_max_length \<Rightarrow> tcp_endpoint" where
  "make_tcp_endpoint address port opts len =
    \<lparr>te_address = address, te_port = port, te_options = opts, te_max_rx_length = len\<rparr>"

definition tcp_endpoint_with_options :: "socket_options \<Rightarrow> tcp_endpoint \<Rightarrow> tcp_endpoint" where
  "tcp_endpoint_with_options opts e = e\<lparr>te_options := opts\<rparr>"

definition tcp_endpoint_with_max_rx_length :: "rawsock_max_length \<Rightarrow> tcp_endpoint \<Rightarrow> tcp_endpoint" where
  "tcp_endpoint_with_max_rx_length len e = e\<lparr>te_max_rx_length := len\<rparr>"

record uds_path =
  up_path_name :: string
  up_options :: socket_options
  up_max_rx_length :: rawsock_max_length
  up_delete_path :: bool

definition make_uds_path :: "string \<Rightarrow> socket_options \<Rightarrow> rawsock_max_length \<Rightarrow> bool \<Rightarrow> uds_path" where
  "make_uds_path path opts len delete =
    \<lparr>up_path_name = path, up_options = opts, up_max_rx_length = len, up_delete_path = delete\<rparr>"

definition uds_path_with_options :: "socket_options \<Rightarrow> uds_path \<Rightarrow> uds_path" where
  "uds_path_with_options opts u = u\<lparr>up_options := opts\<rparr>"

definition uds_path_with_max_rx_length :: "rawsock_max_length \<Rightarrow> uds_path \<Rightarrow> uds_path" where
  "uds_path_with_max_rx_length len u = u\<lparr>up_max_rx_length := len\<rparr>"

definition uds_path_set :: "socket_option \<Rightarrow> uds_path \<Rightarrow> uds_path" where
  "uds_path_set x u = u\<lparr>up_options := uds_option_set x (up_options u)\<rparr>"

subsection \<open>Openers\<close>

datatype opener_effect =
    Resolve_host string string
  | Cancel_resolver
  | Open_socket
  | Set_socket_option socket_option
  | Connect_resolved
  | Connect_path string
  | Bind_any "16 word"
  | Bind_address string "16 word"
  | Remove_file string
  | Bind_path string
  | Accept_socket
  | Cancel_acceptor
  | Close_socket
  | Opened "error_code + unit"
  | Already_in_progress
  | Opener_threw

record system =
  sys_opens :: bool
  sys_accepts :: "socket_option \<Rightarrow> bool"
  sys_binds :: bool

text \<open>\<open>SocketOptionList::applyTo\<close>; \<open>False\<close> when \<open>set_option\<close> has thrown\<close>

fun apply_options :: "system \<Rightarrow> socket_options \<Rightarrow> opener_effect list \<times> bool" where
  "apply_options y [] = ([], True)"
| "apply_options y (x # xs) =
     (if sys_accepts y x then (let (out, ok) = apply_options y xs in (Set_socket_option x # out, ok))
      else ([Set_socket_option x], False))"

definition opener_check :: "int \<Rightarrow> opener_effect list \<times> bool" where
  "opener_check ec = (if ec \<noteq> 0 then ([Opened (Inl (errc_of_asio ec))], False) else ([], True))"

text \<open>What is outstanding, and whether \<open>socket_\<close> is set\<close>

datatype opener_op = Op_idle | Op_resolving | Op_connecting

record opener =
  op_pending :: opener_op
  op_socket :: bool

definition new_opener :: opener where
  "new_opener = \<lparr>op_pending = Op_idle, op_socket = False\<rparr>"

definition tcp_open :: "tcp_host \<Rightarrow> opener \<Rightarrow> opener \<times> opener_effect list" where
  "tcp_open h p = (p\<lparr>op_pending := Op_resolving\<rparr>, [Resolve_host (th_host_name h) (th_service_name h)])"

definition tcp_cancel :: "opener \<Rightarrow> opener \<times> opener_effect list" where
  "tcp_cancel p = (p, Cancel_resolver # (if op_socket p then [Close_socket] else []))"

text \<open>A new socket, opened and with its options set, and then the connection started\<close>

definition start_connecting ::
    "system \<Rightarrow> socket_options \<Rightarrow> opener_effect \<Rightarrow> opener \<Rightarrow> opener \<times> opener_effect list" where
  "start_connecting y opts request p =
    (let busy = (if op_socket p then [Already_in_progress] else []);
         p1 = p\<lparr>op_socket := True\<rparr>
     in if \<not> sys_opens y then (p1, busy @ [Open_socket, Opener_threw])
        else
          (let (out, ok) = apply_options y opts
           in if ok then (p1\<lparr>op_pending := Op_connecting\<rparr>, busy @ [Open_socket] @ out @ [request])
              else (p1, busy @ [Open_socket] @ out @ [Opener_threw])))"

definition tcp_connect :: "system \<Rightarrow> tcp_host \<Rightarrow> opener \<Rightarrow> opener \<times> opener_effect list" where
  "tcp_connect y h p = start_connecting y (th_options h) Connect_resolved p"

definition on_connected :: "int \<Rightarrow> opener \<Rightarrow> opener \<times> opener_effect list" where
  "on_connected ec p =
    (let (out, ok) = opener_check ec
     in (p\<lparr>op_pending := Op_idle, op_socket := False\<rparr>, out @ (if ok then [Opened (Inr ())] else [])))"

definition tcp_done :: "system \<Rightarrow> tcp_host \<Rightarrow> int \<Rightarrow> opener \<Rightarrow> opener \<times> opener_effect list" where
  "tcp_done y h ec p =
    (case op_pending p of
       Op_idle \<Rightarrow> (p, [])
     | Op_resolving \<Rightarrow>
         (let (out, ok) = opener_check ec;
              p1 = p\<lparr>op_pending := Op_idle\<rparr>
          in if ok then (let (p2, out2) = tcp_connect y h p1 in (p2, out @ out2)) else (p1, out))
     | Op_connecting \<Rightarrow> on_connected ec p)"

definition uds_open :: "system \<Rightarrow> uds_path \<Rightarrow> opener \<Rightarrow> opener \<times> opener_effect list" where
  "uds_open y u p = start_connecting y (up_options u) (Connect_path (up_path_name u)) p"

definition uds_cancel :: "opener \<Rightarrow> opener \<times> opener_effect list" where
  "uds_cancel p = (p, if op_socket p then [Close_socket] else [])"

definition uds_done :: "int \<Rightarrow> opener \<Rightarrow> opener \<times> opener_effect list" where
  "uds_done ec p = (case op_pending p of Op_connecting \<Rightarrow> on_connected ec p | _ \<Rightarrow> (p, []))"

subsection \<open>Acceptors\<close>

text \<open>\<open>ac_bound\<close> tells whether there is an acceptor.\<close>

record acceptor =
  ac_pending :: bool
  ac_socket :: bool
  ac_bound :: bool

definition tcp_local_endpoint :: "tcp_endpoint \<Rightarrow> opener_effect" where
  "tcp_local_endpoint e =
    (if te_address e \<noteq> [] then Bind_address (te_address e) (te_port e) else Bind_any (te_port e))"

definition tcp_acceptor :: "system \<Rightarrow> tcp_endpoint \<Rightarrow> acceptor \<times> opener_effect list" where
  "tcp_acceptor y e =
    (\<lparr>ac_pending = False, ac_socket = False, ac_bound = sys_binds y\<rparr>,
     tcp_local_endpoint e # (if sys_binds y then [] else [Opener_threw]))"

definition start_accepting :: "acceptor \<Rightarrow> acceptor \<times> opener_effect list" where
  "start_accepting a = (a\<lparr>ac_socket := True, ac_pending := True\<rparr>, [Accept_socket])"

definition tcp_accept :: "acceptor \<Rightarrow> acceptor \<times> opener_effect list" where
  "tcp_accept a =
    (let (a1, out) = start_accepting a
     in (a1, (if ac_socket a then [Already_in_progress] else []) @ out))"

definition tcp_accept_cancel :: "acceptor \<Rightarrow> acceptor \<times> opener_effect list" where
  "tcp_accept_cancel a = (a, [Cancel_acceptor])"

definition accept_done :: "int \<Rightarrow> acceptor \<Rightarrow> acceptor \<times> opener_effect list" where
  "accept_done ec a =
    (if ac_pending a then
       (let (out, ok) = opener_check ec
        in (a\<lparr>ac_pending := False, ac_socket := False\<rparr>, out @ (if ok then [Opened (Inr ())] else [])))
     else (a, []))"

definition uds_accept :: "system \<Rightarrow> uds_path \<Rightarrow> acceptor \<Rightarrow> acceptor \<times> opener_effect list" where
  "uds_accept y u a =
    (let busy = (if ac_socket a then [Already_in_progress] else []);
         remove = (if up_delete_path u then [Remove_file (up_path_name u)] else [])
     in if ac_bound a then (let (a1, out) = start_accepting a in (a1, busy @ out))
        else if \<not> sys_binds y then (a, busy @ remove @ [Bind_path (up_path_name u), Opener_threw])
        else (let (a1, out) = start_accepting (a\<lparr>ac_bound := True\<rparr>)
              in (a1, busy @ remove @ [Bind_path (up_path_name u)] @ out)))"

definition uds_accept_cancel :: "acceptor \<Rightarrow> acceptor \<times> opener_effect list" where
  "uds_accept_cancel a = (a, if ac_bound a then [Cancel_acceptor] else [])"

subsection \<open>The contract of openers and acceptors\<close>

fun opened :: "opener_effect list \<Rightarrow> (error_code + unit) list" where
  "opened [] = []"
| "opened (Opened r # xs) = r # opened xs"
| "opened (_ # xs) = opened xs"

lemma opened_append [simp]: "opened (xs @ ys) = opened xs @ opened ys"
  by (induction xs rule: opened.induct) simp_all

text \<open>Completions, with cancellations between them: \<open>None\<close> is a call of \<open>cancel\<close>.\<close>

fun run_script :: "('p \<Rightarrow> 'p \<times> 'e list) \<Rightarrow> ('x \<Rightarrow> 'p \<Rightarrow> 'p \<times> 'e list) \<Rightarrow> 'x option list \<Rightarrow> 'p \<Rightarrow> 'p \<times> 'e list" where
  "run_script cancel complete [] p = (p, [])"
| "run_script cancel complete (x # xs) p =
     (let (p1, out1) = (case x of None \<Rightarrow> cancel p | Some y \<Rightarrow> complete y p);
          (p2, out2) = run_script cancel complete xs p1
      in (p2, out1 @ out2))"

text \<open>
  The contract of what is asked to establish something and calls back: while it is \<open>busy\<close>, \<open>left\<close> is the
  number of completions after which the callback is called at the latest, whether it is cancelled or
  not; then it is \<open>idle\<close> again.  \<open>calls\<close> picks the calls out of the effects.
\<close>

locale calls_back =
  fixes establish :: "'p \<Rightarrow> 'p \<times> 'e list"
    and cancel :: "'p \<Rightarrow> 'p \<times> 'e list"
    and complete :: "'x \<Rightarrow> 'p \<Rightarrow> 'p \<times> 'e list"
    and idle :: "'p \<Rightarrow> bool"
    and busy :: "'p \<Rightarrow> bool"
    and left :: "'p \<Rightarrow> nat"
    and most :: nat
    and calls :: "'e list \<Rightarrow> 'c list"
    and answer :: "'c \<Rightarrow> bool"
  assumes calls_Nil: "calls [] = []"
    and calls_append: "calls (xs @ ys) = calls xs @ calls ys"
    and left: "busy p \<Longrightarrow> 0 < left p"
    and establish: "idle p \<Longrightarrow>
      busy (fst (establish p)) \<and> left (fst (establish p)) \<le> most \<and> calls (snd (establish p)) = []"
    and cancel_busy: "busy p \<Longrightarrow>
      busy (fst (cancel p)) \<and> left (fst (cancel p)) = left p \<and> calls (snd (cancel p)) = []"
    and cancel_idle: "idle p \<Longrightarrow> idle (fst (cancel p)) \<and> calls (snd (cancel p)) = []"
    and complete_busy: "busy p \<Longrightarrow>
      (busy (fst (complete x p)) \<and> left (fst (complete x p)) < left p \<and> calls (snd (complete x p)) = []) \<or>
      (idle (fst (complete x p)) \<and> (\<exists>r. answer r \<and> calls (snd (complete x p)) = [r]))"
    and complete_idle: "idle p \<Longrightarrow> complete x p = (p, [])"
begin

lemma script_idle: "idle p \<Longrightarrow> idle (fst (run_script cancel complete xs p)) \<and> calls (snd (run_script cancel complete xs p)) = []"
proof (induction xs arbitrary: p)
  case (Cons x xs)
  have "idle (fst (case x of None \<Rightarrow> cancel p | Some y \<Rightarrow> complete y p)) \<and>
      calls (snd (case x of None \<Rightarrow> cancel p | Some y \<Rightarrow> complete y p)) = []"
    using Cons.prems cancel_idle complete_idle calls_Nil by (cases x) simp_all
  with Cons.IH show ?case by (simp add: case_prod_beta Let_def calls_append)
qed (simp add: calls_Nil)

lemma script_busy:
  "busy p \<Longrightarrow> left p \<le> length (filter (\<lambda>x. x \<noteq> None) xs) \<Longrightarrow>
     idle (fst (run_script cancel complete xs p)) \<and> (\<exists>r. answer r \<and> calls (snd (run_script cancel complete xs p)) = [r])"
proof (induction xs arbitrary: p)
  case Nil
  then show ?case using left [of p] by simp
next
  case (Cons x xs)
  show ?case
  proof (cases x)
    case None
    with Cons cancel_busy [OF Cons.prems(1)] show ?thesis by (simp add: case_prod_beta Let_def calls_append)
  next
    case (Some y)
    from complete_busy [OF Cons.prems(1), of y] show ?thesis
    proof
      assume "busy (fst (complete y p)) \<and> left (fst (complete y p)) < left p \<and> calls (snd (complete y p)) = []"
      with Some Cons show ?thesis by (simp add: case_prod_beta Let_def calls_append)
    next
      assume "idle (fst (complete y p)) \<and> (\<exists>r. answer r \<and> calls (snd (complete y p)) = [r])"
      with Some script_idle [of "fst (complete y p)" xs] show ?thesis
        by (simp add: case_prod_beta Let_def calls_append)
    qed
  qed
qed

lemma established_calls_back:
  assumes "idle p" and "most \<le> length (filter (\<lambda>x. x \<noteq> None) xs)"
  shows "idle (fst (run_script cancel complete xs (fst (establish p)))) \<and>
    (\<exists>r. answer r \<and> calls (snd (establish p) @ snd (run_script cancel complete xs (fst (establish p)))) = [r])"
  using script_busy [of "fst (establish p)" xs] establish [OF assms(1)] assms(2)
  by (auto simp: calls_append)

end

text \<open>A system that opens sockets, takes every option and binds every address\<close>

definition obliging :: system where
  "obliging = \<lparr>sys_opens = True, sys_accepts = (\<lambda>_. True), sys_binds = True\<rparr>"

lemma obliging_options: "apply_options obliging xs = (map Set_socket_option xs, True)"
  by (induction xs) (simp_all add: obliging_def)

lemma obliging_opens [simp]: "sys_opens obliging" "sys_binds obliging"
  by (simp_all add: obliging_def)

lemma opened_options [simp]: "opened (map Set_socket_option xs) = []"
  by (induction xs) simp_all

definition opener_idle :: "opener \<Rightarrow> bool" where
  "opener_idle p \<longleftrightarrow> op_pending p = Op_idle \<and> \<not> op_socket p"

definition opener_busy :: "opener \<Rightarrow> bool" where
  "opener_busy p \<longleftrightarrow> op_pending p = Op_resolving \<and> \<not> op_socket p \<or> op_pending p = Op_connecting"

definition opener_left :: "opener \<Rightarrow> nat" where
  "opener_left p = (case op_pending p of Op_idle \<Rightarrow> 0 | Op_resolving \<Rightarrow> 2 | Op_connecting \<Rightarrow> 1)"

definition uds_busy :: "opener \<Rightarrow> bool" where
  "uds_busy p \<longleftrightarrow> op_pending p = Op_connecting"

lemmas opener_defs = opener_left_def opener_idle_def opener_busy_def uds_busy_def start_connecting_def
  on_connected_def opener_check_def tcp_open_def tcp_cancel_def tcp_connect_def tcp_done_def uds_open_def
  uds_cancel_def uds_done_def

interpretation tcp: calls_back "tcp_open h" tcp_cancel "tcp_done obliging h" opener_idle opener_busy opener_left 2
    opened "\<lambda>_. True" for h
  by unfold_locales (auto simp: opener_defs Let_def obliging_options split: opener_op.splits)

interpretation uds: calls_back "uds_open obliging u" uds_cancel uds_done opener_idle uds_busy opener_left 1
    opened "\<lambda>_. True" for u
  by unfold_locales (auto simp: opener_defs Let_def obliging_options split: opener_op.splits)

definition acceptor_idle :: "acceptor \<Rightarrow> bool" where
  "acceptor_idle a \<longleftrightarrow> \<not> ac_pending a \<and> \<not> ac_socket a"

definition acceptor_left :: "acceptor \<Rightarrow> nat" where
  "acceptor_left a = (if ac_pending a then 1 else 0)"

lemmas acceptor_defs = acceptor_left_def acceptor_idle_def start_accepting_def accept_done_def opener_check_def
  tcp_accept_def tcp_accept_cancel_def uds_accept_def uds_accept_cancel_def

interpretation tcp_acceptor: calls_back tcp_accept tcp_accept_cancel accept_done acceptor_idle ac_pending acceptor_left 1
    opened "\<lambda>_. True"
  by unfold_locales (auto simp: acceptor_defs Let_def)

interpretation uds_acceptor: calls_back "uds_accept obliging u" uds_accept_cancel accept_done acceptor_idle ac_pending
    acceptor_left 1 opened "\<lambda>_. True" for u
  by unfold_locales (auto simp: acceptor_defs Let_def)

subsection \<open>A connector with its opener\<close>

text \<open>
  \<open>Connector<Tcp>\<close> and \<open>Connector<Uds>\<close> are a \<open>RawsockConnector\<close> that owns an opener: it calls the opener's
  \<open>establish\<close> and \<open>cancel\<close>, and the opener calls it back.
\<close>

record ('p, 'h) dialing =
  dl_opener :: 'p
  dl_connector :: "'h connector"

datatype 'h dial_effect = Of_opener opener_effect | Of_connector "'h connect_effect"

fun tell_opener :: "('p \<Rightarrow> 'p \<times> opener_effect list) \<Rightarrow> ('p \<Rightarrow> 'p \<times> opener_effect list) \<Rightarrow>
    'h connect_effect list \<Rightarrow> 'p \<Rightarrow> 'p \<times> 'h dial_effect list" where
  "tell_opener establish cancel [] p = (p, [])"
| "tell_opener establish cancel (x # xs) p =
     (let (p1, out1) =
            (case x of
               Begin_opening \<Rightarrow> map_prod id (map Of_opener) (establish p)
             | Cancel_opening \<Rightarrow> map_prod id (map Of_opener) (cancel p)
             | _ \<Rightarrow> (p, [Of_connector x]));
          (p2, out2) = tell_opener establish cancel xs p1
      in (p2, out1 @ out2))"

fun tell_connector :: "opener_effect list \<Rightarrow> 'h connector \<Rightarrow> 'h connector \<times> 'h dial_effect list" where
  "tell_connector [] c = (c, [])"
| "tell_connector (x # xs) c =
     (let (c1, out1) =
            (case x of
               Opened r \<Rightarrow> map_prod id (map Of_connector) (connector_step c (Open_done r))
             | _ \<Rightarrow> (c, [Of_opener x]));
          (c2, out2) = tell_connector xs c1
      in (c2, out1 @ out2))"

definition dial_event :: "('p \<Rightarrow> 'p \<times> opener_effect list) \<Rightarrow> ('p \<Rightarrow> 'p \<times> opener_effect list) \<Rightarrow>
    'h connect_event \<Rightarrow> ('p, 'h) dialing \<Rightarrow> ('p, 'h) dialing \<times> 'h dial_effect list" where
  "dial_event establish cancel e d =
    (let (c, xs) = connector_step (dl_connector d) e;
         (p, out) = tell_opener establish cancel xs (dl_opener d)
     in (d\<lparr>dl_connector := c, dl_opener := p\<rparr>, out))"

definition dial_opener_done :: "(int \<Rightarrow> 'p \<Rightarrow> 'p \<times> opener_effect list) \<Rightarrow>
    int \<Rightarrow> ('p, 'h) dialing \<Rightarrow> ('p, 'h) dialing \<times> 'h dial_effect list" where
  "dial_opener_done complete ec d =
    (let (p, xs) = complete ec (dl_opener d);
         (c, out) = tell_connector xs (dl_connector d)
     in (d\<lparr>dl_connector := c, dl_opener := p\<rparr>, out))"

text \<open>The completion of what the connector waits for: an error code, and the bytes if it reads\<close>

definition dial_complete :: "('p \<Rightarrow> 'p \<times> opener_effect list) \<Rightarrow> ('p \<Rightarrow> 'p \<times> opener_effect list) \<Rightarrow>
    (int \<Rightarrow> 'p \<Rightarrow> 'p \<times> opener_effect list) \<Rightarrow> int \<times> bytes \<Rightarrow>
    ('p, 'h) dialing \<Rightarrow> ('p, 'h) dialing \<times> 'h dial_effect list" where
  "dial_complete establish cancel complete x d =
    (case cn_op (dl_connector d) of
       Cn_idle \<Rightarrow> (d, [])
     | Cn_opening \<Rightarrow> dial_opener_done complete (fst x) d
     | Cn_writing \<Rightarrow> dial_event establish cancel (Handshake_written (fst x)) d
     | Cn_reading \<Rightarrow> dial_event establish cancel (Handshake_read (fst x) (snd x)) d)"

fun called :: "'h dial_effect list \<Rightarrow> 'h list" where
  "called [] = []"
| "called (Of_connector (Call_handler h r) # xs) = h # called xs"
| "called (_ # xs) = called xs"

lemma called_append [simp]: "called (xs @ ys) = called xs @ called ys"
  by (induction xs rule: called.induct) simp_all

lemma called_opener [simp]: "called (map Of_opener xs) = []"
  by (induction xs) simp_all

lemma tell_connector_opened:
  "opened xs = [] \<Longrightarrow> fst (tell_connector xs c) = c \<and> called (snd (tell_connector xs c)) = []"
  "opened xs = [r] \<Longrightarrow> fst (tell_connector xs c) = fst (connector_step c (Open_done r)) \<and>
     called (snd (tell_connector xs c)) = called (map Of_connector (snd (connector_step c (Open_done r))))"
proof -
  have no: "opened xs = [] \<Longrightarrow> fst (tell_connector xs c) = c \<and> called (snd (tell_connector xs c)) = []" for xs c
    by (induction xs rule: opened.induct) (simp_all add: case_prod_beta Let_def)
  show "opened xs = [] \<Longrightarrow> fst (tell_connector xs c) = c \<and> called (snd (tell_connector xs c)) = []" by (rule no)
  show "opened xs = [r] \<Longrightarrow> fst (tell_connector xs c) = fst (connector_step c (Open_done r)) \<and>
     called (snd (tell_connector xs c)) = called (map Of_connector (snd (connector_step c (Open_done r))))"
    by (induction xs arbitrary: c rule: opened.induct) (simp_all add: no case_prod_beta Let_def)
qed

locale dialing = opener: calls_back establish cancel complete idle busy left most opened "\<lambda>_. True"
  for establish :: "'p \<Rightarrow> 'p \<times> opener_effect list" and cancel :: "'p \<Rightarrow> 'p \<times> opener_effect list"
    and complete :: "int \<Rightarrow> 'p \<Rightarrow> 'p \<times> opener_effect list"
    and idle :: "'p \<Rightarrow> bool" and busy :: "'p \<Rightarrow> bool" and left :: "'p \<Rightarrow> nat" and most :: nat
begin

definition dial_idle :: "('p, 'h) dialing \<Rightarrow> bool" where
  "dial_idle d \<longleftrightarrow> idle (dl_opener d) \<and> cn_op (dl_connector d) = Cn_idle \<and> cn_handler (dl_connector d) = None"

definition dial_busy :: "'h \<Rightarrow> ('p, 'h) dialing \<Rightarrow> bool" where
  "dial_busy h d \<longleftrightarrow> cn_handler (dl_connector d) = Some h \<and>
    (case cn_op (dl_connector d) of
       Cn_idle \<Rightarrow> False
     | Cn_opening \<Rightarrow> busy (dl_opener d)
     | _ \<Rightarrow> idle (dl_opener d))"

definition dial_left :: "('p, 'h) dialing \<Rightarrow> nat" where
  "dial_left d =
    (case cn_op (dl_connector d) of
       Cn_idle \<Rightarrow> 0
     | Cn_opening \<Rightarrow> left (dl_opener d) + 2
     | Cn_writing \<Rightarrow> 2
     | Cn_reading \<Rightarrow> 1)"

lemmas dial_defs = dial_idle_def dial_busy_def dial_left_def dial_event_def dial_opener_done_def dial_complete_def
  connector_establish_def connector_cancel_def connector_on_open_def connector_dispatch_def dispatch_call_def
  connector_send_handshake_def connector_receive_handshake_def connector_check_def

lemma tell_opener_others:
  "list_all (\<lambda>x. x \<noteq> Begin_opening \<and> x \<noteq> Cancel_opening) xs \<Longrightarrow>
     tell_opener establish cancel xs p = (p, map Of_connector xs)"
proof (induction xs arbitrary: p)
  case (Cons x xs)
  then show ?case by (cases x) simp_all
qed simp

lemma tell_opener_one:
  "tell_opener establish cancel [Begin_opening] p = map_prod id (map Of_opener) (establish p)"
  "tell_opener establish cancel [Cancel_opening] p = map_prod id (map Of_opener) (cancel p)"
  by (simp_all add: case_prod_beta Let_def map_prod_def)

lemma handshake_dispatches:
  "\<exists>arg. connector_on_handshake w c = connector_dispatch arg (c\<lparr>cn_socket := False\<rparr>)"
  by (simp add: connector_on_handshake_def connector_fail_def connector_complete_def Let_def) blast

lemma establish_dials:
  assumes "dial_idle d"
  shows "dial_busy h (fst (dial_event establish cancel (Establish h) d)) \<and>
    dial_left (fst (dial_event establish cancel (Establish h) d)) \<le> most + 2 \<and>
    called (snd (dial_event establish cancel (Establish h) d)) = []"
  using assms opener.establish [of "dl_opener d"]
  by (simp add: dial_defs tell_opener_one case_prod_beta Let_def)

lemma cancel_dials:
  "called (snd (dial_event establish cancel Cancel d)) = []"
  "dial_left (fst (dial_event establish cancel Cancel d)) = dial_left d \<or> \<not> dial_busy h d"
  "dial_busy h d \<Longrightarrow> dial_busy h (fst (dial_event establish cancel Cancel d))"
  "dial_idle d \<Longrightarrow> dial_idle (fst (dial_event establish cancel Cancel d))"
  using opener.cancel_busy [of "dl_opener d"] opener.cancel_idle [of "dl_opener d"]
  by (auto simp: dial_defs tell_opener_one case_prod_beta Let_def split: connector_op.splits)

lemma complete_dials:
  fixes d :: "('p, 'h) dialing" and x :: "int \<times> bytes"
  assumes "dial_busy h d"
  defines "r \<equiv> dial_complete establish cancel complete x d"
  shows "(dial_busy h (fst r) \<and> dial_left (fst r) < dial_left d \<and> called (snd r) = []) \<or>
    (dial_idle (fst r) \<and> called (snd r) = [h])"
proof (cases "cn_op (dl_connector d)")
  case Cn_opening
  let ?c = "dl_connector d" and ?p = "complete (fst x) (dl_opener d)"
  have r: "r = (d\<lparr>dl_connector := fst (tell_connector (snd ?p) ?c), dl_opener := fst ?p\<rparr>, snd (tell_connector (snd ?p) ?c))"
    using Cn_opening by (simp add: r_def dial_complete_def dial_opener_done_def case_prod_beta Let_def)
  have b: "busy (dl_opener d)" "cn_handler ?c = Some h" using assms(1) Cn_opening by (simp_all add: dial_busy_def)
  from opener.complete_busy [OF b(1), of "fst x"] show ?thesis
  proof
    assume "busy (fst ?p) \<and> left (fst ?p) < left (dl_opener d) \<and> opened (snd ?p) = []"
    with tell_connector_opened(1) [of "snd ?p" ?c] b Cn_opening show ?thesis
      by (simp add: r dial_busy_def dial_left_def)
  next
    assume "idle (fst ?p) \<and> (\<exists>res. True \<and> opened (snd ?p) = [res])"
    then obtain res where res: "idle (fst ?p)" "opened (snd ?p) = [res]" by blast
    from tell_connector_opened(2) [OF res(2), of ?c] res(1) b Cn_opening opener.left [OF b(1)] show ?thesis
      by (cases res) (simp_all add: r dial_busy_def dial_idle_def dial_left_def connector_on_open_def
          connector_dispatch_def dispatch_call_def connector_send_handshake_def Let_def)
  qed
next
  case Cn_writing
  with assms(1) show ?thesis
    by (simp add: r_def dial_defs case_prod_beta Let_def)
next
  case Cn_reading
  let ?k = "dl_connector d"
  let ?c = "?k\<lparr>cn_op := Cn_idle, cn_handshake := word_of_memory (cn_little ?k) (snd x)\<rparr>"
  let ?w = "handshake_from_big_endian (cn_little ?c) (cn_handshake ?c)"
  obtain arg0 where "connector_on_handshake ?w ?c = connector_dispatch arg0 (?c\<lparr>cn_socket := False\<rparr>)"
    using handshake_dispatches by blast
  with Cn_reading obtain arg where
    "connector_step ?k (Handshake_read (fst x) (snd x)) = connector_dispatch arg (?c\<lparr>cn_socket := False\<rparr>)"
    by (cases "fst x = 0") (auto simp: connector_check_def Let_def connector_dispatch_def)
  with assms(1) Cn_reading show ?thesis
    by (simp add: r_def dial_defs case_prod_beta Let_def)
qed (use assms(1) in \<open>simp add: dial_busy_def\<close>)

end

sublocale dialing \<subseteq> dial: calls_back "dial_event establish cancel (Establish h)" "dial_event establish cancel Cancel"
    "dial_complete establish cancel complete" dial_idle "dial_busy h" dial_left "most + 2" called "\<lambda>x. x = h" for h
proof
  show "dial_busy h d \<Longrightarrow> 0 < dial_left d" for d
    by (simp add: dial_busy_def dial_left_def split: connector_op.splits)
  show "dial_idle d \<Longrightarrow> dial_complete establish cancel complete x d = (d, [])" for d x
    by (simp add: dial_idle_def dial_complete_def)
  show "dial_busy h d \<Longrightarrow> dial_busy h (fst (dial_event establish cancel Cancel d)) \<and>
      dial_left (fst (dial_event establish cancel Cancel d)) = dial_left d \<and>
      called (snd (dial_event establish cancel Cancel d)) = []" for d
    using cancel_dials(1) [of d] cancel_dials(2) [of d h] cancel_dials(3) [of h d] by blast
  show "dial_busy h d \<Longrightarrow>
      (dial_busy h (fst (dial_complete establish cancel complete x d)) \<and>
       dial_left (fst (dial_complete establish cancel complete x d)) < dial_left d \<and>
       called (snd (dial_complete establish cancel complete x d)) = []) \<or>
      (dial_idle (fst (dial_complete establish cancel complete x d)) \<and>
       (\<exists>r. r = h \<and> called (snd (dial_complete establish cancel complete x d)) = [r]))" for d x
    using complete_dials [of h d x] by blast
  show "dial_idle d \<Longrightarrow> dial_busy h (fst (dial_event establish cancel (Establish h) d)) \<and>
      dial_left (fst (dial_event establish cancel (Establish h) d)) \<le> most + 2 \<and>
      called (snd (dial_event establish cancel (Establish h) d)) = []" for d
    by (rule establish_dials)
  show "dial_idle d \<Longrightarrow> dial_idle (fst (dial_event establish cancel Cancel d)) \<and>
      called (snd (dial_event establish cancel Cancel d)) = []" for d :: "('p, 'h) dialing"
    using cancel_dials(1,4) by blast
qed simp_all

interpretation tcp_dial: dialing "tcp_open t" tcp_cancel "tcp_done obliging t" opener_idle opener_busy opener_left 2 for t
  by unfold_locales

interpretation uds_dial: dialing "uds_open obliging u" uds_cancel uds_done opener_idle uds_busy opener_left 1 for u
  by unfold_locales

definition tcp_connector :: "bool \<Rightarrow> tcp_host \<Rightarrow> int \<Rightarrow> (opener, 'h) dialing" where
  "tcp_connector little t codec =
    \<lparr>dl_opener = new_opener, dl_connector = connector_create little codec (th_max_rx_length t)\<rparr>"

definition uds_connector :: "bool \<Rightarrow> uds_path \<Rightarrow> int \<Rightarrow> (opener, 'h) dialing" where
  "uds_connector little u codec =
    \<lparr>dl_opener = new_opener, dl_connector = connector_create little codec (up_max_rx_length u)\<rparr>"

text \<open>\<open>establish\<close> and what follows it\<close>

definition tcp_connecting :: "system \<Rightarrow> tcp_host \<Rightarrow> 'h \<Rightarrow> (int \<times> bytes) option list \<Rightarrow>
    (opener, 'h) dialing \<Rightarrow> (opener, 'h) dialing \<times> 'h dial_effect list" where
  "tcp_connecting y t h xs d =
    (let (d1, out1) = dial_event (tcp_open t) tcp_cancel (Establish h) d;
         (d2, out2) = run_script (dial_event (tcp_open t) tcp_cancel Cancel)
           (dial_complete (tcp_open t) tcp_cancel (tcp_done y t)) xs d1
     in (d2, out1 @ out2))"

definition uds_connecting :: "system \<Rightarrow> uds_path \<Rightarrow> 'h \<Rightarrow> (int \<times> bytes) option list \<Rightarrow>
    (opener, 'h) dialing \<Rightarrow> (opener, 'h) dialing \<times> 'h dial_effect list" where
  "uds_connecting y u h xs d =
    (let (d1, out1) = dial_event (uds_open y u) uds_cancel (Establish h) d;
         (d2, out2) = run_script (dial_event (uds_open y u) uds_cancel Cancel)
           (dial_complete (uds_open y u) uds_cancel uds_done) xs d1
     in (d2, out1 @ out2))"

lemma connectors_idle:
  "tcp_dial.dial_idle (tcp_connector little t codec)" "tcp_dial.dial_idle (uds_connector little u codec)"
  by (simp_all add: tcp_dial.dial_idle_def tcp_connector_def uds_connector_def new_opener_def opener_idle_def
      connector_create_def)

definition completions :: "(int \<times> bytes) option list \<Rightarrow> nat" where
  "completions xs = length (filter (\<lambda>x. x \<noteq> None) xs)"





end
