(* ===== verification/Thread_Safe.thy ===== *)
theory Thread_Safe
  imports Session
begin

section \<open>Calls from other threads (\<open>safe\<dots>\<close> of \<open>internal/client.hpp\<close>, handles of \<open>internal/peerdata.ipp\<close>)\<close>

text \<open>
  A thread-safe operation is a task that \<open>asio::dispatch\<close> gives to the client's strand: it runs at once
  when the caller is inside the strand, and is queued otherwise.  Tasks whose operation returns a value
  hold a promise, whose future the caller gets.  A challenge, an invocation and an interruption refer to
  the client weakly; when it no longer exists they answer \<open>false\<close>.  A queued task keeps the client
  alive.
\<close>

subsection \<open>Setters\<close>

datatype 'u setter =
    Set_log_handler bool
  | Set_warning_handler bool
  | Set_trace_handler bool
  | Set_state_change_handler bool
  | Set_challenge_handler "'u option"

definition apply_setter :: "'u setter \<Rightarrow> 'u client \<Rightarrow> 'u client" where
  "apply_setter x c =
    (case x of
       Set_log_handler b \<Rightarrow> c\<lparr>c_peer := set_log_handler b (c_peer c)\<rparr>
     | Set_warning_handler b \<Rightarrow> c\<lparr>c_peer := set_warning_handler b (c_peer c)\<rparr>
     | Set_trace_handler b \<Rightarrow> c\<lparr>c_peer := set_trace_handler b (c_peer c)\<rparr>
     | Set_state_change_handler b \<Rightarrow> c\<lparr>c_peer := set_state_change_handler b (c_peer c)\<rparr>
     | Set_challenge_handler h \<Rightarrow> c\<lparr>c_challenge_handler := h\<rparr>)"

subsection \<open>Tasks\<close>

text \<open>
  A task has the arguments that the thread-safe operation was called with; running it calls the
  operation itself.  The first kind returns nothing: the handler among the arguments gets the result.
\<close>

datatype 'u task =
    Task_connect "codec list" 'u
  | Task_join realm 'u
  | Task_leave wamp_message 'u
  | Task_disconnect
  | Task_terminate
  | Task_subscribe wamp_message 'u 'u
  | Task_unsubscribe int u64
  | Task_unsubscribe_with int u64 'u
  | Task_publish_with wamp_message 'u
  | Task_enroll wamp_message 'u "'u option" 'u
  | Task_unregister int
  | Task_unregister_with int 'u
  | Task_call rpc bool bool int 'u
  | Task_ongoing_call rpc bool bool int 'u
  | Task_set_log_handler bool
  | Task_set_warning_handler bool
  | Task_set_trace_handler bool
  | Task_set_state_change_handler bool
  | Task_set_challenge_handler "'u option"
  | Task_authenticate wamp_message
  | Task_publish wamp_message
  | Task_cancel_call request_id call_cancel_mode
  | Task_yield_result request_id wamp_message
  | Task_yield_error request_id wamp_message

datatype promise_value = Settled "error_code + bool" | Raised value_error

text \<open>The operations that give their caller a future\<close>

primrec returns_value :: "'u task \<Rightarrow> bool" where
  "returns_value (Task_connect wishes h) = False"
| "returns_value (Task_join r h) = False"
| "returns_value (Task_leave reason h) = False"
| "returns_value (Task_disconnect) = False"
| "returns_value (Task_terminate) = False"
| "returns_value (Task_subscribe topic slot h) = False"
| "returns_value (Task_unsubscribe sub slot) = False"
| "returns_value (Task_unsubscribe_with sub slot h) = False"
| "returns_value (Task_publish_with pub h) = False"
| "returns_value (Task_enroll procedure call_slot interrupt_slot h) = False"
| "returns_value (Task_unregister reg) = False"
| "returns_value (Task_unregister_with reg h) = False"
| "returns_value (Task_call r chit cancellable now h) = False"
| "returns_value (Task_ongoing_call r chit cancellable now h) = False"
| "returns_value (Task_set_log_handler b) = False"
| "returns_value (Task_set_warning_handler b) = False"
| "returns_value (Task_set_trace_handler b) = False"
| "returns_value (Task_set_state_change_handler b) = False"
| "returns_value (Task_set_challenge_handler h) = False"
| "returns_value (Task_authenticate auth) = True"
| "returns_value (Task_publish pub) = True"
| "returns_value (Task_cancel_call i mode) = True"
| "returns_value (Task_yield_result i m) = True"
| "returns_value (Task_yield_error i m) = True"

primrec perform_task :: "'u task \<Rightarrow> 'u client \<Rightarrow> promise_value option \<times> 'u client_result" where
  "perform_task (Task_connect wishes h) c = (None, client_step c (Ev_connect wishes h))"
| "perform_task (Task_join r h) c = (None, client_step c (Ev_join r h))"
| "perform_task (Task_leave reason h) c = (None, client_step c (Ev_leave reason h))"
| "perform_task (Task_disconnect) c = (None, client_step c (Ev_disconnect))"
| "perform_task (Task_terminate) c = (None, client_step c (Ev_terminate))"
| "perform_task (Task_subscribe topic slot h) c = (None, client_step c (Ev_subscribe topic slot h))"
| "perform_task (Task_unsubscribe sub slot) c = (None, client_step c (Ev_unsubscribe sub slot))"
| "perform_task (Task_unsubscribe_with sub slot h) c = (None, client_step c (Ev_unsubscribe_with sub slot h))"
| "perform_task (Task_publish_with pub h) c = (None, client_step c (Ev_publish_with pub h))"
| "perform_task (Task_enroll procedure call_slot interrupt_slot h) c = (None, client_step c (Ev_enroll procedure call_slot interrupt_slot h))"
| "perform_task (Task_unregister reg) c = (None, client_step c (Ev_unregister reg))"
| "perform_task (Task_unregister_with reg h) c = (None, client_step c (Ev_unregister_with reg h))"
| "perform_task (Task_call r chit cancellable now h) c = (None, client_step c (Ev_call r chit cancellable now h))"
| "perform_task (Task_ongoing_call r chit cancellable now h) c = (None, client_step c (Ev_ongoing_call r chit cancellable now h))"
| "perform_task (Task_set_log_handler b) c = (None, apply_setter (Set_log_handler b) c, [])"
| "perform_task (Task_set_warning_handler b) c = (None, apply_setter (Set_warning_handler b) c, [])"
| "perform_task (Task_set_trace_handler b) c = (None, apply_setter (Set_trace_handler b) c, [])"
| "perform_task (Task_set_state_change_handler b) c = (None, apply_setter (Set_state_change_handler b) c, [])"
| "perform_task (Task_set_challenge_handler h) c = (None, apply_setter (Set_challenge_handler h) c, [])"
| "perform_task (Task_authenticate auth) c = (let (r, res) = authenticate auth c in (Some (Settled r), res))"
| "perform_task (Task_publish pub) c = (let (r, res) = publish pub c in (Some (Settled r), res))"
| "perform_task (Task_cancel_call i mode) c = (let (r, res) = cancel_call_by i mode c in (Some (Settled r), res))"
| "perform_task (Task_yield_result i m) c =
     (let (r, res) = yield_result i m c
      in (Some (case r of Inl e \<Rightarrow> Raised e | Inr v \<Rightarrow> Settled v), res))"
| "perform_task (Task_yield_error i m) c = (let (r, res) = yield_error i m c in (Some (Settled r), res))"

subsection \<open>The strand\<close>

text \<open>A task in the queue goes with the number of its promise, if it has one.\<close>

record 'u strand =
  sd_client :: "'u client"
  sd_exists :: bool
  sd_queue :: "('u task \<times> nat option) list"
  sd_promises :: "promise_value option list"

datatype 'u strand_effect =
    Strand_did "'u client_effect"
  | Ran_queued "'u task"
  | Call_returned promise_value
  | Gave_future nat
  | Promise_already_set

definition new_strand :: "'u client \<Rightarrow> 'u strand" where
  "new_strand c = \<lparr>sd_client = c, sd_exists = True, sd_queue = [], sd_promises = []\<rparr>"

text \<open>\<open>set_value\<close> and \<open>set_exception\<close>: setting a promise twice throws.\<close>

definition settle_promise :: "nat option \<Rightarrow> promise_value option \<Rightarrow> 'u strand \<Rightarrow> 'u strand \<times> 'u strand_effect list" where
  "settle_promise k v s =
    (case (k, v) of
       (Some n, Some w) \<Rightarrow>
         (if n < length (sd_promises s) \<and> sd_promises s ! n = None
          then (s\<lparr>sd_promises := (sd_promises s)[n := Some w]\<rparr>, [])
          else (s, [Promise_already_set]))
     | _ \<Rightarrow> (s, []))"

definition run_task :: "'u task \<Rightarrow> nat option \<Rightarrow> 'u strand \<Rightarrow> 'u strand \<times> 'u strand_effect list" where
  "run_task t k s =
    (let (v, c, xs) = perform_task t (sd_client s);
         (s1, out) = settle_promise k v (s\<lparr>sd_client := c\<rparr>)
     in (s1, map Strand_did xs @ out))"

definition new_promise :: "'u task \<Rightarrow> 'u strand \<Rightarrow> nat option \<times> 'u strand \<times> 'u strand_effect list" where
  "new_promise t s =
    (if returns_value t
     then (Some (length (sd_promises s)), s\<lparr>sd_promises := sd_promises s @ [None]\<rparr>,
           [Gave_future (length (sd_promises s))])
     else (None, s, []))"

definition safely_dispatch :: "bool \<Rightarrow> 'u task \<Rightarrow> 'u strand \<Rightarrow> 'u strand \<times> 'u strand_effect list" where
  "safely_dispatch in_strand t s =
    (let (k, s1, out) = new_promise t s
     in if in_strand then (let (s2, out2) = run_task t k s1 in (s2, out2 @ out))
        else (s1\<lparr>sd_queue := sd_queue s1 @ [(t, k)]\<rparr>, out))"

text \<open>The thread-safe operations\<close>

definition safe_connect ::
    "bool \<Rightarrow> codec list \<Rightarrow> 'u \<Rightarrow>
     'u strand \<Rightarrow> 'u strand \<times> 'u strand_effect list" where
  "safe_connect in_strand wishes h s = safely_dispatch in_strand (Task_connect wishes h) s"

definition safe_join ::
    "bool \<Rightarrow> realm \<Rightarrow> 'u \<Rightarrow>
     'u strand \<Rightarrow> 'u strand \<times> 'u strand_effect list" where
  "safe_join in_strand r h s = safely_dispatch in_strand (Task_join r h) s"

definition safe_leave ::
    "bool \<Rightarrow> wamp_message \<Rightarrow> 'u \<Rightarrow>
     'u strand \<Rightarrow> 'u strand \<times> 'u strand_effect list" where
  "safe_leave in_strand reason h s = safely_dispatch in_strand (Task_leave reason h) s"

definition safe_disconnect ::
    "bool \<Rightarrow> 'u strand \<Rightarrow> 'u strand \<times> 'u strand_effect list" where
  "safe_disconnect in_strand s = safely_dispatch in_strand Task_disconnect s"

definition safe_terminate ::
    "bool \<Rightarrow> 'u strand \<Rightarrow> 'u strand \<times> 'u strand_effect list" where
  "safe_terminate in_strand s = safely_dispatch in_strand Task_terminate s"

definition safe_subscribe ::
    "bool \<Rightarrow> wamp_message \<Rightarrow> 'u \<Rightarrow> 'u \<Rightarrow>
     'u strand \<Rightarrow> 'u strand \<times> 'u strand_effect list" where
  "safe_subscribe in_strand topic slot h s = safely_dispatch in_strand (Task_subscribe topic slot h) s"

definition safe_unsubscribe ::
    "bool \<Rightarrow> int \<Rightarrow> u64 \<Rightarrow>
     'u strand \<Rightarrow> 'u strand \<times> 'u strand_effect list" where
  "safe_unsubscribe in_strand sub slot s = safely_dispatch in_strand (Task_unsubscribe sub slot) s"

definition safe_unsubscribe_with ::
    "bool \<Rightarrow> int \<Rightarrow> u64 \<Rightarrow> 'u \<Rightarrow>
     'u strand \<Rightarrow> 'u strand \<times> 'u strand_effect list" where
  "safe_unsubscribe_with in_strand sub slot h s =
    safely_dispatch in_strand (Task_unsubscribe_with sub slot h) s"

definition safe_publish_with ::
    "bool \<Rightarrow> wamp_message \<Rightarrow> 'u \<Rightarrow>
     'u strand \<Rightarrow> 'u strand \<times> 'u strand_effect list" where
  "safe_publish_with in_strand pub h s = safely_dispatch in_strand (Task_publish_with pub h) s"

definition safe_enroll ::
    "bool \<Rightarrow> wamp_message \<Rightarrow> 'u \<Rightarrow> 'u option \<Rightarrow> 'u \<Rightarrow>
     'u strand \<Rightarrow> 'u strand \<times> 'u strand_effect list" where
  "safe_enroll in_strand procedure call_slot interrupt_slot h s =
    safely_dispatch in_strand (Task_enroll procedure call_slot interrupt_slot h) s"

definition safe_unregister ::
    "bool \<Rightarrow> int \<Rightarrow>
     'u strand \<Rightarrow> 'u strand \<times> 'u strand_effect list" where
  "safe_unregister in_strand reg s = safely_dispatch in_strand (Task_unregister reg) s"

definition safe_unregister_with ::
    "bool \<Rightarrow> int \<Rightarrow> 'u \<Rightarrow>
     'u strand \<Rightarrow> 'u strand \<times> 'u strand_effect list" where
  "safe_unregister_with in_strand reg h s = safely_dispatch in_strand (Task_unregister_with reg h) s"

definition safe_call ::
    "bool \<Rightarrow> rpc \<Rightarrow> bool \<Rightarrow> bool \<Rightarrow> int \<Rightarrow> 'u \<Rightarrow>
     'u strand \<Rightarrow> 'u strand \<times> 'u strand_effect list" where
  "safe_call in_strand r chit cancellable now h s =
    safely_dispatch in_strand (Task_call r chit cancellable now h) s"

definition safe_ongoing_call ::
    "bool \<Rightarrow> rpc \<Rightarrow> bool \<Rightarrow> bool \<Rightarrow> int \<Rightarrow> 'u \<Rightarrow>
     'u strand \<Rightarrow> 'u strand \<times> 'u strand_effect list" where
  "safe_ongoing_call in_strand r chit cancellable now h s =
    safely_dispatch in_strand (Task_ongoing_call r chit cancellable now h) s"

definition safe_set_log_handler ::
    "bool \<Rightarrow> bool \<Rightarrow>
     'u strand \<Rightarrow> 'u strand \<times> 'u strand_effect list" where
  "safe_set_log_handler in_strand b s = safely_dispatch in_strand (Task_set_log_handler b) s"

definition safe_set_warning_handler ::
    "bool \<Rightarrow> bool \<Rightarrow>
     'u strand \<Rightarrow> 'u strand \<times> 'u strand_effect list" where
  "safe_set_warning_handler in_strand b s = safely_dispatch in_strand (Task_set_warning_handler b) s"

definition safe_set_trace_handler ::
    "bool \<Rightarrow> bool \<Rightarrow>
     'u strand \<Rightarrow> 'u strand \<times> 'u strand_effect list" where
  "safe_set_trace_handler in_strand b s = safely_dispatch in_strand (Task_set_trace_handler b) s"

definition safe_set_state_change_handler ::
    "bool \<Rightarrow> bool \<Rightarrow>
     'u strand \<Rightarrow> 'u strand \<times> 'u strand_effect list" where
  "safe_set_state_change_handler in_strand b s =
    safely_dispatch in_strand (Task_set_state_change_handler b) s"

definition safe_set_challenge_handler ::
    "bool \<Rightarrow> 'u option \<Rightarrow>
     'u strand \<Rightarrow> 'u strand \<times> 'u strand_effect list" where
  "safe_set_challenge_handler in_strand h s = safely_dispatch in_strand (Task_set_challenge_handler h) s"

definition safe_authenticate ::
    "bool \<Rightarrow> wamp_message \<Rightarrow>
     'u strand \<Rightarrow> 'u strand \<times> 'u strand_effect list" where
  "safe_authenticate in_strand auth s = safely_dispatch in_strand (Task_authenticate auth) s"

definition safe_publish ::
    "bool \<Rightarrow> wamp_message \<Rightarrow>
     'u strand \<Rightarrow> 'u strand \<times> 'u strand_effect list" where
  "safe_publish in_strand pub s = safely_dispatch in_strand (Task_publish pub) s"

definition safe_cancel_call ::
    "bool \<Rightarrow> request_id \<Rightarrow> call_cancel_mode \<Rightarrow>
     'u strand \<Rightarrow> 'u strand \<times> 'u strand_effect list" where
  "safe_cancel_call in_strand i mode s = safely_dispatch in_strand (Task_cancel_call i mode) s"

definition safe_yield_result ::
    "bool \<Rightarrow> request_id \<Rightarrow> wamp_message \<Rightarrow>
     'u strand \<Rightarrow> 'u strand \<times> 'u strand_effect list" where
  "safe_yield_result in_strand i m s = safely_dispatch in_strand (Task_yield_result i m) s"

definition safe_yield_error ::
    "bool \<Rightarrow> request_id \<Rightarrow> wamp_message \<Rightarrow>
     'u strand \<Rightarrow> 'u strand \<times> 'u strand_effect list" where
  "safe_yield_error in_strand i m s = safely_dispatch in_strand (Task_yield_error i m) s"

primrec call_safely :: "bool \<Rightarrow> 'u task \<Rightarrow> 'u strand \<Rightarrow> 'u strand \<times> 'u strand_effect list" where
  "call_safely in_strand (Task_connect wishes h) s = safe_connect in_strand wishes h s"
| "call_safely in_strand (Task_join r h) s = safe_join in_strand r h s"
| "call_safely in_strand (Task_leave reason h) s = safe_leave in_strand reason h s"
| "call_safely in_strand (Task_disconnect) s = safe_disconnect in_strand s"
| "call_safely in_strand (Task_terminate) s = safe_terminate in_strand s"
| "call_safely in_strand (Task_subscribe topic slot h) s = safe_subscribe in_strand topic slot h s"
| "call_safely in_strand (Task_unsubscribe sub slot) s = safe_unsubscribe in_strand sub slot s"
| "call_safely in_strand (Task_unsubscribe_with sub slot h) s = safe_unsubscribe_with in_strand sub slot h s"
| "call_safely in_strand (Task_publish_with pub h) s = safe_publish_with in_strand pub h s"
| "call_safely in_strand (Task_enroll procedure call_slot interrupt_slot h) s = safe_enroll in_strand procedure call_slot interrupt_slot h s"
| "call_safely in_strand (Task_unregister reg) s = safe_unregister in_strand reg s"
| "call_safely in_strand (Task_unregister_with reg h) s = safe_unregister_with in_strand reg h s"
| "call_safely in_strand (Task_call r chit cancellable now h) s = safe_call in_strand r chit cancellable now h s"
| "call_safely in_strand (Task_ongoing_call r chit cancellable now h) s = safe_ongoing_call in_strand r chit cancellable now h s"
| "call_safely in_strand (Task_set_log_handler b) s = safe_set_log_handler in_strand b s"
| "call_safely in_strand (Task_set_warning_handler b) s = safe_set_warning_handler in_strand b s"
| "call_safely in_strand (Task_set_trace_handler b) s = safe_set_trace_handler in_strand b s"
| "call_safely in_strand (Task_set_state_change_handler b) s = safe_set_state_change_handler in_strand b s"
| "call_safely in_strand (Task_set_challenge_handler h) s = safe_set_challenge_handler in_strand h s"
| "call_safely in_strand (Task_authenticate auth) s = safe_authenticate in_strand auth s"
| "call_safely in_strand (Task_publish pub) s = safe_publish in_strand pub s"
| "call_safely in_strand (Task_cancel_call i mode) s = safe_cancel_call in_strand i mode s"
| "call_safely in_strand (Task_yield_result i m) s = safe_yield_result in_strand i m s"
| "call_safely in_strand (Task_yield_error i m) s = safe_yield_error in_strand i m s"

lemma call_safely_dispatches: "call_safely in_strand t s = safely_dispatch in_strand t s"
  by (cases t) (simp_all add: safe_connect_def safe_join_def safe_leave_def safe_disconnect_def
    safe_terminate_def safe_subscribe_def safe_unsubscribe_def safe_unsubscribe_with_def
  safe_publish_with_def safe_enroll_def safe_unregister_def safe_unregister_with_def safe_call_def
  safe_ongoing_call_def safe_set_log_handler_def safe_set_warning_handler_def
  safe_set_trace_handler_def safe_set_state_change_handler_def safe_set_challenge_handler_def
  safe_authenticate_def safe_publish_def safe_cancel_call_def safe_yield_result_def
    safe_yield_error_def)

text \<open>The operation called directly, inside the strand\<close>

definition call_directly :: "'u task \<Rightarrow> 'u strand \<Rightarrow> 'u strand \<times> 'u strand_effect list" where
  "call_directly t s =
    (let (v, c, xs) = perform_task t (sd_client s)
     in (s\<lparr>sd_client := c\<rparr>, map Strand_did xs @ (case v of None \<Rightarrow> [] | Some w \<Rightarrow> [Call_returned w])))"

subsection \<open>Handles\<close>

text \<open>
  An event, invocation or interruption that a slot is given: its message and the executor for the
  user's handlers, which a default-constructed or moved one does not have.
\<close>

record 'e received =
  rc_message :: wamp_message
  rc_executor :: "'e option"

definition make_received :: "wamp_message \<Rightarrow> 'e \<Rightarrow> 'e received" where
  "make_received m e = \<lparr>rc_message = m, rc_executor = Some e\<rparr>"

definition blank_received :: "wamp_message \<Rightarrow> 'e received" where
  "blank_received m = \<lparr>rc_message = m, rc_executor = None\<rparr>"

definition received_empty :: "'e received \<Rightarrow> bool" where
  "received_empty r \<longleftrightarrow> rc_executor r = None"

text \<open>\<open>executor\<close> throws \<open>error::Logic\<close> when empty: the outer \<open>None\<close>.\<close>

definition received_executor :: "'e received \<Rightarrow> 'e option option" where
  "received_executor r = logic_check (\<not> received_empty r) (rc_executor r)"

lemma received_executor_made: "received_executor (make_received m e) = Some (Some e)"
  "received_executor (blank_received m) = None"
  by (simp_all add: received_executor_def make_received_def blank_received_def received_empty_def logic_check_def)

definition client_has_expired :: "'u strand \<Rightarrow> bool" where
  "client_has_expired s \<longleftrightarrow> \<not> sd_exists s"

text \<open>What a handle does when its weak pointer cannot be locked\<close>

definition discard_directly :: "'u strand \<Rightarrow> 'u strand \<times> 'u strand_effect list" where
  "discard_directly s = (s, [Call_returned (Settled (Inr False))])"

definition discard_safely :: "'u strand \<Rightarrow> 'u strand \<times> 'u strand_effect list" where
  "discard_safely s =
    (s\<lparr>sd_promises := sd_promises s @ [Some (Settled (Inr False))]\<rparr>, [Gave_future (length (sd_promises s))])"

definition challenge_authenticate :: "wamp_message \<Rightarrow> 'u strand \<Rightarrow> 'u strand \<times> 'u strand_effect list" where
  "challenge_authenticate auth s =
    (if sd_exists s then call_directly (Task_authenticate auth) s else discard_directly s)"

definition challenge_authenticate_safely ::
    "bool \<Rightarrow> wamp_message \<Rightarrow>
     'u strand \<Rightarrow> 'u strand \<times> 'u strand_effect list" where
  "challenge_authenticate_safely in_strand auth s =
    (if sd_exists s then safe_authenticate in_strand auth s else discard_safely s)"

definition invocation_yield :: "wamp_message \<Rightarrow> wamp_message \<Rightarrow> 'u strand \<Rightarrow> 'u strand \<times> 'u strand_effect list" where
  "invocation_yield invocation result s =
    (if sd_exists s then call_directly (Task_yield_result (invocation_request_id invocation) result) s
     else discard_directly s)"

definition invocation_yield_safely ::
    "bool \<Rightarrow> wamp_message \<Rightarrow> wamp_message \<Rightarrow>
     'u strand \<Rightarrow> 'u strand \<times> 'u strand_effect list" where
  "invocation_yield_safely in_strand invocation result s =
    (if sd_exists s then safe_yield_result in_strand (invocation_request_id invocation) result s
     else discard_safely s)"

definition invocation_yield_error :: "wamp_message \<Rightarrow> wamp_message \<Rightarrow> 'u strand \<Rightarrow> 'u strand \<times> 'u strand_effect list" where
  "invocation_yield_error invocation err s =
    (if sd_exists s then call_directly (Task_yield_error (invocation_request_id invocation) err) s
     else discard_directly s)"

definition invocation_yield_error_safely ::
    "bool \<Rightarrow> wamp_message \<Rightarrow> wamp_message \<Rightarrow>
     'u strand \<Rightarrow> 'u strand \<times> 'u strand_effect list" where
  "invocation_yield_error_safely in_strand invocation err s =
    (if sd_exists s then safe_yield_error in_strand (invocation_request_id invocation) err s
     else discard_safely s)"

definition interruption_yield :: "wamp_message \<Rightarrow> wamp_message \<Rightarrow> 'u strand \<Rightarrow> 'u strand \<times> 'u strand_effect list" where
  "interruption_yield intr result s =
    (if sd_exists s then call_directly (Task_yield_result (interrupt_request_id intr) result) s
     else discard_directly s)"

definition interruption_yield_safely ::
    "bool \<Rightarrow> wamp_message \<Rightarrow> wamp_message \<Rightarrow>
     'u strand \<Rightarrow> 'u strand \<times> 'u strand_effect list" where
  "interruption_yield_safely in_strand intr result s =
    (if sd_exists s then safe_yield_result in_strand (interrupt_request_id intr) result s
     else discard_safely s)"

definition interruption_yield_error :: "wamp_message \<Rightarrow> wamp_message \<Rightarrow> 'u strand \<Rightarrow> 'u strand \<times> 'u strand_effect list" where
  "interruption_yield_error intr err s =
    (if sd_exists s then call_directly (Task_yield_error (interrupt_request_id intr) err) s
     else discard_directly s)"

definition interruption_yield_error_safely ::
    "bool \<Rightarrow> wamp_message \<Rightarrow> wamp_message \<Rightarrow>
     'u strand \<Rightarrow> 'u strand \<times> 'u strand_effect list" where
  "interruption_yield_error_safely in_strand intr err s =
    (if sd_exists s then safe_yield_error in_strand (interrupt_request_id intr) err s
     else discard_safely s)"

subsection \<open>Everything that can happen\<close>

datatype 'u strand_input =
    Call_direct "'u task"
  | Call_safe bool "'u task"
  | Challenge_authenticate wamp_message
  | Challenge_authenticate_safely bool wamp_message
  | Invocation_yield wamp_message wamp_message
  | Invocation_yield_safely bool wamp_message wamp_message
  | Invocation_yield_error wamp_message wamp_message
  | Invocation_yield_error_safely bool wamp_message wamp_message
  | Interruption_yield wamp_message wamp_message
  | Interruption_yield_safely bool wamp_message wamp_message
  | Interruption_yield_error wamp_message wamp_message
  | Interruption_yield_error_safely bool wamp_message wamp_message
  | Run_next
  | Client_event "'u client_event"
  | Call_setter "'u setter"
  | Client_released

primrec strand_step :: "'u strand \<Rightarrow> 'u strand_input \<Rightarrow> 'u strand \<times> 'u strand_effect list" where
  "strand_step s (Call_direct t) = (if sd_exists s then call_directly t s else (s, []))"
| "strand_step s (Call_safe in_strand t) = (if sd_exists s then call_safely in_strand t s else (s, []))"
| "strand_step s (Challenge_authenticate auth) = challenge_authenticate auth s"
| "strand_step s (Challenge_authenticate_safely b auth) = challenge_authenticate_safely b auth s"
| "strand_step s (Invocation_yield invocation m) = invocation_yield invocation m s"
| "strand_step s (Invocation_yield_safely b invocation m) = invocation_yield_safely b invocation m s"
| "strand_step s (Invocation_yield_error invocation m) = invocation_yield_error invocation m s"
| "strand_step s (Invocation_yield_error_safely b invocation m) = invocation_yield_error_safely b invocation m s"
| "strand_step s (Interruption_yield intr m) = interruption_yield intr m s"
| "strand_step s (Interruption_yield_safely b intr m) = interruption_yield_safely b intr m s"
| "strand_step s (Interruption_yield_error intr m) = interruption_yield_error intr m s"
| "strand_step s (Interruption_yield_error_safely b intr m) = interruption_yield_error_safely b intr m s"
| "strand_step s Run_next =
     (case sd_queue s of
        [] \<Rightarrow> (s, [])
      | (t, k) # rest \<Rightarrow> (let (s1, out) = run_task t k (s\<lparr>sd_queue := rest\<rparr>) in (s1, Ran_queued t # out)))"
| "strand_step s (Client_event e) =
     (if sd_exists s then (let (c, xs) = client_step (sd_client s) e in (s\<lparr>sd_client := c\<rparr>, map Strand_did xs))
      else (s, []))"
| "strand_step s (Call_setter x) =
     (if sd_exists s then (s\<lparr>sd_client := apply_setter x (sd_client s)\<rparr>, []) else (s, []))"
| "strand_step s Client_released = (if sd_queue s = [] then (s\<lparr>sd_exists := False\<rparr>, []) else (s, []))"

subsection \<open>Promises\<close>

text \<open>The promises that the queued tasks hold\<close>

definition queued_promises :: "('u task \<times> nat option) list \<Rightarrow> nat list" where
  "queued_promises q = concat (map (\<lambda>(t, k). case k of None \<Rightarrow> [] | Some n \<Rightarrow> [n]) q)"

definition open_promises :: "'u strand \<Rightarrow> nat set" where
  "open_promises s = {n. n < length (sd_promises s) \<and> sd_promises s ! n = None}"

definition promises_kept :: "'u strand \<Rightarrow> bool" where
  "promises_kept s = (distinct (queued_promises (sd_queue s)) \<and>
     set (queued_promises (sd_queue s)) = open_promises s \<and>
     list_all (\<lambda>(t, k). (k \<noteq> None) = returns_value t) (sd_queue s))"

lemma queued_promises_simps [simp]:
  "queued_promises [] = []"
  "queued_promises ((t, None) # q) = queued_promises q"
  "queued_promises ((t, Some n) # q) = n # queued_promises q"
  "queued_promises (q @ q') = queued_promises q @ queued_promises q'"
  by (simp_all add: queued_promises_def)

lemma perform_task_value: "(fst (perform_task t c) \<noteq> None) = returns_value t"
  by (cases t) (simp_all add: case_prod_beta Let_def)

lemma run_task_without_promise:
  "\<not> returns_value t \<Longrightarrow> run_task t None s =
     (s\<lparr>sd_client := fst (snd (perform_task t (sd_client s)))\<rparr>, map Strand_did (snd (snd (perform_task t (sd_client s)))))"
  by (simp add: run_task_def settle_promise_def case_prod_beta Let_def)

lemma run_task_with_promise:
  assumes "returns_value t" and "n \<in> open_promises s"
  obtains w where "run_task t (Some n) s =
     (s\<lparr>sd_client := fst (snd (perform_task t (sd_client s))), sd_promises := (sd_promises s)[n := Some w]\<rparr>,
      map Strand_did (snd (snd (perform_task t (sd_client s)))))"
proof -
  from assms(1) perform_task_value [of t "sd_client s"] obtain w where
    "fst (perform_task t (sd_client s)) = Some w" by auto
  then show thesis using assms(2)
    by (intro that [of w]) (simp add: run_task_def settle_promise_def open_promises_def case_prod_beta Let_def)
qed

lemma open_promises_settled:
  "open_promises (s\<lparr>sd_client := c, sd_promises := (sd_promises s)[n := Some w]\<rparr>) = open_promises s - {n}"
  by (auto simp: open_promises_def) (metis nth_list_update_eq nth_list_update_neq option.distinct(1))+

lemma open_promises_other [simp]:
  "open_promises (s\<lparr>sd_client := c\<rparr>) = open_promises s"
  "open_promises (s\<lparr>sd_queue := q\<rparr>) = open_promises s"
  "open_promises (s\<lparr>sd_exists := b\<rparr>) = open_promises s"
  by (simp_all add: open_promises_def)

lemma open_promises_new:
  "open_promises (s\<lparr>sd_promises := sd_promises s @ [v]\<rparr>) =
     open_promises s \<union> (if v = None then {length (sd_promises s)} else {})"
  by (auto simp: open_promises_def nth_append less_Suc_eq)

subsection \<open>Every step keeps the promises\<close>

lemma call_directly_keeps:
  "promises_kept s \<Longrightarrow> promises_kept (fst (call_directly t s))"
  "Promise_already_set \<notin> set (snd (call_directly t s))"
  by (auto simp: call_directly_def promises_kept_def case_prod_beta Let_def split: option.splits)

lemma discard_keeps:
  "promises_kept s \<Longrightarrow> promises_kept (fst (discard_directly s))"
  "promises_kept s \<Longrightarrow> promises_kept (fst (discard_safely s))"
  "Promise_already_set \<notin> set (snd (discard_directly s))"
  "Promise_already_set \<notin> set (snd (discard_safely s))"
  by (simp_all add: discard_directly_def discard_safely_def promises_kept_def open_promises_new)

lemma safely_dispatch_keeps:
  assumes "promises_kept s"
  shows "promises_kept (fst (safely_dispatch b t s)) \<and> Promise_already_set \<notin> set (snd (safely_dispatch b t s))"
proof (cases "returns_value t")
  case False
  with assms show ?thesis
    by (auto simp: safely_dispatch_def new_promise_def run_task_without_promise promises_kept_def
        case_prod_beta Let_def)
next
  case True
  let ?n = "length (sd_promises s)"
  let ?s1 = "s\<lparr>sd_promises := sd_promises s @ [None]\<rparr>"
  have fresh: "?n \<notin> open_promises s" "?n \<in> open_promises ?s1"
    by (simp_all add: open_promises_def)
  from True fresh(2) obtain w where run: "run_task t (Some ?n) ?s1 =
      (?s1\<lparr>sd_client := fst (snd (perform_task t (sd_client ?s1))), sd_promises := (sd_promises ?s1)[?n := Some w]\<rparr>,
       map Strand_did (snd (snd (perform_task t (sd_client ?s1)))))"
    by (rule run_task_with_promise)
  have settled: "open_promises (fst (run_task t (Some ?n) ?s1)) = open_promises s"
    using fresh(1) unfolding run fst_conv open_promises_settled
    by (simp add: open_promises_new)
  show ?thesis
  proof (cases b)
    case True
    with assms settled \<open>returns_value t\<close> show ?thesis
      by (auto simp: safely_dispatch_def new_promise_def run promises_kept_def Let_def)
  next
    case False
    with assms fresh(1) \<open>returns_value t\<close> show ?thesis
      by (auto simp: safely_dispatch_def new_promise_def promises_kept_def open_promises_new Let_def)
  qed
qed

lemma run_next_keeps:
  assumes "promises_kept s"
  shows "promises_kept (fst (strand_step s Run_next)) \<and> Promise_already_set \<notin> set (snd (strand_step s Run_next))"
proof (cases "sd_queue s")
  case Nil
  with assms show ?thesis by simp
next
  case (Cons p rest)
  obtain t k where p: "p = (t, k)" by (cases p)
  let ?s1 = "s\<lparr>sd_queue := rest\<rparr>"
  show ?thesis
  proof (cases k)
    case None
    with assms Cons p have "\<not> returns_value t" by (simp add: promises_kept_def)
    with assms Cons p None show ?thesis
      by (auto simp: run_task_without_promise promises_kept_def Let_def)
  next
    case (Some n)
    with assms Cons p have t: "returns_value t" and n: "n \<in> open_promises ?s1"
      and rest: "n \<notin> set (queued_promises rest)"
      by (auto simp: promises_kept_def)
    from t n obtain w where run: "run_task t (Some n) ?s1 =
        (?s1\<lparr>sd_client := fst (snd (perform_task t (sd_client ?s1))), sd_promises := (sd_promises ?s1)[n := Some w]\<rparr>,
         map Strand_did (snd (snd (perform_task t (sd_client ?s1)))))"
      by (rule run_task_with_promise)
    have "open_promises (fst (run_task t (Some n) ?s1)) = open_promises s - {n}"
      unfolding run fst_conv open_promises_settled by simp
    with assms Cons p Some rest show ?thesis
      by (auto simp: run promises_kept_def Let_def)
  qed
qed

lemma setter_keeps: "promises_kept s \<Longrightarrow> promises_kept (s\<lparr>sd_client := c\<rparr>)"
  by (simp add: promises_kept_def)

lemma strand_step_keeps:
  "promises_kept s \<Longrightarrow> promises_kept (fst (strand_step s x)) \<and> Promise_already_set \<notin> set (snd (strand_step s x))"
proof -
  assume s: "promises_kept s"
  have event: "promises_kept (fst (strand_step s (Client_event e))) \<and>
      Promise_already_set \<notin> set (snd (strand_step s (Client_event e)))" for e
    using s by (auto simp: promises_kept_def case_prod_beta Let_def)
  show ?thesis
  proof (cases x)
    case Run_next
    show ?thesis unfolding Run_next by (rule run_next_keeps [OF s])
  next
    case (Client_event e)
    show ?thesis unfolding Client_event by (rule event)
  next
    case Client_released
    then show ?thesis using s by (auto simp: promises_kept_def)
  qed (simp_all add: s call_directly_keeps discard_keeps safely_dispatch_keeps call_safely_dispatches setter_keeps
      safe_authenticate_def safe_yield_result_def safe_yield_error_def
      challenge_authenticate_def challenge_authenticate_safely_def invocation_yield_def invocation_yield_safely_def
      invocation_yield_error_def invocation_yield_error_safely_def interruption_yield_def
      interruption_yield_safely_def interruption_yield_error_def interruption_yield_error_safely_def)
qed

interpretation strand_run: machine_outputs strand_step promises_kept "\<lambda>o'. o' \<noteq> Promise_already_set"
  by unfold_locales (use strand_step_keeps in blast)+

lemma new_strand_kept: "promises_kept (new_strand c)"
  by (simp add: promises_kept_def new_strand_def open_promises_def)

subsection \<open>Running the queue\<close>

primrec future_given :: "'u strand_effect \<Rightarrow> nat option" where
  "future_given (Gave_future n) = Some n"
| "future_given (Strand_did x) = None"
| "future_given (Ran_queued t) = None"
| "future_given (Call_returned v) = None"
| "future_given Promise_already_set = None"

primrec task_run :: "'u strand_effect \<Rightarrow> 'u task option" where
  "task_run (Ran_queued t) = Some t"
| "task_run (Strand_did x) = None"
| "task_run (Gave_future n) = None"
| "task_run (Call_returned v) = None"
| "task_run Promise_already_set = None"

definition only_settled :: "promise_value option list \<Rightarrow> promise_value option list \<Rightarrow> bool" where
  "only_settled ps qs = list_all2 (\<lambda>p q. p = None \<or> q = p) ps qs"

lemma only_settled_refl: "only_settled ps ps"
  by (simp add: only_settled_def list_all2_refl)

lemma only_settled_trans: "only_settled ps qs \<Longrightarrow> only_settled qs rs \<Longrightarrow> only_settled ps rs"
  by (auto simp: only_settled_def list_all2_conv_all_nth) metis

lemma only_settled_update: "ps ! n = None \<Longrightarrow> only_settled ps (ps[n := v])"
  by (cases "n < length ps") (auto simp: only_settled_def list_all2_conv_all_nth nth_list_update)

lemma map_filter_none: "(\<And>x. x \<in> set xs \<Longrightarrow> f x = None) \<Longrightarrow> List.map_filter f xs = []"
  by (induction xs) (simp_all add: List.map_filter_simps)

lemma map_filter_append: "List.map_filter f (xs @ ys) = List.map_filter f xs @ List.map_filter f ys"
  by (simp add: List.map_filter_def)

lemma run_task_effects:
  "List.map_filter task_run (snd (run_task t k s)) = []"
  "List.map_filter future_given (snd (run_task t k s)) = []"
  "sd_queue (fst (run_task t k s)) = sd_queue s"
  "length (sd_promises (fst (run_task t k s))) = length (sd_promises s)"
  "only_settled (sd_promises s) (sd_promises (fst (run_task t k s)))"
  by (auto simp: run_task_def settle_promise_def map_filter_append case_prod_beta Let_def
      List.map_filter_simps only_settled_refl only_settled_update
      intro!: map_filter_none split: option.splits)

lemma run_next_effects:
  "List.map_filter task_run (snd (strand_step s Run_next)) = map fst (take 1 (sd_queue s))"
  "sd_queue (fst (strand_step s Run_next)) = tl (sd_queue s)"
  "only_settled (sd_promises s) (sd_promises (fst (strand_step s Run_next)))"
  using run_task_effects(5) [of "sd_queue_update _ s"]
  by (auto simp: run_task_effects List.map_filter_simps Let_def case_prod_beta only_settled_refl split: list.splits)

lemma run_queue:
  "sd_queue s = q \<Longrightarrow> let (s', out) = run_machine strand_step s (replicate (length q) Run_next)
     in List.map_filter task_run out = map fst q \<and> sd_queue s' = [] \<and> only_settled (sd_promises s) (sd_promises s')"
proof (induction q arbitrary: s)
  case Nil
  then show ?case by (simp add: only_settled_refl List.map_filter_simps)
next
  case (Cons p q)
  let ?s1 = "fst (strand_step s Run_next)"
  let ?r = "run_machine strand_step ?s1 (replicate (length q) Run_next)"
  from Cons.prems have "sd_queue ?s1 = q" by (simp only: run_next_effects list.sel)
  from Cons.IH [OF this] have tail: "List.map_filter task_run (snd ?r) = map fst q" "sd_queue (fst ?r) = []"
    "only_settled (sd_promises ?s1) (sd_promises (fst ?r))"
    by (simp_all only: case_prod_beta Let_def)
  have "List.map_filter task_run (snd (strand_step s Run_next) @ snd ?r) = map fst (p # q)"
    unfolding map_filter_append tail run_next_effects Cons.prems by simp
  moreover have "only_settled (sd_promises s) (sd_promises (fst ?r))"
    by (rule only_settled_trans [OF run_next_effects(3) tail(3)])
  ultimately show ?case using tail(2)
    by (simp only: length_Cons replicate_Suc case_prod_beta Let_def run_machine_Cons_fst run_machine_Cons_snd simp_thms)
qed

lemma dispatch_futures:
  "List.map_filter future_given (snd (safely_dispatch b t s)) =
     [length (sd_promises s)..<length (sd_promises (fst (safely_dispatch b t s)))]"
  by (simp add: safely_dispatch_def new_promise_def case_prod_beta Let_def map_filter_append run_task_effects
      List.map_filter_simps)

lemma direct_futures:
  "List.map_filter future_given (snd (call_directly t s)) = []"
  "sd_promises (fst (call_directly t s)) = sd_promises s"
  by (auto simp: call_directly_def case_prod_beta Let_def map_filter_append List.map_filter_simps
      intro!: map_filter_none split: option.splits)

lemma discard_futures:
  "List.map_filter future_given (snd (discard_directly s)) = []"
  "sd_promises (fst (discard_directly s)) = sd_promises s"
  "List.map_filter future_given (snd (discard_safely s)) = [length (sd_promises s)]"
  "length (sd_promises (fst (discard_safely s))) = Suc (length (sd_promises s))"
  by (simp_all add: discard_directly_def discard_safely_def List.map_filter_simps)

lemma client_event_futures: "List.map_filter future_given (map Strand_did xs) = []"
  by (rule map_filter_none) auto

lemma step_futures:
  "List.map_filter future_given (snd (strand_step s x)) =
     [length (sd_promises s)..<length (sd_promises (fst (strand_step s x)))]"
proof (cases x)
  case Run_next
  then show ?thesis
    by (auto simp: run_task_effects List.map_filter_simps Let_def case_prod_beta split: list.splits)
next
  case (Client_event e)
  then show ?thesis by (simp add: client_event_futures case_prod_beta Let_def List.map_filter_simps)
qed (simp_all add: dispatch_futures direct_futures discard_futures List.map_filter_simps call_safely_dispatches
      safe_authenticate_def safe_yield_result_def safe_yield_error_def
      challenge_authenticate_def challenge_authenticate_safely_def invocation_yield_def invocation_yield_safely_def
      invocation_yield_error_def invocation_yield_error_safely_def interruption_yield_def
      interruption_yield_safely_def interruption_yield_error_def interruption_yield_error_safely_def)

lemma promises_grow: "length (sd_promises s) \<le> length (sd_promises (fst (strand_step s x)))"
  by (cases x) (auto simp: run_task_effects direct_futures discard_futures Let_def case_prod_beta
      safely_dispatch_def new_promise_def call_safely_dispatches
      safe_authenticate_def safe_yield_result_def safe_yield_error_def
      challenge_authenticate_def challenge_authenticate_safely_def invocation_yield_def invocation_yield_safely_def
      invocation_yield_error_def invocation_yield_error_safely_def interruption_yield_def
      interruption_yield_safely_def interruption_yield_error_def interruption_yield_error_safely_def split: list.splits)

lemma upt_append: "i \<le> j \<Longrightarrow> j \<le> k \<Longrightarrow> [i..<j] @ [j..<k] = [i..<k]"
  using upt_add_eq_append [of i j "k - j"] by simp

lemma run_futures:
  "length (sd_promises s) \<le> length (sd_promises (fst (run_machine strand_step s xs))) \<and>
   List.map_filter future_given (snd (run_machine strand_step s xs)) =
     [length (sd_promises s)..<length (sd_promises (fst (run_machine strand_step s xs)))]"
proof (induction xs arbitrary: s)
  case Nil
  then show ?case by (simp add: List.map_filter_simps)
next
  case (Cons x xs)
  let ?s1 = "fst (strand_step s x)"
  from promises_grow [of s x] Cons.IH [of ?s1] show ?case
    by (simp only: run_machine_Cons_fst run_machine_Cons_snd map_filter_append step_futures)
      (simp add: upt_append)
qed

text \<open>
  C14: Whatever tasks are given to the strand, from inside it and from other threads, and whatever the
  handles of challenges, invocations and interruptions are asked, no promise is set twice and the futures
  handed out are those of the promises made, each once; then running the queued tasks takes them in
  the order they were given, changes no promise that was already settled, and leaves none unsettled.
\<close>

theorem futures_settled_once:
  "let (s, out) = run_machine strand_step (new_strand c) xs;
       (s', out') = run_machine strand_step s (replicate (length (sd_queue s)) Run_next)
   in Promise_already_set \<notin> set (out @ out') \<and>
      List.map_filter future_given out = [0..<length (sd_promises s)] \<and>
      List.map_filter task_run out' = map fst (sd_queue s) \<and>
      only_settled (sd_promises s) (sd_promises s') \<and> None \<notin> set (sd_promises s')"
proof -
  let ?r = "run_machine strand_step (new_strand c) xs"
  let ?s = "fst ?r"
  let ?r' = "run_machine strand_step ?s (replicate (length (sd_queue ?s)) Run_next)"
  have kept: "promises_kept ?s" by (rule strand_run.run_inv [OF new_strand_kept])
  have kept': "promises_kept (fst ?r')" by (rule strand_run.run_inv [OF kept])
  from run_queue [OF refl, of ?s] have queue: "sd_queue (fst ?r') = []"
    "List.map_filter task_run (snd ?r') = map fst (sd_queue ?s)"
    "only_settled (sd_promises ?s) (sd_promises (fst ?r'))"
    by (simp_all add: case_prod_beta Let_def)
  from kept' queue(1) have "open_promises (fst ?r') = {}" by (simp add: promises_kept_def)
  then have settled: "None \<notin> set (sd_promises (fst ?r'))"
    by (auto simp: open_promises_def in_set_conv_nth)
  have futures: "List.map_filter future_given (snd ?r) = [0..<length (sd_promises ?s)]"
    using run_futures [of "new_strand c" xs] by (simp add: new_strand_def)
  have "Promise_already_set \<notin> set (snd ?r @ snd ?r')"
    unfolding set_append Un_iff using strand_run.run_good [OF new_strand_kept] strand_run.run_good [OF kept] by blast
  with queue settled futures show ?thesis by (simp add: case_prod_beta Let_def)
qed

end
