(* ===== verification/Coro_Session.thy ===== *)
theory Coro_Session
  imports Session Error_Or
begin

section \<open>Sessions for coroutines (\<open>coro/corosession.hpp\<close>)\<close>

text \<open>
  \<open>CoroSession\<close> wraps \<open>Session\<close>: an operation throws \<open>error::Logic\<close> unless the session is in the state
  that it needs, a callback gets what the session's operation gives, and a coroutine that waits for it
  gets the value, with the error thrown or put into the error code it has passed.
\<close>

subsection \<open>What waits for an operation\<close>

text \<open>
  A callback, or a coroutine: whether it passed a pointer to an error code, and the default-constructed
  value that it returns with an error.
\<close>

datatype 'k completion = Callback 'k | Coroutine 'k bool user_value

datatype 'v coro_return = Coro_returns 'v "error_code option" | Coro_throws error_code

definition coro_result :: "bool \<Rightarrow> 'v \<Rightarrow> 'v error_or \<Rightarrow> 'v coro_return" where
  "coro_result ec d r =
    (if \<not> ec then (case eo_get r of Inl e \<Rightarrow> Coro_throws e | Inr v \<Rightarrow> Coro_returns v None)
     else Coro_returns (eo_value_or d r) (Some (if \<not> eo_ok r then eo_error r else no_error)))"

text \<open>The \<open>ErrorOr\<close> that a completion token is given\<close>

definition completion_value :: "user_value \<Rightarrow> user_value \<Rightarrow> user_value error_or" where
  "completion_value d v = (case v of Failed_with e \<Rightarrow> eo_of_error d e | _ \<Rightarrow> eo_of_value v)"

definition default_session_info :: session_info where
  "default_session_info =
    \<lparr>info_message = make_message W_welcome [id_variant 0, id_variant 0, V_object []], info_realm = ''''\<rparr>"

subsection \<open>The operations\<close>

definition coro_checked ::
    "session_state \<Rightarrow> 'u session_call \<Rightarrow> 'u session \<Rightarrow> 'u session \<times> 'u session_effect list" where
  "coro_checked expected call s =
    (case logic_check (client_state (s_client s) = expected) call of
       None \<Rightarrow> (s, [Threw_logic call])
     | Some c \<Rightarrow> session_step s (Calls False c))"

definition coro_connect :: "'u \<Rightarrow> 'u session \<Rightarrow> 'u session \<times> 'u session_effect list" where
  "coro_connect h s = coro_checked Disconnected (Connect_legacy h) s"

definition coro_connect_yield :: "'k \<Rightarrow> bool \<Rightarrow> 'k completion session \<Rightarrow> 'k completion session \<times> 'k completion session_effect list" where
  "coro_connect_yield k ec s = coro_connect (Coroutine k ec (Connected 0)) s"

definition coro_join :: "realm \<Rightarrow> 'u \<Rightarrow> 'u session \<Rightarrow> 'u session \<times> 'u session_effect list" where
  "coro_join r h s = coro_checked Closed (Join r h) s"

definition coro_join_yield ::
    "realm \<Rightarrow> 'k \<Rightarrow> bool \<Rightarrow> 'k completion session \<Rightarrow> 'k completion session \<times> 'k completion session_effect list" where
  "coro_join_yield r k ec s = coro_join r (Coroutine k ec (Welcomed default_session_info)) s"

definition coro_authenticate :: "wamp_message \<Rightarrow> 'u session \<Rightarrow> 'u session \<times> 'u session_effect list" where
  "coro_authenticate auth s = coro_checked Authenticating (Authenticate auth) s"

definition coro_leave_default :: "'u \<Rightarrow> 'u session \<Rightarrow> 'u session \<times> 'u session_effect list" where
  "coro_leave_default h s = coro_checked Established (Leave_default h) s"

definition coro_leave_default_yield ::
    "'k \<Rightarrow> bool \<Rightarrow> 'k completion session \<Rightarrow> 'k completion session \<times> 'k completion session_effect list" where
  "coro_leave_default_yield k ec s = coro_leave_default (Coroutine k ec (Left_with (reason_message ''''))) s"

definition coro_leave :: "wamp_message \<Rightarrow> 'u \<Rightarrow> 'u session \<Rightarrow> 'u session \<times> 'u session_effect list" where
  "coro_leave reason h s = coro_checked Established (Leave reason h) s"

definition coro_leave_yield ::
    "wamp_message \<Rightarrow> 'k \<Rightarrow> bool \<Rightarrow> 'k completion session \<Rightarrow> 'k completion session \<times> 'k completion session_effect list" where
  "coro_leave_yield reason k ec s = coro_leave reason (Coroutine k ec (Left_with (reason_message ''''))) s"

definition coro_subscribe :: "wamp_message \<Rightarrow> 'u \<Rightarrow> 'u \<Rightarrow> 'u session \<Rightarrow> 'u session \<times> 'u session_effect list" where
  "coro_subscribe topic slot h s = coro_checked Established (Subscribe topic slot h) s"

definition coro_subscribe_yield ::
    "wamp_message \<Rightarrow> 'k completion \<Rightarrow> 'k \<Rightarrow> bool \<Rightarrow> 'k completion session \<Rightarrow>
     'k completion session \<times> 'k completion session_effect list" where
  "coro_subscribe_yield topic slot k ec s =
    coro_subscribe topic slot
      (Coroutine k ec (Subscribed (sub_id empty_subscription) (sub_slot empty_subscription))) s"

definition coro_unsubscribe :: "subscription \<Rightarrow> 'u session \<Rightarrow> 'u session \<times> 'u session_effect list" where
  "coro_unsubscribe sub s = session_step s (Calls False (Unsubscribe sub))"

definition coro_unsubscribe_with :: "subscription \<Rightarrow> 'u \<Rightarrow> 'u session \<Rightarrow> 'u session \<times> 'u session_effect list" where
  "coro_unsubscribe_with sub h s = coro_checked Established (Unsubscribe_with sub h) s"

definition coro_unsubscribe_yield ::
    "subscription \<Rightarrow> 'k \<Rightarrow> bool \<Rightarrow> 'k completion session \<Rightarrow> 'k completion session \<times> 'k completion session_effect list" where
  "coro_unsubscribe_yield sub k ec s = coro_unsubscribe_with sub (Coroutine k ec (Was_removed False)) s"

definition coro_publish :: "wamp_message \<Rightarrow> 'u session \<Rightarrow> 'u session \<times> 'u session_effect list" where
  "coro_publish pub s = coro_checked Established (Publish pub) s"

definition coro_publish_with :: "wamp_message \<Rightarrow> 'u \<Rightarrow> 'u session \<Rightarrow> 'u session \<times> 'u session_effect list" where
  "coro_publish_with pub h s = coro_checked Established (Publish_with pub h) s"

definition coro_publish_yield ::
    "wamp_message \<Rightarrow> 'k \<Rightarrow> bool \<Rightarrow> 'k completion session \<Rightarrow> 'k completion session \<times> 'k completion session_effect list" where
  "coro_publish_yield pub k ec s = coro_publish_with pub (Coroutine k ec (Published 0)) s"

definition coro_enroll :: "wamp_message \<Rightarrow> 'u \<Rightarrow> 'u \<Rightarrow> 'u session \<Rightarrow> 'u session \<times> 'u session_effect list" where
  "coro_enroll procedure slot h s = coro_checked Established (Enroll procedure slot h) s"

definition coro_enroll_yield ::
    "wamp_message \<Rightarrow> 'k completion \<Rightarrow> 'k \<Rightarrow> bool \<Rightarrow> 'k completion session \<Rightarrow>
     'k completion session \<times> 'k completion session_effect list" where
  "coro_enroll_yield procedure slot k ec s =
    coro_enroll procedure slot (Coroutine k ec (Registered (reg_id empty_registration))) s"

definition coro_enroll_interruptible ::
    "wamp_message \<Rightarrow> 'u \<Rightarrow> 'u \<Rightarrow> 'u \<Rightarrow> 'u session \<Rightarrow> 'u session \<times> 'u session_effect list" where
  "coro_enroll_interruptible procedure call_slot interrupt_slot h s =
    coro_checked Established (Enroll_interruptible procedure call_slot interrupt_slot h) s"

definition coro_enroll_interruptible_yield ::
    "wamp_message \<Rightarrow> 'k completion \<Rightarrow> 'k completion \<Rightarrow> 'k \<Rightarrow> bool \<Rightarrow> 'k completion session \<Rightarrow>
     'k completion session \<times> 'k completion session_effect list" where
  "coro_enroll_interruptible_yield procedure call_slot interrupt_slot k ec s =
    coro_enroll_interruptible procedure call_slot interrupt_slot
      (Coroutine k ec (Registered (reg_id empty_registration))) s"

definition coro_unregister :: "registration \<Rightarrow> 'u session \<Rightarrow> 'u session \<times> 'u session_effect list" where
  "coro_unregister reg s = session_step s (Calls False (Unregister reg))"

definition coro_unregister_with :: "registration \<Rightarrow> 'u \<Rightarrow> 'u session \<Rightarrow> 'u session \<times> 'u session_effect list" where
  "coro_unregister_with reg h s = coro_checked Established (Unregister_with reg h) s"

definition coro_unregister_yield ::
    "registration \<Rightarrow> 'k \<Rightarrow> bool \<Rightarrow> 'k completion session \<Rightarrow> 'k completion session \<times> 'k completion session_effect list" where
  "coro_unregister_yield reg k ec s = coro_unregister_with reg (Coroutine k ec (Was_removed False)) s"

text \<open>With a callback, \<open>call\<close> has a chit and returns its request ID.\<close>

primrec chit_id :: "request_id \<Rightarrow> 'u session_effect list \<Rightarrow> request_id" where
  "chit_id i [] = i"
| "chit_id i (x # xs) =
     chit_id (case x of
        Did (Chit_written None) \<Rightarrow> chit_request empty_chit
      | Did (Chit_written (Some (j, mode))) \<Rightarrow> j
      | _ \<Rightarrow> i) xs"

definition coro_call ::
    "rpc \<Rightarrow> bool \<Rightarrow> int \<Rightarrow> 'u \<Rightarrow> 'u session \<Rightarrow> request_id \<times> 'u session \<times> 'u session_effect list" where
  "coro_call r cancellable now h s =
    (let (s1, out) = coro_checked Established (Call r True cancellable now h) s
     in (chit_id (chit_request empty_chit) out, s1, out))"

definition coro_call_yield ::
    "rpc \<Rightarrow> bool \<Rightarrow> int \<Rightarrow> 'k \<Rightarrow> bool \<Rightarrow> 'k completion session \<Rightarrow>
     'k completion session \<times> 'k completion session_effect list" where
  "coro_call_yield r cancellable now k ec s =
    coro_checked Established
      (Call r False cancellable now (Coroutine k ec (Got_result (result_message [])))) s"

datatype 'k coro_op =
    Co_connect 'k
  | Co_connect_yield 'k bool
  | Co_join realm 'k
  | Co_join_yield realm 'k bool
  | Co_authenticate wamp_message
  | Co_leave_default 'k
  | Co_leave_default_yield 'k bool
  | Co_leave wamp_message 'k
  | Co_leave_yield wamp_message 'k bool
  | Co_subscribe wamp_message "'k completion" 'k
  | Co_subscribe_yield wamp_message "'k completion" 'k bool
  | Co_unsubscribe subscription
  | Co_unsubscribe_with subscription 'k
  | Co_unsubscribe_yield subscription 'k bool
  | Co_publish wamp_message
  | Co_publish_with wamp_message 'k
  | Co_publish_yield wamp_message 'k bool
  | Co_enroll wamp_message "'k completion" 'k
  | Co_enroll_yield wamp_message "'k completion" 'k bool
  | Co_enroll_interruptible wamp_message "'k completion" "'k completion" 'k
  | Co_enroll_interruptible_yield wamp_message "'k completion" "'k completion" 'k bool
  | Co_unregister registration
  | Co_unregister_with registration 'k
  | Co_unregister_yield registration 'k bool
  | Co_call rpc bool int 'k
  | Co_call_yield rpc bool int 'k bool

primrec coro_step ::
    "'k completion session \<Rightarrow> 'k coro_op \<Rightarrow> 'k completion session \<times> 'k completion session_effect list" where
  "coro_step s (Co_connect k) = coro_connect (Callback k) s"
| "coro_step s (Co_connect_yield k ec) = coro_connect_yield k ec s"
| "coro_step s (Co_join r k) = coro_join r (Callback k) s"
| "coro_step s (Co_join_yield r k ec) = coro_join_yield r k ec s"
| "coro_step s (Co_authenticate auth) = coro_authenticate auth s"
| "coro_step s (Co_leave_default k) = coro_leave_default (Callback k) s"
| "coro_step s (Co_leave_default_yield k ec) = coro_leave_default_yield k ec s"
| "coro_step s (Co_leave m k) = coro_leave m (Callback k) s"
| "coro_step s (Co_leave_yield m k ec) = coro_leave_yield m k ec s"
| "coro_step s (Co_subscribe m slot k) = coro_subscribe m slot (Callback k) s"
| "coro_step s (Co_subscribe_yield m slot k ec) = coro_subscribe_yield m slot k ec s"
| "coro_step s (Co_unsubscribe sub) = coro_unsubscribe sub s"
| "coro_step s (Co_unsubscribe_with sub k) = coro_unsubscribe_with sub (Callback k) s"
| "coro_step s (Co_unsubscribe_yield sub k ec) = coro_unsubscribe_yield sub k ec s"
| "coro_step s (Co_publish m) = coro_publish m s"
| "coro_step s (Co_publish_with m k) = coro_publish_with m (Callback k) s"
| "coro_step s (Co_publish_yield m k ec) = coro_publish_yield m k ec s"
| "coro_step s (Co_enroll m slot k) = coro_enroll m slot (Callback k) s"
| "coro_step s (Co_enroll_yield m slot k ec) = coro_enroll_yield m slot k ec s"
| "coro_step s (Co_enroll_interruptible m cs is k) = coro_enroll_interruptible m cs is (Callback k) s"
| "coro_step s (Co_enroll_interruptible_yield m cs is k ec) = coro_enroll_interruptible_yield m cs is k ec s"
| "coro_step s (Co_unregister reg) = coro_unregister reg s"
| "coro_step s (Co_unregister_with reg k) = coro_unregister_with reg (Callback k) s"
| "coro_step s (Co_unregister_yield reg k ec) = coro_unregister_yield reg k ec s"
| "coro_step s (Co_call r canc now k) = snd (coro_call r canc now (Callback k) s)"
| "coro_step s (Co_call_yield r canc now k ec) = coro_call_yield r canc now k ec s"

lemmas coro_ops = coro_connect_def coro_connect_yield_def coro_join_def coro_join_yield_def coro_authenticate_def
  coro_leave_default_def coro_leave_default_yield_def coro_leave_def coro_leave_yield_def coro_subscribe_def
  coro_subscribe_yield_def coro_unsubscribe_def coro_unsubscribe_with_def coro_unsubscribe_yield_def
  coro_publish_def coro_publish_with_def coro_publish_yield_def coro_enroll_def coro_enroll_yield_def
  coro_enroll_interruptible_def coro_enroll_interruptible_yield_def coro_unregister_def coro_unregister_with_def
  coro_unregister_yield_def coro_call_def coro_call_yield_def

subsection \<open>Errors are thrown, not handed out, before an operation returns\<close>

text \<open>Calls of a completion or challenge handler with an error\<close>

fun gives_error :: "'u client_effect \<Rightarrow> bool" where
  "gives_error (User_posted h (Failed_with e)) = True"
| "gives_error (User_dispatched h (Failed_with e)) = True"
| "gives_error (User_called h (Failed_with e)) = True"
| "gives_error _ = False"

text \<open>What the peer does without giving anything to a handler or to the client\<close>

fun no_reply :: "'h peer_effect \<Rightarrow> bool" where
  "no_reply (Call_handler h m) = False"
| "no_reply (Call_kept h m) = False"
| "no_reply (Inbound_message m) = False"
| "no_reply _ = True"

definition gives_no_error :: "'u client_effect list \<Rightarrow> bool" where
  "gives_no_error xs = list_all (\<lambda>x. \<not> gives_error x) xs"

lemma gives_no_error_simps [simp]:
  "gives_no_error []" "gives_no_error (x # xs) \<longleftrightarrow> \<not> gives_error x \<and> gives_no_error xs"
  "gives_no_error (xs @ ys) \<longleftrightarrow> gives_no_error xs \<and> gives_no_error ys"
  by (simp_all add: gives_no_error_def)

lemma gives_no_error_map [simp]: "gives_no_error (map Peer_did xs)" "gives_no_error (map Timer_did ts)"
  by (simp_all add: gives_no_error_def list_all_iff)

lemma perform_no_reply: "no_reply x \<Longrightarrow> gives_no_error (snd (perform x c))"
  by (cases x) simp_all

lemma and_then_no_error:
  "gives_no_error (snd r) \<Longrightarrow> (\<And>c. gives_no_error (snd (f c))) \<Longrightarrow> gives_no_error (snd (and_then r f))"
  by (cases r) (simp add: and_then_def Let_def case_prod_beta)

lemma perform_all_no_reply: "list_all no_reply xs \<Longrightarrow> gives_no_error (snd (perform_all xs c))"
  by (induction xs arbitrary: c) (simp_all add: and_then_no_error perform_no_reply)

lemma with_peer_no_reply: "(\<And>p. list_all no_reply (snd (f p))) \<Longrightarrow> gives_no_error (snd (with_peer f c))"
  by (simp add: with_peer_def case_prod_beta Let_def perform_all_no_reply)

lemma ask_peer_no_reply: "(\<And>p. list_all no_reply (snd (snd (f p)))) \<Longrightarrow> gives_no_error (snd (snd (ask_peer f c)))"
  by (simp add: ask_peer_def case_prod_beta Let_def perform_all_no_reply)

lemma and_then_no_reply:
  "list_all no_reply (snd r) \<Longrightarrow> (\<And>c. list_all no_reply (snd (f c))) \<Longrightarrow> list_all no_reply (snd (and_then r f))"
  by (cases r) (simp add: and_then_def Let_def case_prod_beta)

lemma no_reply_basic [simp]:
  "list_all no_reply (check_that b)" "list_all no_reply (log_effects p l t e)" "list_all no_reply (trace_tx m p)"
  "list_all no_reply (hand_to_transport buffer p)" "list_all no_reply (snd (set_state st p))"
  by (auto simp: check_that_def log_effects_def trace_tx_def trace_effects_def hand_to_transport_def set_state_def
      list_all_iff Let_def)

lemma no_reply_requests [simp]:
  "list_all no_reply (snd (snd (send_request get upd hof m h p)))"
  "list_all no_reply (snd (snd (request m r q)))"
  "list_all no_reply (snd (snd (request_pending m pend q)))"
  "list_all no_reply (snd (snd (send m q)))"
  by (auto simp: send_request_def request_def request_pending_def send_def send_message_def Let_def case_prod_beta
      split: option.splits)

lemma no_reply_start [simp]: "list_all no_reply (snd (start p))"
  by (auto simp: start_def Let_def intro!: and_then_no_reply split: option.splits)

lemma no_reply_adjourn [simp]: "list_all no_reply (snd (adjourn m h p))"
  by (simp add: adjourn_def and_then_no_reply)

lemma check_state_met: "client_state c = st \<Longrightarrow> check_state st h r c = r"
  by (simp add: check_state_def)

lemma no_error_do_connect: "at_index a < length (at_wishes a) \<Longrightarrow> gives_no_error (snd (do_connect a c))"
  by (simp add: do_connect_def)

lemma no_error_connect:
  "client_state c = Disconnected \<Longrightarrow> wishes \<noteq> [] \<Longrightarrow> gives_no_error (snd (connect wishes h c))"
  by (simp add: connect_def and_then_def check_state_met case_prod_beta Let_def do_connect_def with_peer_no_reply)

lemma no_error_join: "client_state c = Closed \<Longrightarrow> gives_no_error (snd (join r h c))"
  by (auto simp: join_def check_state_met request_by_def Let_def intro!: and_then_no_error with_peer_no_reply ask_peer_no_reply)

lemma no_error_scheduler: "gives_no_error (snd (on_scheduler f c))"
  by (simp add: on_scheduler_def case_prod_beta Let_def)

lemma no_error_request_by: "gives_no_error (snd (request_by m req c))"
  by (simp add: request_by_def ask_peer_no_reply)

lemma no_error_leave: "client_state c = Established \<Longrightarrow> gives_no_error (snd (leave m h c))"
  by (auto simp: leave_def check_state_met intro!: and_then_no_error no_error_scheduler with_peer_no_reply)

lemma no_error_post: "\<not> (\<exists>e. v = Failed_with e) \<Longrightarrow> gives_no_error (post_user h v c)"
  by (cases v) (simp_all add: post_user_def)

lemma no_error_subscribe: "client_state c = Established \<Longrightarrow> gives_no_error (snd (subscribe m slot h c))"
  by (auto simp: subscribe_def check_state_met no_error_request_by no_error_post Let_def case_prod_beta
      split: option.splits)

lemma remove_slot_state: "remove_slot sub slot c = Some (b, c') \<Longrightarrow> client_state c' = client_state c"
  by (auto simp: remove_slot_def client_state_def Let_def split: option.splits if_splits)

lemma no_error_unsubscribe: "gives_no_error (snd (unsubscribe sub slot c))"
  by (auto simp: unsubscribe_def send_unsubscribe_def no_error_request_by split: option.splits)

lemma no_error_unsubscribe_with:
  "client_state c = Established \<Longrightarrow> gives_no_error (snd (unsubscribe_with sub slot h c))"
  by (auto simp: unsubscribe_with_def send_unsubscribe_with_def no_error_request_by no_error_post check_state_met
      dest!: remove_slot_state split: option.splits)

lemma no_error_publish: "client_state c = Established \<Longrightarrow> gives_no_error (snd (snd (publish m c)))"
  by (simp add: publish_def ask_peer_no_reply)

lemma no_error_publish_with: "client_state c = Established \<Longrightarrow> gives_no_error (snd (publish_with m h c))"
  by (simp add: publish_with_def check_state_met no_error_request_by)

lemma no_error_enroll: "client_state c = Established \<Longrightarrow> gives_no_error (snd (enroll m cs is h c))"
  by (simp add: enroll_def check_state_met no_error_request_by)

lemma client_state_registry [simp]: "client_state (c\<lparr>c_registry := x\<rparr>) = client_state c"
  by (simp add: client_state_def)

lemma no_error_unregister: "gives_no_error (snd (unregister reg c))"
  by (simp add: unregister_def no_error_request_by Let_def split: option.splits)

lemma no_error_unregister_with:
  "client_state c = Established \<Longrightarrow> gives_no_error (snd (unregister_with reg h c))"
  by (auto simp: unregister_with_def check_state_met no_error_request_by no_error_post Let_def split: option.splits)

lemma and_then_emitting: "and_then (c, xs) f = (fst (f c), xs @ snd (f c))"
  by (simp add: and_then_def case_prod_beta Let_def)

lemma no_error_call: "client_state c = Established \<Longrightarrow> gives_no_error (snd (one_shot_call r chit canc now h c))"
  by (auto simp: one_shot_call_def and_then_emitting check_state_met arm_call_def emit_def case_prod_beta Let_def
      intro!: and_then_no_error no_error_scheduler ask_peer_no_reply)

lemma no_error_authenticate: "gives_no_error (snd (snd (authenticate m c)))"
  by (simp add: authenticate_def peer_sends_def case_prod_beta Let_def)

text \<open>The state that an operation needs, and what it calls on the session\<close>

primrec needed_state :: "'k coro_op \<Rightarrow> session_state option" where
  "needed_state (Co_connect k) = Some Disconnected"
| "needed_state (Co_connect_yield k ec) = Some Disconnected"
| "needed_state (Co_join r k) = Some Closed"
| "needed_state (Co_join_yield r k ec) = Some Closed"
| "needed_state (Co_authenticate auth) = Some Authenticating"
| "needed_state (Co_leave_default k) = Some Established"
| "needed_state (Co_leave_default_yield k ec) = Some Established"
| "needed_state (Co_leave m k) = Some Established"
| "needed_state (Co_leave_yield m k ec) = Some Established"
| "needed_state (Co_subscribe m slot k) = Some Established"
| "needed_state (Co_subscribe_yield m slot k ec) = Some Established"
| "needed_state (Co_unsubscribe sub) = None"
| "needed_state (Co_unsubscribe_with sub k) = Some Established"
| "needed_state (Co_unsubscribe_yield sub k ec) = Some Established"
| "needed_state (Co_publish m) = Some Established"
| "needed_state (Co_publish_with m k) = Some Established"
| "needed_state (Co_publish_yield m k ec) = Some Established"
| "needed_state (Co_enroll m slot k) = Some Established"
| "needed_state (Co_enroll_yield m slot k ec) = Some Established"
| "needed_state (Co_enroll_interruptible m cs is k) = Some Established"
| "needed_state (Co_enroll_interruptible_yield m cs is k ec) = Some Established"
| "needed_state (Co_unregister reg) = None"
| "needed_state (Co_unregister_with reg k) = Some Established"
| "needed_state (Co_unregister_yield reg k ec) = Some Established"
| "needed_state (Co_call r canc now k) = Some Established"
| "needed_state (Co_call_yield r canc now k ec) = Some Established"

primrec underlying_call :: "'k coro_op \<Rightarrow> 'k completion session_call" where
  "underlying_call (Co_connect k) = Connect_legacy (Callback k)"
| "underlying_call (Co_connect_yield k ec) = Connect_legacy (Coroutine k ec (Connected 0))"
| "underlying_call (Co_join r k) = Join r (Callback k)"
| "underlying_call (Co_join_yield r k ec) = Join r (Coroutine k ec (Welcomed default_session_info))"
| "underlying_call (Co_authenticate auth) = Authenticate auth"
| "underlying_call (Co_leave_default k) = Leave_default (Callback k)"
| "underlying_call (Co_leave_default_yield k ec) = Leave_default (Coroutine k ec (Left_with (reason_message '''')))"
| "underlying_call (Co_leave m k) = Leave m (Callback k)"
| "underlying_call (Co_leave_yield m k ec) = Leave m (Coroutine k ec (Left_with (reason_message '''')))"
| "underlying_call (Co_subscribe m slot k) = Subscribe m slot (Callback k)"
| "underlying_call (Co_subscribe_yield m slot k ec) =
     Subscribe m slot (Coroutine k ec (Subscribed (sub_id empty_subscription) (sub_slot empty_subscription)))"
| "underlying_call (Co_unsubscribe sub) = Unsubscribe sub"
| "underlying_call (Co_unsubscribe_with sub k) = Unsubscribe_with sub (Callback k)"
| "underlying_call (Co_unsubscribe_yield sub k ec) = Unsubscribe_with sub (Coroutine k ec (Was_removed False))"
| "underlying_call (Co_publish m) = Publish m"
| "underlying_call (Co_publish_with m k) = Publish_with m (Callback k)"
| "underlying_call (Co_publish_yield m k ec) = Publish_with m (Coroutine k ec (Published 0))"
| "underlying_call (Co_enroll m slot k) = Enroll m slot (Callback k)"
| "underlying_call (Co_enroll_yield m slot k ec) =
     Enroll m slot (Coroutine k ec (Registered (reg_id empty_registration)))"
| "underlying_call (Co_enroll_interruptible m cs is k) = Enroll_interruptible m cs is (Callback k)"
| "underlying_call (Co_enroll_interruptible_yield m cs is k ec) =
     Enroll_interruptible m cs is (Coroutine k ec (Registered (reg_id empty_registration)))"
| "underlying_call (Co_unregister reg) = Unregister reg"
| "underlying_call (Co_unregister_with reg k) = Unregister_with reg (Callback k)"
| "underlying_call (Co_unregister_yield reg k ec) = Unregister_with reg (Coroutine k ec (Was_removed False))"
| "underlying_call (Co_call r canc now k) = Call r True canc now (Callback k)"
| "underlying_call (Co_call_yield r canc now k ec) = Call r False canc now (Coroutine k ec (Got_result (result_message [])))"

definition refused :: "'k completion session \<Rightarrow> 'k coro_op \<Rightarrow> bool" where
  "refused s op \<longleftrightarrow> needed_state op \<notin> {None, Some (client_state (s_client s))} \<or>
     session_request (s_legacy s) (underlying_call op) = None"

lemma coro_step_refused: "refused s op \<Longrightarrow> coro_step s op = (s, [Threw_logic (underlying_call op)])"
  by (cases op) (auto simp: coro_ops coro_checked_def refused_def logic_check_def session_step_def)

lemma coro_step_accepted: "\<not> refused s op \<Longrightarrow> coro_step s op = session_step s (Calls False (underlying_call op))"
  by (cases op) (auto simp: coro_ops coro_checked_def refused_def logic_check_def case_prod_beta Let_def)

lemmas no_errors = no_error_connect no_error_join no_error_authenticate no_error_leave no_error_subscribe
  no_error_unsubscribe no_error_unsubscribe_with no_error_publish no_error_publish_with no_error_enroll
  no_error_unregister no_error_unregister_with no_error_call

lemma accepted_gives_no_error:
  assumes "session_request legacy (underlying_call op) = Some e"
    and "needed_state op \<in> {None, Some (client_state c)}"
  shows "gives_no_error (snd (client_step c e))"
  using assms by (cases op) (auto simp: session_ops logic_check_def no_errors split: if_splits)

text \<open>
  C15: An operation of a \<open>CoroSession\<close> that the state of the session or its arguments do not allow
  throws and changes nothing.  Any other has been let through to the client, and until it returns no
  handler is given an error: neither \<open>invalidState\<close>, which \<open>Session\<close> would give, nor another one.
\<close>

theorem coro_errors_thrown:
  "if refused s op then coro_step s op = (s, [Threw_logic (underlying_call op)])
   else \<exists>xs. snd (coro_step s op) = map Did xs \<and> list_all (\<lambda>x. \<not> gives_error x) xs"
proof (cases "refused s op")
  case True
  then show ?thesis by (simp add: coro_step_refused)
next
  case False
  then obtain e where e: "session_request (s_legacy s) (underlying_call op) = Some e"
    and state: "needed_state op \<in> {None, Some (client_state (s_client s))}"
    by (auto simp: refused_def)
  have "snd (coro_step s op) = map Did (snd (client_step (s_client s) e))"
    using coro_step_accepted [OF False] e by (simp add: session_step_def run_event_def case_prod_beta Let_def)
  with accepted_gives_no_error [OF e state] False show ?thesis by (auto simp: gives_no_error_def)
qed

subsection \<open>Every coroutine is resumed once\<close>

text \<open>A coroutine session is used through its own operations, those it inherits, and the events of its strand.\<close>

datatype 'k coro_input = Coro_op "'k coro_op" | Inherited "'k completion session_input"

definition coro_session_step ::
    "'k completion session \<Rightarrow> 'k coro_input \<Rightarrow> 'k completion session \<times> 'k completion session_effect list" where
  "coro_session_step s x = (case x of Coro_op op \<Rightarrow> coro_step s op | Inherited y \<Rightarrow> session_step s y)"

text \<open>How a completion resumes a coroutine\<close>

definition resumes :: "'k completion \<Rightarrow> user_value \<Rightarrow> ('k \<times> user_value coro_return) option" where
  "resumes c v =
    (case c of
       Callback k \<Rightarrow> None
     | Coroutine k ec d \<Rightarrow> Some (k, coro_result ec d (completion_value d v)))"

fun resumption :: "'k completion session_effect \<Rightarrow> ('k \<times> user_value coro_return) option" where
  "resumption (Did (User_posted c v)) = resumes c v"
| "resumption (Did (User_dispatched c v)) = resumes c v"
| "resumption _ = None"

lemma coro_result_cases:
  "coro_result ec d (completion_value d v) =
     (case v of
        Failed_with e \<Rightarrow> if ec then Coro_returns d (Some e) else Coro_throws e
      | _ \<Rightarrow> Coro_returns v (if ec then Some no_error else None))"
  by (cases v) (simp_all add: coro_result_def completion_value_def eo_get_def eo_check_def eo_of_error_def
      eo_of_value_def eo_value_or_def eo_ok_def)

definition coro_typed :: "'k coro_input \<Rightarrow> bool" where
  "coro_typed x = (case x of Coro_op op \<Rightarrow> call_typed (underlying_call op) | Inherited y \<Rightarrow> input_typed y)"

definition coro_users :: "'k coro_input \<Rightarrow> 'k completion multiset" where
  "coro_users x = (case x of Coro_op op \<Rightarrow> call_users (underlying_call op) | Inherited y \<Rightarrow> input_users y)"

lemma coro_step_accounts:
  assumes "session_ok s" and "coro_typed x"
  shows "session_ok (fst (coro_session_step s x)) \<and>
    session_waiting (fst (coro_session_step s x)) + session_disposed (snd (coro_session_step s x)) =
      session_waiting s + coro_users x"
proof (cases x)
  case (Coro_op op)
  show ?thesis
  proof (cases "refused s op")
    case True
    with assms(1) Coro_op show ?thesis by (simp add: coro_session_step_def coro_step_refused coro_users_def)
  next
    case False
    with session_step_accounts [OF assms(1), of "Calls False (underlying_call op)"] assms(2) Coro_op show ?thesis
      by (simp add: coro_session_step_def coro_step_accepted coro_users_def coro_typed_def)
  qed
next
  case (Inherited y)
  with session_step_accounts [OF assms(1), of y] assms(2) show ?thesis
    by (simp add: coro_session_step_def coro_users_def coro_typed_def)
qed

definition typed_coro_step ::
    "'k completion session \<Rightarrow> 'k coro_input \<Rightarrow> 'k completion session \<times> 'k completion session_effect list" where
  "typed_coro_step s x = (if coro_typed x then coro_session_step s x else (s, []))"

definition typed_coro_users :: "'k completion session \<Rightarrow> 'k coro_input \<Rightarrow> 'k completion multiset" where
  "typed_coro_users s x = (if coro_typed x then coro_users x else {#})"

interpretation coro_handlers: machine_conservation typed_coro_step session_ok session_waiting typed_coro_users
    session_disposed
  by unfold_locales (use coro_step_accounts in \<open>auto simp: typed_coro_step_def typed_coro_users_def\<close>)

lemma typed_coro_run:
  "list_all coro_typed xs \<Longrightarrow> run_machine typed_coro_step s xs = run_machine coro_session_step s xs \<and>
     coro_handlers.brought_by_run s xs = (\<Sum>x \<leftarrow> xs. coro_users x)"
  by (induction xs arbitrary: s) (simp_all add: typed_coro_step_def typed_coro_users_def Let_def case_prod_beta)

text \<open>The coroutines among completions\<close>

primrec coroutine_name :: "'k completion \<Rightarrow> 'k multiset" where
  "coroutine_name (Callback k) = {#}"
| "coroutine_name (Coroutine k ec d) = {#k#}"

definition coroutines :: "'k completion multiset \<Rightarrow> 'k multiset" where
  "coroutines M = sum_mset (image_mset coroutine_name M)"

lemma coroutines_simps [simp]:
  "coroutines {#} = {#}" "coroutines (add_mset c M) = coroutine_name c + coroutines M"
  "coroutines (M + N) = coroutines M + coroutines N"
  by (simp_all add: coroutines_def)

lemma resumed_disposed:
  "mset (map fst (List.map_filter resumption ys)) \<subseteq># coroutines (session_disposed ys)"
proof (induction ys)
  case Nil
  then show ?case by (simp add: List.map_filter_simps)
next
  case (Cons y ys)
  have "mset (map fst (case resumption y of None \<Rightarrow> [] | Some r \<Rightarrow> [r])) \<subseteq># coroutines (session_disposes y)"
    by (induction y rule: resumption.induct) (auto simp: resumes_def split: completion.splits)
  from subset_mset.add_mono [OF this Cons.IH] show ?case
    by (cases "resumption y") (simp_all add: List.map_filter_simps)
qed

text \<open>
  However the operations of a \<open>CoroSession\<close> interleave with inherited ones and with events, the
  coroutines that wait and those that have been resumed are among those that were started, each
  counted as often as it was; and each completion waits, or was disposed of exactly once.
\<close>

theorem coroutines_resumed_once:
  assumes "list_all coro_typed xs" and "run_machine coro_session_step (init_session k legacy) xs = (s, ys)"
  shows "coroutines (session_waiting s) + mset (map fst (List.map_filter resumption ys)) \<subseteq>#
      coroutines (\<Sum>x \<leftarrow> xs. coro_users x) \<and>
    session_waiting s + session_disposed ys = (\<Sum>x \<leftarrow> xs. coro_users x)"
proof -
  have "session_ok (init_session k legacy :: 'a completion session)"
    and "session_waiting (init_session k legacy :: 'a completion session) = {#}"
    by (simp_all add: session_ok_def init_session_def session_waiting_def client_ok_init)
  with coro_handlers.run_conserves [of "init_session k legacy" xs] typed_coro_run [OF assms(1)] assms(2)
  have total: "session_waiting s + session_disposed ys = (\<Sum>x \<leftarrow> xs. coro_users x)" by simp
  from resumed_disposed [of ys] show ?thesis unfolding total [symmetric] by simp
qed

text \<open>Coroutine 1 connects, 2 joins too early and is refused, the connection fails with no other wish.\<close>

definition sample_coroutines :: "nat coro_input list" where
  "sample_coroutines = [Coro_op (Co_connect_yield 1 True), Coro_op (Co_join_yield (make_realm ''r'') 2 False),
     Inherited (Outside (Ev_connector_done 0 (Inl (session_ec SE_cancelled))))]"

lemma sample_coroutines_typed: "list_all coro_typed sample_coroutines"
  by (simp add: sample_coroutines_def coro_typed_def make_realm_def hello_message_def make_message_def)

theorem coroutines_resumed_once_witness:
  "let r = run_machine coro_session_step (init_session sample_codec [sample_codec]) sample_coroutines
   in coroutines (session_waiting (fst r)) + mset (map fst (List.map_filter resumption (snd r))) \<subseteq># {#1, 2#}"
  using coroutines_resumed_once [OF sample_coroutines_typed, of sample_codec "[sample_codec]"]
  by (cases "run_machine coro_session_step (init_session sample_codec [sample_codec]) sample_coroutines")
    (simp add: sample_coroutines_def coro_users_def)

end
