(* ===== verification/Any_Handler.thy ===== *)
theory Any_Handler
  imports Prelude
begin

section \<open>Reusable handlers (\<open>anyhandler.hpp\<close>)\<close>

text \<open>
  \<open>AnyReusableHandler\<close> keeps a \<open>std::function\<close> with the executor and the cancellation slot that are
  associated with its target; \<open>exec_of\<close> and \<open>slot_of\<close> are what Asio associates with a target.  An empty
  function, executor or slot is \<open>None\<close>.  A function or executor that was moved from is empty; a slot
  is copied when it is moved.
\<close>

record ('f, 'e, 'c) any_handler =
  ah_executor :: "'e option"
  ah_slot :: "'c option"
  ah_function :: "'f option"

subsection \<open>Making, copying and assigning\<close>

definition ah_null :: "('f, 'e, 'c) any_handler" where
  "ah_null = \<lparr>ah_executor = None, ah_slot = None, ah_function = None\<rparr>"

definition ah_make :: "('f \<Rightarrow> 'e option) \<Rightarrow> ('f \<Rightarrow> 'c option) \<Rightarrow> 'f \<Rightarrow> ('f, 'e, 'c) any_handler" where
  "ah_make exec_of slot_of f = \<lparr>ah_executor = exec_of f, ah_slot = slot_of f, ah_function = Some f\<rparr>"

text \<open>The converting constructors, from a handler with another signature\<close>

definition ah_convert :: "('f, 'e, 'c) any_handler \<Rightarrow> ('f, 'e, 'c) any_handler" where
  "ah_convert h = \<lparr>ah_executor = ah_executor h, ah_slot = None, ah_function = ah_function h\<rparr>"

text \<open>A moved handler: the new one and what is left of the old one\<close>

definition ah_left :: "('f, 'e, 'c) any_handler \<Rightarrow> ('f, 'e, 'c) any_handler" where
  "ah_left h = h\<lparr>ah_executor := None, ah_function := None\<rparr>"

definition ah_move :: "('f, 'e, 'c) any_handler \<Rightarrow> ('f, 'e, 'c) any_handler \<times> ('f, 'e, 'c) any_handler" where
  "ah_move h = (h, ah_left h)"

definition ah_convert_move ::
    "('f, 'e, 'c) any_handler \<Rightarrow> ('f, 'e, 'c) any_handler \<times> ('f, 'e, 'c) any_handler" where
  "ah_convert_move h = (ah_convert h, ah_left h)"

definition ah_assign_null :: "('f, 'e, 'c) any_handler \<Rightarrow> ('f, 'e, 'c) any_handler" where
  "ah_assign_null h = h\<lparr>ah_executor := None, ah_function := None\<rparr>"

definition ah_swap ::
    "('f, 'e, 'c) any_handler \<Rightarrow> ('f, 'e, 'c) any_handler \<Rightarrow> ('f, 'e, 'c) any_handler \<times> ('f, 'e, 'c) any_handler" where
  "ah_swap h k =
    (h\<lparr>ah_executor := ah_executor k, ah_function := ah_function k\<rparr>,
     k\<lparr>ah_executor := ah_executor h, ah_function := ah_function h\<rparr>)"

definition ah_bool :: "('f, 'e, 'c) any_handler \<Rightarrow> bool" where
  "ah_bool h \<longleftrightarrow> ah_function h \<noteq> None"

definition ah_equals_null :: "('f, 'e, 'c) any_handler \<Rightarrow> bool" where
  "ah_equals_null h \<longleftrightarrow> \<not> ah_bool h"

definition ah_differs_from_null :: "('f, 'e, 'c) any_handler \<Rightarrow> bool" where
  "ah_differs_from_null h \<longleftrightarrow> ah_bool h"

subsection \<open>Launching\<close>

text \<open>\<open>associated_executor\<close> and \<open>associated_cancellation_slot\<close> for handlers\<close>

definition ah_associated_executor :: "'e \<Rightarrow> ('f, 'e, 'c) any_handler \<Rightarrow> 'e" where
  "ah_associated_executor fallback h = (case ah_executor h of Some e \<Rightarrow> e | None \<Rightarrow> fallback)"

definition ah_associated_slot :: "('f, 'e, 'c) any_handler \<Rightarrow> 'c option" where
  "ah_associated_slot h = ah_slot h"

datatype launch_mode = Dispatch | Post | Defer

text \<open>
  A function given to an executor: which, how, the executor that is used for targets without one, and
  the target; without a target the executor runs into \<open>std::bad_function_call\<close>.
\<close>

datatype ('f, 'e) launch_effect = Launched launch_mode 'e 'e 'f | Launched_empty launch_mode 'e

definition launch_via :: "launch_mode \<Rightarrow> 'e \<Rightarrow> ('f, 'e, 'c) any_handler \<Rightarrow> ('f, 'e) launch_effect list" where
  "launch_via mode fallback h =
    (let e = ah_associated_executor fallback h
     in case ah_function h of None \<Rightarrow> [Launched_empty mode e] | Some f \<Rightarrow> [Launched mode fallback e f])"

definition dispatch_via :: "'e \<Rightarrow> ('f, 'e, 'c) any_handler \<Rightarrow> ('f, 'e) launch_effect list" where
  "dispatch_via fallback h = launch_via Dispatch fallback h"

definition post_via :: "'e \<Rightarrow> ('f, 'e, 'c) any_handler \<Rightarrow> ('f, 'e) launch_effect list" where
  "post_via fallback h = launch_via Post fallback h"

definition defer_via :: "'e \<Rightarrow> ('f, 'e, 'c) any_handler \<Rightarrow> ('f, 'e) launch_effect list" where
  "defer_via fallback h = launch_via Defer fallback h"

text \<open>Without a fallback of its own, a handler is run by the system executor of Asio.\<close>

definition dispatch_any :: "'e \<Rightarrow> ('f, 'e, 'c) any_handler \<Rightarrow> ('f, 'e) launch_effect list" where
  "dispatch_any system h = launch_via Dispatch system h"

definition post_any :: "'e \<Rightarrow> ('f, 'e, 'c) any_handler \<Rightarrow> ('f, 'e) launch_effect list" where
  "post_any system h = launch_via Post system h"

definition defer_any :: "'e \<Rightarrow> ('f, 'e, 'c) any_handler \<Rightarrow> ('f, 'e) launch_effect list" where
  "defer_any system h = launch_via Defer system h"

subsection \<open>A number of handlers\<close>

datatype ('f, 'e) handler_op =
    Assign_target nat 'f
  | Assign_null nat
  | Assign_copy nat nat
  | Assign_moved nat nat
  | Assign_converted nat nat
  | Assign_converted_moved nat nat
  | Swap nat nat
  | Dispatch_via 'e nat
  | Post_via 'e nat
  | Defer_via 'e nat
  | Dispatch_any nat
  | Post_any nat
  | Defer_any nat

text \<open>The handlers that an operation names exist, and are different ones.\<close>

primrec well_named :: "nat \<Rightarrow> ('f, 'e) handler_op \<Rightarrow> bool" where
  "well_named n (Assign_target i f) \<longleftrightarrow> i < n"
| "well_named n (Assign_null i) \<longleftrightarrow> i < n"
| "well_named n (Assign_copy i j) \<longleftrightarrow> i < n \<and> j < n \<and> i \<noteq> j"
| "well_named n (Assign_moved i j) \<longleftrightarrow> i < n \<and> j < n \<and> i \<noteq> j"
| "well_named n (Assign_converted i j) \<longleftrightarrow> i < n \<and> j < n \<and> i \<noteq> j"
| "well_named n (Assign_converted_moved i j) \<longleftrightarrow> i < n \<and> j < n \<and> i \<noteq> j"
| "well_named n (Swap i j) \<longleftrightarrow> i < n \<and> j < n \<and> i \<noteq> j"
| "well_named n (Dispatch_via e i) \<longleftrightarrow> i < n"
| "well_named n (Post_via e i) \<longleftrightarrow> i < n"
| "well_named n (Defer_via e i) \<longleftrightarrow> i < n"
| "well_named n (Dispatch_any i) \<longleftrightarrow> i < n"
| "well_named n (Post_any i) \<longleftrightarrow> i < n"
| "well_named n (Defer_any i) \<longleftrightarrow> i < n"

primrec handler_act ::
    "('f \<Rightarrow> 'e option) \<Rightarrow> ('f \<Rightarrow> 'c option) \<Rightarrow> 'e \<Rightarrow> ('f, 'e, 'c) any_handler list \<Rightarrow> ('f, 'e) handler_op \<Rightarrow>
     ('f, 'e, 'c) any_handler list \<times> ('f, 'e) launch_effect list" where
  "handler_act exec_of slot_of system hs (Assign_target i f) = (hs[i := ah_make exec_of slot_of f], [])"
| "handler_act exec_of slot_of system hs (Assign_null i) = (hs[i := ah_assign_null (hs ! i)], [])"
| "handler_act exec_of slot_of system hs (Assign_copy i j) = (hs[i := hs ! j], [])"
| "handler_act exec_of slot_of system hs (Assign_moved i j) =
     (let (h, k) = ah_move (hs ! j) in (hs[i := h, j := k], []))"
| "handler_act exec_of slot_of system hs (Assign_converted i j) = (hs[i := ah_convert (hs ! j)], [])"
| "handler_act exec_of slot_of system hs (Assign_converted_moved i j) =
     (let (h, k) = ah_convert_move (hs ! j) in (hs[i := h, j := k], []))"
| "handler_act exec_of slot_of system hs (Swap i j) =
     (let (h, k) = ah_swap (hs ! i) (hs ! j) in (hs[i := h, j := k], []))"
| "handler_act exec_of slot_of system hs (Dispatch_via e i) = (hs, dispatch_via e (hs ! i))"
| "handler_act exec_of slot_of system hs (Post_via e i) = (hs, post_via e (hs ! i))"
| "handler_act exec_of slot_of system hs (Defer_via e i) = (hs, defer_via e (hs ! i))"
| "handler_act exec_of slot_of system hs (Dispatch_any i) = (hs, dispatch_any system (hs ! i))"
| "handler_act exec_of slot_of system hs (Post_any i) = (hs, post_any system (hs ! i))"
| "handler_act exec_of slot_of system hs (Defer_any i) = (hs, defer_any system (hs ! i))"

definition handler_step ::
    "('f \<Rightarrow> 'e option) \<Rightarrow> ('f \<Rightarrow> 'c option) \<Rightarrow> 'e \<Rightarrow> ('f, 'e, 'c) any_handler list \<Rightarrow> ('f, 'e) handler_op \<Rightarrow>
     ('f, 'e, 'c) any_handler list \<times> ('f, 'e) launch_effect list" where
  "handler_step exec_of slot_of system hs x =
    (if well_named (length hs) x then handler_act exec_of slot_of system hs x else (hs, []))"

subsection \<open>Where a target runs\<close>

text \<open>A handler with a target has the executor of its target.\<close>

definition executor_fits :: "('f \<Rightarrow> 'e option) \<Rightarrow> ('f, 'e, 'c) any_handler \<Rightarrow> bool" where
  "executor_fits exec_of h = (case ah_function h of None \<Rightarrow> True | Some f \<Rightarrow> ah_executor h = exec_of f)"

definition runs_on_its_own :: "('f \<Rightarrow> 'e option) \<Rightarrow> ('f, 'e) launch_effect \<Rightarrow> bool" where
  "runs_on_its_own exec_of x =
    (case x of
       Launched mode fallback e f \<Rightarrow> e = (case exec_of f of Some own \<Rightarrow> own | None \<Rightarrow> fallback)
     | Launched_empty mode e \<Rightarrow> True)"

lemma executor_fits_simps [simp]:
  "executor_fits exec_of ah_null" "executor_fits exec_of (ah_make exec_of slot_of f)"
  "executor_fits exec_of (ah_left h)" "executor_fits exec_of (ah_assign_null h)"
  "executor_fits exec_of (ah_convert h) = executor_fits exec_of h"
  by (simp_all add: executor_fits_def ah_null_def ah_make_def ah_left_def ah_assign_null_def ah_convert_def split: option.splits)

lemma executor_fits_swap:
  "executor_fits exec_of h \<Longrightarrow> executor_fits exec_of k \<Longrightarrow>
     executor_fits exec_of (fst (ah_swap h k)) \<and> executor_fits exec_of (snd (ah_swap h k))"
  by (simp add: executor_fits_def ah_swap_def split: option.splits)

lemma list_all_update: "list_all P xs \<Longrightarrow> P x \<Longrightarrow> list_all P (xs[i := x])"
  by (auto simp: list_all_iff dest!: subsetD [OF set_update_subset_insert])

lemma list_all_at: "list_all P xs \<Longrightarrow> i < length xs \<Longrightarrow> P (xs ! i)"
  by (simp add: list_all_length)

lemma handler_step_fits:
  "list_all (executor_fits exec_of) hs \<Longrightarrow> list_all (executor_fits exec_of) (fst (handler_step exec_of slot_of system hs x))"
  by (cases x) (auto simp: handler_step_def ah_move_def ah_convert_move_def Let_def case_prod_beta 
      intro!: list_all_update executor_fits_swap [THEN conjunct1] executor_fits_swap [THEN conjunct2] dest: list_all_at)

lemmas launch_defs = dispatch_via_def post_via_def defer_via_def dispatch_any_def post_any_def defer_any_def

lemma launch_via_runs: "executor_fits exec_of h \<Longrightarrow> x \<in> set (launch_via mode e h) \<Longrightarrow> runs_on_its_own exec_of x"
  by (auto simp: launch_via_def executor_fits_def runs_on_its_own_def ah_associated_executor_def Let_def split: option.splits)

lemma handler_step_runs:
  "list_all (executor_fits exec_of) hs \<Longrightarrow> x \<in> set (snd (handler_step exec_of slot_of system hs op)) \<Longrightarrow>
     runs_on_its_own exec_of x"
  by (cases op) (auto simp: handler_step_def launch_defs Let_def case_prod_beta dest: list_all_at intro: launch_via_runs
      split: if_splits)

interpretation handlers: machine_outputs "handler_step exec_of slot_of system" "list_all (executor_fits exec_of)"
    "runs_on_its_own exec_of"
  for exec_of slot_of system
  by unfold_locales (auto intro: handler_step_fits handler_step_runs)

text \<open>
  C27: However handlers are made, copied, moved, converted, swapped and reset, a target that is
  dispatched, posted or deferred runs on the executor associated with it, and on the fallback if
  it has none.
\<close>

theorem targets_run_on_their_executor:
  "list_all (runs_on_its_own exec_of) (snd (run_machine (handler_step exec_of slot_of system) (replicate n ah_null) ops))"
proof -
  have "list_all (executor_fits exec_of) (replicate n ah_null)" by (simp add: list_all_iff)
  from handlers.run_good [OF this] show ?thesis by (auto simp: list_all_iff)
qed

text \<open>
  The cancellation slot is not kept with the target as the executor is: a swap leaves the slots where
  they were, a conversion loses the slot, and an empty handler keeps it.
\<close>

lemma slots_go_astray:
  "map ah_slot (fst (run_machine (handler_step (\<lambda>f. None) Some (0::nat)) (replicate 3 ah_null)
     [Assign_target 0 (1::nat), Assign_target 1 2, Swap 0 1, Assign_converted 2 0])) = [Some 1, Some 2, None]"
  "map ah_function (fst (run_machine (handler_step (\<lambda>f. None) Some (0::nat)) (replicate 3 ah_null)
     [Assign_target 0 (1::nat), Assign_target 1 2, Swap 0 1, Assign_converted 2 0])) = [Some 2, Some 1, Some 2]"
  by (simp_all add: handler_step_def ah_make_def ah_swap_def ah_null_def ah_convert_def eval_nat_numeral)

end
