(* ===== verification/Connection_Wish.thy ===== *)
theory Connection_Wish
  imports Client_Outcomes Endpoint
begin

section \<open>Connection wishes (\<open>connector.hpp\<close>, \<open>codec.hpp\<close>)\<close>

text \<open>
  A wish is the settings of a transport with a codec format.  The connector that it makes announces
  the format by its number, and the codec that it makes encodes in that format.  What a format's
  codec does is a parameter, \<open>codec_of\<close>, since it wraps third-party serializers.
\<close>

subsection \<open>Codecs and their builders\<close>

datatype codec_format = Json | Msgpack | Cbor

primrec format_id :: "codec_format \<Rightarrow> int" where
  "format_id Json = 1"
| "format_id Msgpack = 2"
| "format_id Cbor = 3"

text \<open>\<open>AnyCodec\<close>: a null pointer, which the assertions of \<open>encode\<close> and \<open>decode\<close> forbid, is \<open>None\<close>.\<close>

type_synonym any_codec = "codec option"

definition any_codec_null :: any_codec where
  "any_codec_null = None"

definition any_codec_of :: "(codec_format \<Rightarrow> codec) \<Rightarrow> codec_format \<Rightarrow> any_codec" where
  "any_codec_of codec_of f = Some (codec_of f)"

definition any_codec_bool :: "any_codec \<Rightarrow> bool" where
  "any_codec_bool c \<longleftrightarrow> c \<noteq> None"

definition any_encode :: "any_codec \<Rightarrow> varray \<Rightarrow> bytes option" where
  "any_encode c v = (case c of None \<Rightarrow> None | Some k \<Rightarrow> Some (encode k v))"

definition any_decode :: "any_codec \<Rightarrow> bytes \<Rightarrow> (error_code \<times> variant) option" where
  "any_decode c b = (case c of None \<Rightarrow> None | Some k \<Rightarrow> Some (decode k b))"

record codec_builder =
  cb_format :: codec_format
  cb_id :: int

definition make_codec_builder :: "codec_format \<Rightarrow> codec_builder" where
  "make_codec_builder f = \<lparr>cb_format = f, cb_id = format_id f\<rparr>"

definition build_codec :: "(codec_format \<Rightarrow> codec) \<Rightarrow> codec_builder \<Rightarrow> any_codec" where
  "build_codec codec_of b = any_codec_of codec_of (cb_format b)"

subsection \<open>Connectors and their builders\<close>

datatype transport_settings = Tcp_settings tcp_host | Uds_settings uds_path

definition build_connector :: "bool \<Rightarrow> transport_settings \<Rightarrow> int \<Rightarrow> (opener, 'h) dialing" where
  "build_connector little s codec =
    (case s of Tcp_settings t \<Rightarrow> tcp_connector little t codec | Uds_settings u \<Rightarrow> uds_connector little u codec)"

record connection_wish =
  cw_settings :: transport_settings
  cw_codec_builder :: codec_builder

definition make_wish :: "transport_settings \<Rightarrow> codec_format \<Rightarrow> connection_wish" where
  "make_wish s f = \<lparr>cw_settings = s, cw_codec_builder = make_codec_builder f\<rparr>"

definition wish_codec_id :: "connection_wish \<Rightarrow> int" where
  "wish_codec_id w = cb_id (cw_codec_builder w)"

definition make_connector :: "bool \<Rightarrow> connection_wish \<Rightarrow> (opener, 'h) dialing" where
  "make_connector little w = build_connector little (cw_settings w) (wish_codec_id w)"

definition make_codec :: "(codec_format \<Rightarrow> codec) \<Rightarrow> connection_wish \<Rightarrow> any_codec" where
  "make_codec codec_of w = build_codec codec_of (cw_codec_builder w)"

text \<open>A legacy connector is a wish with an executor; wishes are made of its other members.\<close>

record 'e legacy_connector =
  lc_executor :: 'e
  lc_settings :: transport_settings
  lc_codec_builder :: codec_builder

definition make_legacy_connector :: "'e \<Rightarrow> transport_settings \<Rightarrow> codec_format \<Rightarrow> 'e legacy_connector" where
  "make_legacy_connector e s f = \<lparr>lc_executor = e, lc_settings = s, lc_codec_builder = make_codec_builder f\<rparr>"

definition wish_of_legacy :: "'e legacy_connector \<Rightarrow> connection_wish" where
  "wish_of_legacy c = \<lparr>cw_settings = lc_settings c, cw_codec_builder = lc_codec_builder c\<rparr>"

lemma wish_of_legacy_made: "wish_of_legacy (make_legacy_connector e s f) = make_wish s f"
  by (simp add: wish_of_legacy_def make_legacy_connector_def make_wish_def)

subsection \<open>A client, its wishes and the routers they lead to\<close>

text \<open>The codecs that a router serves, and the length that it receives\<close>

record router =
  ro_codecs :: "int list"
  ro_max_rx_length :: rawsock_max_length

definition settings_length :: "transport_settings \<Rightarrow> rawsock_max_length" where
  "settings_length s = (case s of Tcp_settings t \<Rightarrow> th_max_rx_length t | Uds_settings u \<Rightarrow> up_max_rx_length u)"

text \<open>What the peer reads of a transport\<close>

definition peer_view :: "transport \<Rightarrow> peer_transport" where
  "peer_view t = \<lparr>tr_started = running t, tr_max_tx = max_tx_length (info t)\<rparr>"

text \<open>
  What a wish's connector reports to the client, on machines of the given byte orders, when its
  address leads to a router over a link without faults; \<open>router_end\<close> is what the router reports.
\<close>

definition wish_result :: "bool \<Rightarrow> bool \<Rightarrow> (transport_settings \<Rightarrow> router) \<Rightarrow> connection_wish \<Rightarrow>
    (error_code + peer_transport) list" where
  "wish_result bc bl routers w =
    (let r = routers (cw_settings w)
     in map (\<lambda>(h, result). map_sum id peer_view result)
          (fst (negotiate (dl_connector (make_connector bc w)) (listener_create bl (ro_codecs r) (ro_max_rx_length r)) () ())))"

definition router_end :: "bool \<Rightarrow> bool \<Rightarrow> (transport_settings \<Rightarrow> router) \<Rightarrow> connection_wish \<Rightarrow>
    (error_code + transport) list" where
  "router_end bc bl routers w =
    (let r = routers (cw_settings w)
     in map snd (snd (negotiate (dl_connector (make_connector bc w)) (listener_create bl (ro_codecs r) (ro_max_rx_length r)) () ())))"

text \<open>A client connects with a list of wishes, one attempt after the other.\<close>

definition connect_wishes :: "bool \<Rightarrow> bool \<Rightarrow> (codec_format \<Rightarrow> codec) \<Rightarrow> (transport_settings \<Rightarrow> router) \<Rightarrow>
    connection_wish list \<Rightarrow> 'u \<Rightarrow> 'u client \<Rightarrow> 'u client_result" where
  "connect_wishes bc bl codec_of routers ws h c =
    run_machine client_step c
      (Ev_connect (map (\<lambda>w. the (make_codec codec_of w)) ws) h #
       map (Ev_connector_done 0) (concat (map (wish_result bc bl routers) ws)))"

text \<open>The first wish whose codec its router serves\<close>

definition served :: "(transport_settings \<Rightarrow> router) \<Rightarrow> connection_wish \<Rightarrow> bool" where
  "served routers w \<longleftrightarrow> wish_codec_id w \<in> set (ro_codecs (routers (cw_settings w)))"

fun first_served :: "(transport_settings \<Rightarrow> router) \<Rightarrow> connection_wish list \<Rightarrow> nat option" where
  "first_served routers [] = None"
| "first_served routers (w # ws) = (if served routers w then Some 0 else map_option Suc (first_served routers ws))"

subsection \<open>The first wish that is served\<close>

definition answer_to :: "(transport_settings \<Rightarrow> router) \<Rightarrow> connection_wish \<Rightarrow> error_code + peer_transport" where
  "answer_to routers w =
    (if served routers w
     then Inr \<lparr>tr_started = False, tr_max_tx = 2 ^ (ro_max_rx_length (routers (cw_settings w)) + 9)\<rparr>
     else Inl (rawsock_ec RE_badSerializer))"

definition wish_valid :: "(transport_settings \<Rightarrow> router) \<Rightarrow> connection_wish \<Rightarrow> bool" where
  "wish_valid routers w \<longleftrightarrow> settings_length (cw_settings w) < 16 \<and>
    ro_max_rx_length (routers (cw_settings w)) < 16 \<and> 1 \<le> wish_codec_id w \<and> wish_codec_id w < 16"

lemma format_id_range: "1 \<le> format_id f" "format_id f < 16"
  by (cases f; simp)+

lemma connector_of_wish:
  "dl_connector (make_connector bc w) = connector_create bc (wish_codec_id w) (settings_length (cw_settings w))"
  by (simp add: make_connector_def build_connector_def settings_length_def tcp_connector_def uds_connector_def
      split: transport_settings.splits)

lemma wish_result_valid: "wish_valid routers w \<Longrightarrow> wish_result bc bl routers w = [answer_to routers w]"
  by (simp add: wish_result_def connector_of_wish wish_valid_def served_def answer_to_def negotiation_agrees
      negotiation_rejects peer_view_def transport_create_def Let_def)

lemma router_end_valid:
  "wish_valid routers w \<Longrightarrow> served routers w \<Longrightarrow>
     map (map_sum id (\<lambda>t. codec_id (info t))) (router_end bc bl routers w) = [Inr (wish_codec_id w)]"
  by (simp add: router_end_def connector_of_wish wish_valid_def served_def negotiation_agrees transport_create_def Let_def)

lemma wish_results_valid:
  "list_all (wish_valid routers) ws \<Longrightarrow> concat (map (wish_result bc bl routers) ws) = map (answer_to routers) ws"
  by (induction ws) (simp_all add: wish_result_valid)

lemma bad_serializer_goes_on: "\<not> is_transport (rawsock_ec RE_badSerializer) TE_aborted"
  by (simp add: is_transport_def rawsock_ec_def rawsock_value_ec_def transport_ec_def transport_equivalent_def
      operation_canceled_def)

lemma attempt_accepted:
  assumes "connecting a c"
  shows "\<exists>c' xs. connector_done 0 (Inr t) c = (c', xs) \<and> c_establishing c' = [] \<and>
    user_calls xs = [(at_handler a, Connected (at_index a))] \<and> client_state c' = Closed \<and>
    p_codec (c_peer c') = at_wishes a ! at_index a \<and> p_max_tx (c_peer c') = tr_max_tx t"
  using assms
  by (auto simp: connector_done_def connecting_def on_established_def dispatch_user_def and_then_def
      client_state_def with_peer_open)

lemma attempt_refused:
  assumes "connecting a c" and "\<not> is_transport ec TE_aborted" and "at_index a + 1 < length (at_wishes a)"
  shows "\<exists>c' xs. connector_done 0 (Inl ec) c = (c', xs) \<and> connecting (a\<lparr>at_index := at_index a + 1\<rparr>) c' \<and>
    user_calls xs = []"
  using assms
  by (auto simp: connector_done_def connecting_def on_established_def on_connect_failure_def do_connect_def
      client_state_def Let_def)

lemma last_attempt_refused:
  assumes "connecting a c" and "\<not> is_transport ec TE_aborted" and "\<not> at_index a + 1 < length (at_wishes a)"
  shows "\<exists>c' xs. connector_done 0 (Inl ec) c = (c', xs) \<and> c_establishing c' = [] \<and> client_state c' = Failed \<and>
    user_calls xs = [(at_handler a, Failed_with (if 1 < length (at_wishes a) then session_ec SE_allTransportsFailed else ec))]"
  using assms
  by (auto simp: connector_done_def connecting_def on_established_def on_connect_failure_def dispatch_user_def
      and_then_def with_peer_set_state client_state_def Let_def)

text \<open>How connecting ends when the wishes from the \<open>i\<close>-th on are left\<close>

definition connects_as :: "(codec_format \<Rightarrow> codec) \<Rightarrow> (transport_settings \<Rightarrow> router) \<Rightarrow> 'u attempt \<Rightarrow>
    connection_wish list \<Rightarrow> 'u client_result \<Rightarrow> bool" where
  "connects_as codec_of routers a left r =
    (case first_served routers left of
       Some k \<Rightarrow>
         user_calls (snd r) = [(at_handler a, Connected (at_index a + k))] \<and> client_state (fst r) = Closed \<and>
         p_codec (c_peer (fst r)) = the (make_codec codec_of (left ! k)) \<and>
         p_max_tx (c_peer (fst r)) = 2 ^ (ro_max_rx_length (routers (cw_settings (left ! k))) + 9)
     | None \<Rightarrow>
         user_calls (snd r) = [(at_handler a, Failed_with (if 1 < length (at_wishes a)
           then session_ec SE_allTransportsFailed else rawsock_ec RE_badSerializer))] \<and> client_state (fst r) = Failed)"

lemma wishes_run:
  assumes "connecting a c" and "left \<noteq> []" and "length (at_wishes a) = at_index a + length left"
    and "drop (at_index a) (at_wishes a) = map (\<lambda>w. the (make_codec codec_of w)) left"
  shows "connects_as codec_of routers a left
    (run_machine client_step c (map (Ev_connector_done 0) (map (answer_to routers) left)))"
  using assms
proof (induction left arbitrary: a c)
  case Nil
  then show ?case by simp
next
  case (Cons w left)
  let ?codec = "\<lambda>w. the (make_codec codec_of w)"
  have here: "at_wishes a ! at_index a = ?codec w"
  proof -
    have "drop (at_index a) (at_wishes a) ! 0 = ?codec w" using Cons.prems(4) by simp
    then show ?thesis using Cons.prems(3) by simp
  qed
  show ?case
  proof (cases "served routers w")
    case True
    let ?t = "\<lparr>tr_started = False, tr_max_tx = 2 ^ (ro_max_rx_length (routers (cw_settings w)) + 9)\<rparr>"
    from attempt_accepted [OF Cons.prems(1), of ?t] obtain c' xs where
      step: "connector_done 0 (Inr ?t) c = (c', xs)" "c_establishing c' = []" and
      ends: "user_calls xs = [(at_handler a, Connected (at_index a))]" "client_state c' = Closed"
      "p_codec (c_peer c') = at_wishes a ! at_index a" "p_max_tx (c_peer c') = tr_max_tx ?t"
      by blast
    have "answer_to routers w = Inr ?t" using True by (simp add: answer_to_def)
    then have "run_machine client_step c (map (Ev_connector_done 0) (map (answer_to routers) (w # left))) = (c', xs)"
      using step idle_results [OF step(2), of "map (answer_to routers) left"] by (simp del: map_map)
    with ends True here show ?thesis by (simp add: connects_as_def)
  next
    case refused: False
    show ?thesis
    proof (cases "left = []")
      case True
      with Cons.prems(3) have "\<not> at_index a + 1 < length (at_wishes a)" by simp
      from last_attempt_refused [OF Cons.prems(1) bad_serializer_goes_on this] obtain c' xs where
        "connector_done 0 (Inl (rawsock_ec RE_badSerializer)) c = (c', xs)" "client_state c' = Failed"
        "user_calls xs = [(at_handler a, Failed_with (if 1 < length (at_wishes a)
           then session_ec SE_allTransportsFailed else rawsock_ec RE_badSerializer))]"
        by blast
      with True refused show ?thesis by (simp add: connects_as_def answer_to_def)
    next
      case False
      let ?a = "a\<lparr>at_index := at_index a + 1\<rparr>"
      from False Cons.prems(3) have "at_index a + 1 < length (at_wishes a)" by (cases left) simp_all
      from attempt_refused [OF Cons.prems(1) bad_serializer_goes_on this] obtain c' xs where
        step: "connector_done 0 (Inl (rawsock_ec RE_badSerializer)) c = (c', xs)" and
        next': "connecting ?a c'" "user_calls xs = []"
        by blast
      have "drop (at_index ?a) (at_wishes ?a) = tl (drop (at_index a) (at_wishes a))"
        by (simp add: drop_Suc tl_drop)
      then have drop: "drop (at_index ?a) (at_wishes ?a) = map ?codec left" using Cons.prems(4) by simp
      let ?R = "run_machine client_step c' (map (Ev_connector_done 0) (map (answer_to routers) left))"
      from Cons.IH [OF next'(1) False] Cons.prems(3) drop
      have rest: "connects_as codec_of routers ?a left ?R" by simp
      have "answer_to routers w = Inl (rawsock_ec RE_badSerializer)" using refused by (simp add: answer_to_def)
      then have "run_machine client_step c (map (Ev_connector_done 0) (map (answer_to routers) (w # left))) =
          (fst ?R, xs @ snd ?R)"
        using step by (simp add: case_prod_beta Let_def)
      with rest next'(2) refused show ?thesis
        by (simp add: connects_as_def split: option.splits)
    qed
  qed
qed

lemma connect_starts:
  assumes "client_state c = Disconnected" and "c_establishing c = []" and "wishes \<noteq> []"
  shows "\<exists>c' xs. connect wishes h c = (c', xs) \<and> user_calls xs = [] \<and>
    connecting \<lparr>at_wishes = wishes, at_index = 0, at_handler = h\<rparr> c'"
  using assms
  by (auto simp: connect_def check_state_def and_then_def with_peer_set_state with_peer_def set_state_def do_connect_def
      connecting_def client_state_def set_terminating_def)

lemma first_served_at: "first_served routers ws = Some i \<Longrightarrow> i < length ws \<and> served routers (ws ! i)"
  by (induction ws arbitrary: i) (auto split: if_splits)


text \<open>A router that serves JSON and MessagePack: the CBOR wish fails, the JSON wish connects.\<close>

definition sample_choices :: "(transport_settings \<times> codec_format) list" where
  "sample_choices = [(Tcp_settings (make_tcp_host ''host'' ''8000'' [] 15), Cbor), (Uds_settings (make_uds_path ''path'' [] 0 True), Json)]"

definition sample_router :: router where
  "sample_router = \<lparr>ro_codecs = [1, 2], ro_max_rx_length = 12\<rparr>"


end
