(* ===== verification/Peer_Link.thy ===== *)
theory Peer_Link
  imports Peer_Session Peer_Data Rawsock_Transport Variant_Codec
begin

section \<open>Two peers and the connection between them\<close>

text \<open>
  The composition of two sessions with their transports: each \<open>host\<close> has a \<open>Peer\<close>, the
  \<open>RawsockTransport\<close> that it sends to and the receive handlers posted to its strand, and the
  bytes that a transport writes are those that the other reads.  The calls that a peer makes
  of its transport (\<open>internal/peer.hpp\<close>) are the events of the transport, and the calls of the
  handlers that \<open>Peer::start\<close> gave to it are events of the peer.  The bytes arrive in any
  pieces, as one read needs 4 of them and the next as many as the header said.  Failing
  sockets, heartbeats and the opening of a connection are not part of this composition.
\<close>

record 'h host =
  h_peer :: "'h peer"
  h_transport :: transport
  h_posted :: "(error_code + bytes) list"

datatype side = Near | Far

primrec other :: "side \<Rightarrow> side" where
  "other Near = Far"
| "other Far = Near"

lemma other_other [simp]: "other (other s) = s" and other_neq [simp]: "other s \<noteq> s" "s \<noteq> other s"
  by (cases s; simp)+

lemma side_cases: "s' = s \<or> s' = other s"
  by (cases s; cases s'; simp)

text \<open>\<open>wire l s\<close> holds the bytes on their way to \<open>s\<close>.\<close>

record 'h link =
  hosts :: "side \<Rightarrow> 'h host"
  wire :: "side \<Rightarrow> bytes"

datatype 'h link_event = Use side "'h peer_event" | Written side | Readable side | Handle side

datatype 'h link_effect =
    Peer_does side "'h peer_effect"
  | Socket_does side transport_effect
  | Received side bytes

definition transport_calls :: "'h peer_effect list \<Rightarrow> transport_event list" where
  "transport_calls xs = concat (map (\<lambda>x. case x of
     Transport_start \<Rightarrow> [Start] | Transport_send b \<Rightarrow> [Send b] | Transport_close \<Rightarrow> [Close] | _ \<Rightarrow> []) xs)"

definition rx_event :: "error_code + bytes \<Rightarrow> 'h peer_event" where
  "rx_event r = (case r of Inl ec \<Rightarrow> Rx_failed ec | Inr b \<Rightarrow> Rx b)"

definition gather_buffers :: "bool \<Rightarrow> frame \<Rightarrow> bytes" where
  "gather_buffers little f = memory_of_word little (fr_header f) @ fr_payload f"

definition written_frames :: "transport_effect list \<Rightarrow> frame list" where
  "written_frames ys = concat (map (\<lambda>y. case y of Async_write f \<Rightarrow> [f] | _ \<Rightarrow> []) ys)"

definition read_size :: "read_op \<Rightarrow> nat option" where
  "read_size r = (case r of No_read \<Rightarrow> None | Reading_header \<Rightarrow> Some 4 | Reading_payload ty n \<Rightarrow> Some n)"

definition drive :: "side \<Rightarrow> transport_event list \<Rightarrow> 'h link \<Rightarrow> 'h link \<times> 'h link_effect list" where
  "drive s es l =
    (let h = hosts l s;
         (t, ys) = run_machine transport_step (h_transport h) es
     in (l\<lparr>hosts := (hosts l)(s := h\<lparr>h_transport := t, h_posted := h_posted h @ posts ys\<rparr>),
           wire := (wire l)(other s := wire l (other s) @
             concat (map (gather_buffers (little_endian t)) (written_frames ys)))\<rparr>,
         map (Socket_does s) ys))"

definition use_peer :: "side \<Rightarrow> 'h peer_event \<Rightarrow> 'h link \<Rightarrow> 'h link \<times> 'h link_effect list" where
  "use_peer s e l =
    (let h = hosts l s;
         (p, xs) = peer_step (h_peer h) e
     in and_then (l\<lparr>hosts := (hosts l)(s := h\<lparr>h_peer := p\<rparr>)\<rparr>, map (Peer_does s) xs)
          (drive s (transport_calls xs)))"

primrec link_step :: "'h link \<Rightarrow> 'h link_event \<Rightarrow> 'h link \<times> 'h link_effect list" where
  "link_step l (Use s e) = use_peer s e l"
| "link_step l (Written s) = drive s [Write_done 0] l"
| "link_step l (Readable s) =
    (case read_size (rx_op (h_transport (hosts l s))) of
       None \<Rightarrow> (l, [])
     | Some n \<Rightarrow>
         if length (wire l s) < n then (l, [])
         else drive s [Read_done 0 (take n (wire l s))] (l\<lparr>wire := (wire l)(s := drop n (wire l s))\<rparr>))"
| "link_step l (Handle s) =
    (let h = hosts l s
     in case h_posted h of
          [] \<Rightarrow> (l, [])
        | r # rs \<Rightarrow>
            and_then (l\<lparr>hosts := (hosts l)(s := h\<lparr>h_posted := rs\<rparr>)\<rparr>,
                case r of Inl ec \<Rightarrow> [] | Inr b \<Rightarrow> [Received s b])
              (use_peer s (rx_event r)))"

subsection \<open>A transport that works\<close>

definition up :: "transport \<Rightarrow> bool" where
  "up t \<longleftrightarrow> sending t \<and> rx_handler t \<and>
     (\<forall>f \<in> set (tx_queue t). f = enframe (little_endian t) Msg_wamp (fr_payload f))"

definition sound :: "transport_effect \<Rightarrow> bool" where
  "sound y = (case y of Assert_failed x \<Rightarrow> False | Undefined_behaviour x \<Rightarrow> False | _ \<Rightarrow> True)"

lemma written_frames_simps [simp]:
  "written_frames [] = []" "written_frames (xs @ ys) = written_frames xs @ written_frames ys"
  "written_frames (Async_write f # ys) = f # written_frames ys"
  "written_frames (Async_read_header # ys) = written_frames ys"
  "written_frames (Async_read_payload ty n # ys) = written_frames ys"
  "written_frames (Post_rx r # ys) = written_frames ys"
  by (simp_all add: written_frames_def)

lemma sound_simps [simp]:
  "sound (Async_write f)" "sound Async_read_header" "sound (Async_read_payload ty n)" "sound (Post_rx r)"
  by (simp_all add: sound_def)

text \<open>The result of a step that only concerns the sending half, with the messages \<open>bs\<close> to send\<close>

definition moves_on :: "transport \<Rightarrow> bytes list \<Rightarrow> transport \<times> transport_effect list \<Rightarrow> bool" where
  "moves_on t bs r \<longleftrightarrow>
    up (fst r) \<and> rx_op (fst r) = rx_op t \<and> info (fst r) = info t \<and>
    little_endian (fst r) = little_endian t \<and> posts (snd r) = [] \<and> list_all sound (snd r) \<and>
    written_frames (snd r) @ tx_queue (fst r) =
      tx_queue t @ map (enframe (little_endian t) Msg_wamp) bs"

lemma payload_enframe [simp]: "fr_payload (enframe l ty m) = m"
  by (simp add: enframe_def)

lemma send_moves_on:
  assumes "up t" and "length m \<le> max_tx_length (info t)"
  shows "moves_on t [m] (transport_step t (Send m))"
  using assms
  by (cases "tx_queue t")
    (auto simp: moves_on_def up_def sending_def transport_send_def send_frame_def transmit_def
      is_ready_to_transmit_def assert_that_def Let_def)

lemma write_moves_on:
  assumes "up t"
  shows "moves_on t [] (transport_step t (Write_done 0))"
  using assms
  by (cases "tx_queue t")
    (auto simp: moves_on_def up_def sending_def on_written_def transmit_def is_ready_to_transmit_def)

lemma moves_on_trans:
  assumes "moves_on t bs r" and "moves_on (fst r) cs (r', out)"
  shows "moves_on t (bs @ cs) (r', snd r @ out)"
  using assms by (auto simp: moves_on_def)

lemma sends_move_on:
  assumes "up t" and "\<forall>m \<in> set ms. length m \<le> max_tx_length (info t)"
  shows "moves_on t ms (run_machine transport_step t (map Send ms))"
  using assms
proof (induction ms arbitrary: t)
  case Nil
  then show ?case by (simp add: moves_on_def)
next
  case (Cons m ms)
  let ?r = "transport_step t (Send m)"
  have r: "moves_on t [m] ?r" using Cons.prems by (intro send_moves_on) simp_all
  then have "moves_on (fst ?r) ms (run_machine transport_step (fst ?r) (map Send ms))"
    using Cons.prems by (intro Cons.IH) (auto simp: moves_on_def)
  then have "moves_on (fst ?r) ms (fst (run_machine transport_step t (map Send (m # ms))),
      snd (run_machine transport_step (fst ?r) (map Send ms)))"
    by (simp only: list.map run_machine_Cons_fst prod.collapse)
  from moves_on_trans [OF r this]
  show ?case by (simp only: list.map run_machine_Cons_snd [symmetric] append_Cons append_Nil prod.collapse)
qed

definition fits :: "transport \<Rightarrow> bytes \<Rightarrow> bool" where
  "fits t m \<longleftrightarrow> 0 < length m \<and> length m < 2 ^ 24 \<and> length m \<le> max_rx_length (info t)"

lemma memory_length [simp]: "length (memory_of_word l w) = 4"
  by (simp add: memory_of_word_def Let_def)

lemma header_step:
  assumes "up t" and "rx_op t = Reading_header" and "fits t m"
  shows "\<exists>f. transport_step t (Read_done 0 (memory_of_word l (compute_header l Msg_wamp m))) =
    (t\<lparr>rx_frame := f, rx_op := Reading_payload Msg_wamp (length m)\<rparr>,
     [Async_read_payload Msg_wamp (length m)])"
proof -
  have hdr: "header_msg_type (header_from_big_endian (little_endian t)
        (word_of_memory (little_endian t) (memory_of_word l (compute_header l Msg_wamp m)))) = Msg_wamp"
      "header_length (header_from_big_endian (little_endian t)
        (word_of_memory (little_endian t) (memory_of_word l (compute_header l Msg_wamp m)))) = length m"
    using assms(3) received_header_type [of Msg_wamp "little_endian t" l m]
      received_header_length [of "little_endian t" l Msg_wamp m]
    by (auto simp: received_header_def fits_def rawsock_type_of_code_def)
  with assms show ?thesis
    by (simp add: on_header_read_def check_ec_def process_header_def fits_def
        check_cond_def header_type_valid_iff receive_payload_def valid_types_def Let_def)
      (rule exI, rule refl)
qed

lemma payload_step:
  assumes "up t" and "rx_op t = Reading_payload Msg_wamp n"
  shows "transport_step t (Read_done 0 m) =
    (t\<lparr>rx_frame := empty_frame, rx_op := Reading_header\<rparr>, [Post_rx (Inr m), Async_read_header])"
  using assms
  by (simp add: on_payload_read_def check_ec_def receive_def up_def sending_def)

lemma up_rx [simp]: "up (t\<lparr>rx_op := r\<rparr>) = up t" "up (t\<lparr>rx_frame := f\<rparr>) = up t"
  by (simp_all add: up_def sending_def)

subsection \<open>What is under way\<close>

definition wamp_bytes :: "bool \<Rightarrow> bytes \<Rightarrow> bytes" where
  "wamp_bytes l m = gather_buffers l (enframe l Msg_wamp m)"

lemma wamp_bytes_eq: "wamp_bytes l m = memory_of_word l (compute_header l Msg_wamp m) @ m"
  by (simp add: wamp_bytes_def gather_buffers_def enframe_def)

text \<open>The bytes left of the messages \<open>ms\<close>, when the receiver is at the given point of the first\<close>

fun left_of :: "bool \<Rightarrow> read_op \<Rightarrow> bytes list \<Rightarrow> bytes option" where
  "left_of l Reading_header ms = Some (concat (map (wamp_bytes l) ms))"
| "left_of l (Reading_payload ty n) (m # ms) =
    (if ty = Msg_wamp \<and> n = length m then Some (m @ concat (map (wamp_bytes l) ms)) else None)"
| "left_of l r ms = None"

lemma left_of_append:
  "left_of l r ms = Some w \<Longrightarrow> left_of l r (ms @ ns) = Some (w @ concat (map (wamp_bytes l) ns))"
  by (induction l r ms rule: left_of.induct) (auto split: if_splits)

text \<open>
  \<open>carries s l ms\<close>: the messages \<open>ms\<close> are on their way to \<open>s\<close>, the first ones posted to its
  strand, the next ones in the connection, and the last ones queued in the other transport.
\<close>

definition carries :: "side \<Rightarrow> 'h link \<Rightarrow> bytes list \<Rightarrow> bool" where
  "carries s l ms \<longleftrightarrow>
    (let t = h_transport (hosts l s); u = h_transport (hosts l (other s))
     in up t \<and> up u \<and>
       (\<exists>ps ws. ms = ps @ ws @ map fr_payload (tx_queue u) \<and> h_posted (hosts l s) = map Inr ps \<and>
          left_of (little_endian u) (rx_op t) ws = Some (wire l s) \<and> list_all (fits t) ms))"

lemma carriesI:
  assumes "up (h_transport (hosts l s))" and "up (h_transport (hosts l (other s)))"
    and "h_posted (hosts l s) = map Inr ps"
    and "left_of (little_endian (h_transport (hosts l (other s)))) (rx_op (h_transport (hosts l s))) ws = Some (wire l s)"
    and "ms = ps @ ws @ map fr_payload (tx_queue (h_transport (hosts l (other s))))"
    and "list_all (fits (h_transport (hosts l s))) ms"
  shows "carries s l ms"
  using assms unfolding carries_def Let_def by blast

lemma split_queue:
  assumes "up u" and "fs @ tx_queue u' = tx_queue u @ map (enframe (little_endian u) Msg_wamp) bs"
  shows "map (gather_buffers (little_endian u)) fs =
    map (wamp_bytes (little_endian u)) (map fr_payload fs)"
proof -
  have "\<forall>f \<in> set (fs @ tx_queue u'). f = enframe (little_endian u) Msg_wamp (fr_payload f)"
    unfolding assms(2) using assms(1) by (auto simp: up_def)
  then show ?thesis by (auto simp: wamp_bytes_def)
qed

lemma fits_cong: "info t = info u \<Longrightarrow> fits t = fits u"
  by (simp add: fits_def fun_eq_iff)

text \<open>The sending half of the other host\<close>

lemma carries_tx:
  assumes "carries s l ms" and r: "moves_on (h_transport (hosts l (other s))) bs (run_machine transport_step (h_transport (hosts l (other s))) es)"
    and "list_all (fits (h_transport (hosts l s))) bs"
  shows "carries s (fst (drive (other s) es l)) (ms @ bs)"
proof -
  let ?u = "h_transport (hosts l (other s))"
  obtain u' ys where run: "run_machine transport_step ?u es = (u', ys)" by force
  obtain ps ws where c: "up (h_transport (hosts l s))" "up ?u"
      "ms = ps @ ws @ map fr_payload (tx_queue ?u)" "h_posted (hosts l s) = map Inr ps"
      "left_of (little_endian ?u) (rx_op (h_transport (hosts l s))) ws = Some (wire l s)"
      "list_all (fits (h_transport (hosts l s))) ms"
    using assms(1) by (auto simp: carries_def Let_def)
  from r run have m: "up u'" "little_endian u' = little_endian ?u"
      "written_frames ys @ tx_queue u' = tx_queue ?u @ map (enframe (little_endian ?u) Msg_wamp) bs"
    by (auto simp: moves_on_def)
  have "map fr_payload (written_frames ys @ tx_queue u') = map fr_payload (tx_queue ?u) @ bs"
    unfolding m(3) by (simp add: comp_def)
  then have all: "ms @ bs = ps @ (ws @ map fr_payload (written_frames ys)) @ map fr_payload (tx_queue u')"
    using c(3) by simp
  have left: "left_of (little_endian ?u) (rx_op (h_transport (hosts l s))) (ws @ map fr_payload (written_frames ys)) =
      Some (wire l s @ concat (map (gather_buffers (little_endian ?u)) (written_frames ys)))"
    by (simp only: split_queue [OF c(2) m(3)] left_of_append [OF c(5)])
  have fit: "list_all (fits (h_transport (hosts l s))) (ms @ bs)" using c(6) assms(3) by simp
  let ?l' = "fst (drive (other s) es l)"
  have l': "hosts ?l' s = hosts l s" "h_transport (hosts ?l' (other s)) = u'"
      "wire ?l' s = wire l s @ concat (map (gather_buffers (little_endian ?u)) (written_frames ys))"
    by (simp_all add: drive_def run m(2) Let_def)
  show ?thesis
    by (rule carriesI [where ps = ps and ws = "ws @ map fr_payload (written_frames ys)"])
      (unfold l' m(2), use c(1) m(1) all c(4) left fit in simp_all)
qed

text \<open>The sending half of this host\<close>

lemma carries_own_tx:
  assumes "carries s l ms" and r: "moves_on (h_transport (hosts l s)) bs (run_machine transport_step (h_transport (hosts l s)) es)"
  shows "carries s (fst (drive s es l)) ms"
proof -
  obtain t' ys where run: "run_machine transport_step (h_transport (hosts l s)) es = (t', ys)" by force
  with r have m: "up t'" "rx_op t' = rx_op (h_transport (hosts l s))" "info t' = info (h_transport (hosts l s))"
      "posts ys = []" by (auto simp: moves_on_def)
  with assms(1) fits_cong [OF m(3)] show ?thesis
    by (auto simp: carries_def drive_def run Let_def)
qed

lemma carries_peer [simp]:
  "carries s (l\<lparr>hosts := (hosts l)(s' := (hosts l s')\<lparr>h_peer := p\<rparr>)\<rparr>) ms = carries s l ms"
  by (auto simp: carries_def Let_def)

subsection \<open>What a step adds to it and takes from it\<close>

definition sends :: "'h peer_effect list \<Rightarrow> bytes list" where
  "sends xs = concat (map (\<lambda>x. case x of Transport_send b \<Rightarrow> [b] | _ \<Rightarrow> []) xs)"

definition peer_effects :: "side \<Rightarrow> 'h link_effect list \<Rightarrow> 'h peer_effect list" where
  "peer_effects s out = concat (map (\<lambda>y. case y of
     Peer_does s' x \<Rightarrow> if s' = s then [x] else [] | _ \<Rightarrow> []) out)"

definition sends_at :: "side \<Rightarrow> 'h link_effect list \<Rightarrow> bytes list" where
  "sends_at s out = sends (peer_effects s out)"

definition received_at :: "side \<Rightarrow> 'h link_effect list \<Rightarrow> bytes list" where
  "received_at s out = concat (map (\<lambda>y. case y of
     Received s' b \<Rightarrow> if s' = s then [b] else [] | _ \<Rightarrow> []) out)"

text \<open>Neither peer starts or closes its transport, and neither transport is misused.\<close>

definition stays_open :: "'h link_effect list \<Rightarrow> bool" where
  "stays_open out \<longleftrightarrow> (\<forall>s. Peer_does s Transport_start \<notin> set out \<and> Peer_does s Transport_close \<notin> set out)"

definition sockets_sound :: "'h link_effect list \<Rightarrow> bool" where
  "sockets_sound out \<longleftrightarrow> (\<forall>s y. Socket_does s y \<in> set out \<longrightarrow> sound y)"

lemma sends_simps [simp]: "sends [] = []" "sends (xs @ ys) = sends xs @ sends ys"
  by (simp_all add: sends_def)

lemma concat_map_none [simp]: "concat (map (\<lambda>x. []) zs) = []"
  by (induction zs) simp_all

lemma peer_effects_simps [simp]:
  "peer_effects s [] = []" "peer_effects s (xs @ ys) = peer_effects s xs @ peer_effects s ys"
  "peer_effects s (Received s' b # ys) = peer_effects s ys"
  "peer_effects s (map (Peer_does s') zs) = (if s' = s then zs else [])"
  "peer_effects s (map (Socket_does s') os) = []"
  by (auto simp: peer_effects_def comp_def)

lemma at_simps [simp]:
  "sends_at s [] = []" "sends_at s (xs @ ys) = sends_at s xs @ sends_at s ys"
  "sends_at s (Received s' b # ys) = sends_at s ys"
  "sends_at s (map (Peer_does s') zs) = (if s' = s then sends zs else [])"
  "sends_at s (map (Socket_does s') os) = []"
  "received_at s [] = []" "received_at s (xs @ ys) = received_at s xs @ received_at s ys"
  "received_at s (Received s' b # ys) = (if s' = s then [b] else []) @ received_at s ys"
  "received_at s (map (Peer_does s') zs) = []" "received_at s (map (Socket_does s') os) = []"
  by (auto simp: sends_at_def received_at_def comp_def)

lemma out_simps [simp]:
  "stays_open []" "stays_open (xs @ ys) \<longleftrightarrow> stays_open xs \<and> stays_open ys"
  "stays_open (Received s' b # ys) = stays_open ys"
  "stays_open (map (Peer_does s') zs) \<longleftrightarrow> Transport_start \<notin> set zs \<and> Transport_close \<notin> set zs"
  "stays_open (map (Socket_does s') os)"
  "sockets_sound []" "sockets_sound (xs @ ys) \<longleftrightarrow> sockets_sound xs \<and> sockets_sound ys"
  "sockets_sound (Received s' b # ys) = sockets_sound ys"
  "sockets_sound (map (Peer_does s') zs)" "sockets_sound (map (Socket_does s') os) \<longleftrightarrow> list_all sound os"
  by (auto simp: stays_open_def sockets_sound_def list_all_iff)

lemma transport_calls_open:
  "Transport_start \<notin> set xs \<Longrightarrow> Transport_close \<notin> set xs \<Longrightarrow> transport_calls xs = map Send (sends xs)"
  by (induction xs) (auto simp: transport_calls_def sends_def split: peer_effect.splits)

text \<open>The limits that the two ends have agreed on\<close>

definition suits :: "'h peer \<Rightarrow> transport \<Rightarrow> transport \<Rightarrow> bool" where
  "suits p u t \<longleftrightarrow> id_in_range p \<and> p_max_tx p \<le> max_tx_length (info u) \<and>
     p_max_tx p \<le> max_rx_length (info t) \<and> p_max_tx p < 2 ^ 24 \<and> [] \<notin> range (encode (p_codec p))"

definition linked :: "'h link \<Rightarrow> bool" where
  "linked l \<longleftrightarrow> (\<forall>s. suits (h_peer (hosts l s)) (h_transport (hosts l s)) (h_transport (hosts l (other s))))"

lemma suits_cong: "info u = info u' \<Longrightarrow> info t = info t' \<Longrightarrow> suits p u t = suits p u' t'"
  by (simp add: suits_def)

lemma step_suits:
  assumes "suits p u t" and "\<forall>t c. e \<noteq> Do_open t c"
  shows "suits (fst (peer_step p e)) u t" "list_all (fits t) (sends (snd (peer_step p e)))"
    "\<forall>b \<in> set (sends (snd (peer_step p e))). length b \<le> max_tx_length (info u)"
proof -
  have "limited (p_codec p) (p_max_tx p) p" using assms(1) by (simp add: suits_def limited_def)
  then have r: "tame (p_codec p) (p_max_tx p) (peer_step p e)" using assms(2) by (rule tame_step)
  from tame_fst [OF r] assms(1) show "suits (fst (peer_step p e)) u t"
    by (simp add: suits_def limited_def)
  have "b \<in> set (sends xs) \<Longrightarrow> Transport_send b \<in> set xs" for b xs
    by (auto simp: sends_def split: peer_effect.splits)
  then have s: "length b \<le> p_max_tx p \<and> b \<in> range (encode (p_codec p))"
    if "b \<in> set (sends (snd (peer_step p e)))" for b
    using tame_snd [OF r] that by (auto simp: short_def)
  show "list_all (fits t) (sends (snd (peer_step p e)))"
    using s assms(1) by (force simp: list_all_iff fits_def suits_def)
  show "\<forall>b \<in> set (sends (snd (peer_step p e))). length b \<le> max_tx_length (info u)"
    using s assms(1) by (force simp: suits_def)
qed

lemma moves_up: "carries s l ms \<Longrightarrow> up (h_transport (hosts l s)) \<and> up (h_transport (hosts l (other s)))"
  by (auto simp: carries_def Let_def)

lemma use_keeps:
  assumes "linked l" and "carries s l ms" and "carries (other s) l ns"
    and "\<forall>t c. e \<noteq> Do_open t c" and "stays_open (snd (use_peer s e l))"
  shows "linked (fst (use_peer s e l)) \<and> sockets_sound (snd (use_peer s e l)) \<and>
    carries s (fst (use_peer s e l)) ms \<and> received_at s' (snd (use_peer s e l)) = [] \<and>
    sends_at (other s) (snd (use_peer s e l)) = [] \<and>
    carries (other s) (fst (use_peer s e l)) (ns @ sends_at s (snd (use_peer s e l)))"
proof -
  let ?u = "h_transport (hosts l s)" and ?p = "h_peer (hosts l s)" and ?t = "h_transport (hosts l (other s))"
  obtain p xs where step: "peer_step ?p e = (p, xs)" by force
  let ?l = "l\<lparr>hosts := (hosts l)(s := (hosts l s)\<lparr>h_peer := p\<rparr>)\<rparr>"
  let ?es = "map Send (sends xs)"
  have suit: "suits ?p ?u ?t" using assms(1) by (auto simp: linked_def)
  note step_suits [OF suit assms(4), unfolded step fst_conv snd_conv]
  note suits = this
  have "Transport_start \<notin> set xs" "Transport_close \<notin> set xs"
    using assms(5) by (simp_all add: use_peer_def step and_then_def Let_def case_prod_beta)
  then have calls: "transport_calls xs = ?es" by (rule transport_calls_open)
  have use: "use_peer s e l = (fst (drive s ?es ?l), map (Peer_does s) xs @ snd (drive s ?es ?l))"
    by (simp add: use_peer_def step calls and_then_def Let_def case_prod_beta)
  have u: "h_transport (hosts ?l s) = ?u" by simp
  have mv: "moves_on ?u (sends xs) (run_machine transport_step ?u ?es)"
    using moves_up [OF assms(2)] suits(3) by (intro sends_move_on) simp_all
  have 1: "carries s (fst (drive s ?es ?l)) ms"
    by (rule carries_own_tx [where bs = "sends xs"]) (use assms(2) mv in simp_all)
  have 2: "carries (other s) (fst (drive s ?es ?l)) (ns @ sends xs)"
    using carries_tx [of "other s" ?l ns "sends xs" ?es] assms(3) mv suits(2) by simp
  obtain u' ys where run: "run_machine transport_step ?u ?es = (u', ys)" by force
  from mv run have u': "info u' = info ?u" "list_all sound ys" by (simp_all add: moves_on_def)
  have out: "snd (drive s ?es ?l) = map (Socket_does s) ys" by (simp add: drive_def run Let_def)
  have "linked (fst (drive s ?es ?l))"
    unfolding linked_def
  proof
    fix s'
    have old: "suits (h_peer (hosts l s')) (h_transport (hosts l s')) (h_transport (hosts l (other s')))"
      using assms(1) by (simp add: linked_def)
    show "suits (h_peer (hosts (fst (drive s ?es ?l)) s')) (h_transport (hosts (fst (drive s ?es ?l)) s'))
        (h_transport (hosts (fst (drive s ?es ?l)) (other s')))"
      using side_cases [of s' s] old suits(1) u'(1)
      by (auto simp: drive_def run Let_def suits_def)
  qed
  with 1 2 u'(2) show ?thesis by (simp add: use out)
qed

lemma drive_linked:
  assumes "linked l" and "info (fst (run_machine transport_step (h_transport (hosts l s)) es)) = info (h_transport (hosts l s))"
  shows "linked (fst (drive s es l))"
  unfolding linked_def
proof
  fix s'
  have old: "suits (h_peer (hosts l s')) (h_transport (hosts l s')) (h_transport (hosts l (other s')))"
    using assms(1) by (simp add: linked_def)
  show "suits (h_peer (hosts (fst (drive s es l)) s')) (h_transport (hosts (fst (drive s es l)) s'))
      (h_transport (hosts (fst (drive s es l)) (other s')))"
    using side_cases [of s' s] old assms(2)
    by (auto simp: drive_def Let_def suits_def case_prod_beta)
qed

lemma drive_out: "snd (drive s es l) = map (Socket_does s) (snd (run_machine transport_step (h_transport (hosts l s)) es))"
  by (simp add: drive_def Let_def case_prod_beta)

text \<open>A step of the connection itself: what is under way stays the same.\<close>

definition passes_on :: "'h link \<Rightarrow> 'h link \<times> 'h link_effect list \<Rightarrow> bool" where
  "passes_on l r \<longleftrightarrow> (\<forall>s. h_peer (hosts (fst r) s) = h_peer (hosts l s)) \<and>
     (\<exists>s ys. snd r = map (Socket_does s) ys \<and> list_all sound ys) \<and> (linked l \<longrightarrow> linked (fst r)) \<and>
     (\<forall>s ms. carries s l ms \<longrightarrow> carries s (fst r) ms)"

lemma passes_on_refl [simp]: "passes_on l (l, [])"
  by (auto simp: passes_on_def intro: exI [of _ "[]"])

lemma written_passes_on:
  assumes "up (h_transport (hosts l s))"
  shows "passes_on l (link_step l (Written s))"
proof -
  have mv: "moves_on (h_transport (hosts l s)) [] (run_machine transport_step (h_transport (hosts l s)) [Write_done 0])"
    using write_moves_on [OF assms] by (simp add: case_prod_beta Let_def)
  have "carries s' (fst (drive s [Write_done 0] l)) ms" if "carries s' l ms" for s' ms
    using side_cases [of s' s]
  proof
    assume "s' = s"
    with carries_own_tx [OF _ mv] that show ?thesis by simp
  next
    assume "s' = other s"
    with carries_tx [of s' l ms "[]" "[Write_done 0]"] mv that show ?thesis by simp
  qed
  moreover have "linked l \<Longrightarrow> linked (fst (drive s [Write_done 0] l))"
    using mv by (intro drive_linked) (simp_all add: moves_on_def)
  moreover have "\<exists>s' ys. snd (drive s [Write_done 0] l) = map (Socket_does s') ys \<and> list_all sound ys"
    using mv unfolding drive_out moves_on_def by blast
  moreover have "h_peer (hosts (fst (drive s [Write_done 0] l)) s') = h_peer (hosts l s')" for s'
    by (simp add: drive_def Let_def case_prod_beta)
  ultimately show ?thesis by (simp add: passes_on_def)
qed

text \<open>The receiving half of a host\<close>

definition reads_on :: "side \<Rightarrow> 'h link \<Rightarrow> 'h link \<times> 'h link_effect list \<Rightarrow> bool" where
  "reads_on s l r \<longleftrightarrow>
    (let t = h_transport (hosts l s); t' = h_transport (hosts (fst r) s)
     in up t' \<and> tx_queue t' = tx_queue t \<and> info t' = info t \<and> little_endian t' = little_endian t \<and>
       h_peer (hosts (fst r) s) = h_peer (hosts l s) \<and> hosts (fst r) (other s) = hosts l (other s) \<and>
       wire (fst r) (other s) = wire l (other s) \<and>
       (\<exists>ys. snd r = map (Socket_does s) ys \<and> list_all sound ys))"

lemma left_of_cases:
  assumes "left_of l r ws = Some w"
  obtains "r = Reading_header" "ws = []" "w = []"
    | m ms where "r = Reading_header" "ws = m # ms"
        "w = memory_of_word l (compute_header l Msg_wamp m) @ m @ concat (map (wamp_bytes l) ms)"
    | m ms where "r = Reading_payload Msg_wamp (length m)" "ws = m # ms"
        "w = m @ concat (map (wamp_bytes l) ms)"
  using assms by (cases r; cases ws) (auto simp: wamp_bytes_eq split: if_splits)

lemma drive_read:
  assumes "transport_step (h_transport (hosts l s)) e = (t, ys)" and "written_frames ys = []"
  shows "drive s [e] l = (l\<lparr>hosts := (hosts l)(s := (hosts l s)\<lparr>h_transport := t,
      h_posted := h_posted (hosts l s) @ posts ys\<rparr>)\<rparr>, map (Socket_does s) ys)"
proof -
  have "run_machine transport_step (h_transport (hosts l s)) [e] = (t, ys)"
    by (simp only: run_machine.simps assms Let_def case_prod_conv append_Nil2)
  with assms(2) show ?thesis by (cases l) (simp add: drive_def Let_def)
qed

lemma fits_rx [simp]: "fits (t\<lparr>rx_op := r\<rparr>) = fits t" "fits (t\<lparr>rx_frame := f\<rparr>) = fits t"
  by (simp_all add: fits_def fun_eq_iff)

lemma hosts_wire: "hosts (l\<lparr>wire := w\<rparr>) = hosts l"
  by simp

lemma read_result:
  assumes "carries s l ms"
  shows "reads_on s l (link_step l (Readable s)) \<and> carries s (fst (link_step l (Readable s))) ms"
proof -
  let ?t = "h_transport (hosts l s)" and ?u = "h_transport (hosts l (other s))"
  let ?l = "little_endian ?u"
  obtain ps ws where c: "up ?t" "up ?u" "ms = ps @ ws @ map fr_payload (tx_queue ?u)"
      "h_posted (hosts l s) = map Inr ps" "left_of ?l (rx_op ?t) ws = Some (wire l s)"
      "list_all (fits ?t) ms"
    using assms by (auto simp: carries_def Let_def)
  from c(5) show ?thesis
  proof (cases rule: left_of_cases)
    case 1
    then have "link_step l (Readable s) = (l, [])" by (simp add: read_size_def)
    with assms c(1) show ?thesis by (auto simp: reads_on_def Let_def intro: exI [of _ "[]"])
  next
    case (2 m ms')
    then have "fits ?t m" using c(3,6) by simp
    from header_step [OF c(1) 2(1) this, of ?l] obtain f where
      step: "transport_step ?t (Read_done 0 (memory_of_word ?l (compute_header ?l Msg_wamp m))) =
        (?t\<lparr>rx_frame := f, rx_op := Reading_payload Msg_wamp (length m)\<rparr>,
         [Async_read_payload Msg_wamp (length m)])" by blast
    let ?w = "m @ concat (map (wamp_bytes ?l) ms')"
    let ?t' = "?t\<lparr>rx_frame := f, rx_op := Reading_payload Msg_wamp (length m)\<rparr>"
    have "link_step l (Readable s) =
        drive s [Read_done 0 (memory_of_word ?l (compute_header ?l Msg_wamp m))] (l\<lparr>wire := (wire l)(s := ?w)\<rparr>)"
      using 2 by (simp add: read_size_def)
    also have "\<dots> = (l\<lparr>wire := (wire l)(s := ?w), hosts := (hosts l)(s := (hosts l s)\<lparr>h_transport := ?t'\<rparr>)\<rparr>,
        map (Socket_does s) [Async_read_payload Msg_wamp (length m)])"
      using drive_read [of "l\<lparr>wire := (wire l)(s := ?w)\<rparr>" s, unfolded hosts_wire, OF step] by simp
    finally have r: "link_step l (Readable s) = \<dots>" .
    have "left_of ?l (Reading_payload Msg_wamp (length m)) ws = Some ?w" using 2 by simp
    with c have "carries s (fst (link_step l (Readable s))) ms"
      by (simp only: r carries_def Let_def) (auto intro!: exI [of _ ps])
    moreover have "reads_on s l (link_step l (Readable s))"
      using c(1) by (simp only: r reads_on_def Let_def) (auto intro: exI [of _ "[Async_read_payload Msg_wamp (length m)]"])
    ultimately show ?thesis by blast
  next
    case (3 m ms')
    let ?w = "concat (map (wamp_bytes ?l) ms')"
    let ?t' = "?t\<lparr>rx_frame := empty_frame, rx_op := Reading_header\<rparr>"
    have "link_step l (Readable s) = drive s [Read_done 0 m] (l\<lparr>wire := (wire l)(s := ?w)\<rparr>)"
      using 3 by (simp add: read_size_def)
    also have "\<dots> = (l\<lparr>wire := (wire l)(s := ?w), hosts := (hosts l)(s := (hosts l s)\<lparr>h_transport := ?t',
          h_posted := h_posted (hosts l s) @ [Inr m]\<rparr>)\<rparr>, map (Socket_does s) [Post_rx (Inr m), Async_read_header])"
      using drive_read [of "l\<lparr>wire := (wire l)(s := ?w)\<rparr>" s, unfolded hosts_wire, OF payload_step [OF c(1) 3(1)]]
      by simp
    finally have r: "link_step l (Readable s) = \<dots>" .
    have "left_of ?l Reading_header ms' = Some ?w" by simp
    moreover have "ms = (ps @ [m]) @ ms' @ map fr_payload (tx_queue ?u)" using c(3) 3(2) by simp
    ultimately have "carries s (fst (link_step l (Readable s))) ms"
      using c(1,2,4,6)
      by (intro carriesI [where ps = "ps @ [m]" and ws = ms']) (simp_all only: r, simp_all)
    moreover have "reads_on s l (link_step l (Readable s))"
      using c(1) by (simp only: r reads_on_def Let_def) (auto intro: exI [of _ "[Post_rx (Inr m), Async_read_header]"])
    ultimately show ?thesis by blast
  qed
qed

lemma readable_passes_on:
  assumes "carries s l ms"
  shows "passes_on l (link_step l (Readable s))"
proof -
  let ?r = "link_step l (Readable s)"
  have r: "reads_on s l ?r" using read_result [OF assms] by blast
  have other: "carries (other s) (fst ?r) ns" if "carries (other s) l ns" for ns
    using that r by (auto simp: carries_def reads_on_def Let_def)
  have "carries s' (fst ?r) ns" if "carries s' l ns" for s' ns
    using side_cases [of s' s] that read_result [of s l ns] other by blast
  moreover have "linked (fst ?r)" if "linked l"
    unfolding linked_def
  proof
    fix s'
    have "suits (h_peer (hosts l s')) (h_transport (hosts l s')) (h_transport (hosts l (other s')))"
      using that by (simp add: linked_def)
    then show "suits (h_peer (hosts (fst ?r) s')) (h_transport (hosts (fst ?r) s')) (h_transport (hosts (fst ?r) (other s')))"
      using side_cases [of s' s] r by (auto simp: reads_on_def Let_def suits_def)
  qed
  moreover have "h_peer (hosts (fst ?r) s') = h_peer (hosts l s')" for s'
    using side_cases [of s' s] r by (auto simp: reads_on_def Let_def)
  moreover have "\<exists>s ys. snd ?r = map (Socket_does s) ys \<and> list_all sound ys"
    using r by (auto simp: reads_on_def Let_def)
  ultimately show ?thesis unfolding passes_on_def by blast
qed

text \<open>What is under way in both directions, before and after a step or a run\<close>

definition accounted :: "'h link \<Rightarrow> (side \<Rightarrow> bytes list) \<Rightarrow> 'h link \<times> 'h link_effect list \<Rightarrow> bool" where
  "accounted l ms r \<longleftrightarrow> linked (fst r) \<and> sockets_sound (snd r) \<and>
     (\<exists>ms'. \<forall>s. carries s (fst r) (ms' s) \<and>
        ms s @ sends_at (other s) (snd r) = received_at s (snd r) @ ms' s)"

lemma accountedI:
  assumes "linked (fst r)" and "sockets_sound (snd r)" and "\<And>s. carries s (fst r) (ms' s)"
    and "\<And>s. ms s @ sends_at (other s) (snd r) = received_at s (snd r) @ ms' s"
  shows "accounted l ms r"
  using assms unfolding accounted_def by blast

lemma passes_on_accounted:
  assumes "passes_on l r" and "linked l" and "\<forall>s. carries s l (ms s)"
  shows "accounted l ms r"
proof -
  from assms(1) obtain s ys where "snd r = map (Socket_does s) ys" "list_all sound ys"
    by (auto simp: passes_on_def)
  with assms show ?thesis by (intro accountedI [where ms' = ms]) (auto simp: passes_on_def)
qed

lemma use_accounted:
  assumes "linked l" and "\<forall>s. carries s l (ms s)"
    and "\<forall>t c. e \<noteq> Do_open t c" and "stays_open (snd (use_peer s e l))"
  shows "accounted l ms (use_peer s e l)"
proof -
  let ?r = "use_peer s e l"
  note k = use_keeps [OF assms(1) _ _ assms(3,4), of "ms s" "ms (other s)"]
  have k: "linked (fst ?r)" "sockets_sound (snd ?r)" "carries s (fst ?r) (ms s)"
      "\<And>s'. received_at s' (snd ?r) = []" "sends_at (other s) (snd ?r) = []"
      "carries (other s) (fst ?r) (ms (other s) @ sends_at s (snd ?r))"
    using k assms(2) by blast+
  let ?ms = "\<lambda>s'. if s' = s then ms s else ms (other s) @ sends_at s (snd ?r)"
  have "carries s' (fst ?r) (?ms s') \<and> ms s' @ sends_at (other s') (snd ?r) = received_at s' (snd ?r) @ ?ms s'" for s'
    using side_cases [of s' s] k by auto
  with k(1,2) show ?thesis by (intro accountedI [where ms' = ?ms]) blast+
qed

lemma handle_pops:
  assumes "carries s l ms" and "h_posted (hosts l s) = r # rs"
  obtains b ms' where "r = Inr b" "ms = b # ms'"
    "carries s (l\<lparr>hosts := (hosts l)(s := (hosts l s)\<lparr>h_posted := rs\<rparr>)\<rparr>) ms'"
proof -
  obtain ps ws where c: "up (h_transport (hosts l s))" "up (h_transport (hosts l (other s)))"
      "ms = ps @ ws @ map fr_payload (tx_queue (h_transport (hosts l (other s))))"
      "h_posted (hosts l s) = map Inr ps"
      "left_of (little_endian (h_transport (hosts l (other s)))) (rx_op (h_transport (hosts l s))) ws = Some (wire l s)"
      "list_all (fits (h_transport (hosts l s))) ms"
    using assms(1) by (auto simp: carries_def Let_def)
  from c(4) assms(2) obtain b qs where ps: "ps = b # qs" "r = Inr b" "rs = map Inr qs" by auto
  let ?ms = "qs @ ws @ map fr_payload (tx_queue (h_transport (hosts l (other s))))"
  show ?thesis
  proof (rule that [of b ?ms])
    show "carries s (l\<lparr>hosts := (hosts l)(s := (hosts l s)\<lparr>h_posted := rs\<rparr>)\<rparr>) ?ms"
      by (rule carriesI [where ps = qs and ws = ws]) (use c ps in simp_all)
  qed (use c(3) ps in simp_all)
qed

lemma carries_posted_other [simp]:
  "carries (other s) (l\<lparr>hosts := (hosts l)(s := (hosts l s)\<lparr>h_posted := rs\<rparr>)\<rparr>) ms = carries (other s) l ms"
  by (simp add: carries_def Let_def)

lemma linked_posted [simp]:
  "linked (l\<lparr>hosts := (hosts l)(s := (hosts l s)\<lparr>h_posted := rs\<rparr>)\<rparr>) = linked l"
proof -
  have all: "(\<forall>s. P s) \<longleftrightarrow> P Near \<and> P Far" for P using side.exhaust by metis
  show ?thesis by (cases s) (simp_all add: linked_def all)
qed

lemma handle_accounted:
  assumes "linked l" and "\<forall>s. carries s l (ms s)" and "stays_open (snd (link_step l (Handle s)))"
  shows "accounted l ms (link_step l (Handle s))"
proof (cases "h_posted (hosts l s)")
  case Nil
  with assms show ?thesis by (simp add: passes_on_accounted)
next
  case (Cons r rs)
  let ?l = "l\<lparr>hosts := (hosts l)(s := (hosts l s)\<lparr>h_posted := rs\<rparr>)\<rparr>"
  from handle_pops [OF assms(2) [rule_format, of s] Cons]
  obtain b ms' where b: "r = Inr b" "ms s = b # ms'" "carries s ?l ms'" by blast
  let ?ms = "ms(s := ms')"
  let ?r = "use_peer s (Rx b) ?l"
  have step: "link_step l (Handle s) = (fst ?r, Received s b # snd ?r)"
    using Cons b(1) by (simp add: and_then_def rx_event_def Let_def case_prod_beta)
  have "carries s' ?l (?ms s')" for s'
    using side_cases [of s' s] b(3) assms(2) by auto
  moreover have "linked ?l" using assms(1) by simp
  moreover have "stays_open (snd ?r)" using assms(3) unfolding step by simp
  ultimately have "accounted ?l ?ms ?r" by (intro use_accounted) simp_all
  then obtain ms2 where 2: "linked (fst ?r)" "sockets_sound (snd ?r)" "\<And>s'. carries s' (fst ?r) (ms2 s')"
      "\<And>s'. ?ms s' @ sends_at (other s') (snd ?r) = received_at s' (snd ?r) @ ms2 s'"
    by (auto simp: accounted_def)
  have "ms s' @ sends_at (other s') (Received s b # snd ?r) = received_at s' (Received s b # snd ?r) @ ms2 s'" for s'
    using 2(4) [of s'] b(2) by (cases "s' = s") auto
  with 2(1-3) show ?thesis unfolding step by (intro accountedI [where ms' = ms2]) simp_all
qed

definition plain :: "'h link_event \<Rightarrow> bool" where
  "plain e \<longleftrightarrow> (case e of Use s (Do_open t c) \<Rightarrow> False | _ \<Rightarrow> True)"

lemma step_accounted:
  assumes "linked l" and "\<forall>s. carries s l (ms s)" and "plain e" and "stays_open (snd (link_step l e))"
  shows "accounted l ms (link_step l e)"
proof (cases e)
  case (Use s e')
  then have "\<forall>t c. e' \<noteq> Do_open t c" using assms(3) by (auto simp: plain_def)
  with Use assms show ?thesis by (simp add: use_accounted)
next
  case (Written s)
  have "up (h_transport (hosts l s))" using assms(2) moves_up by blast
  then show ?thesis
    unfolding Written using assms(1,2) by (intro passes_on_accounted written_passes_on)
next
  case (Readable s)
  show ?thesis
    unfolding Readable using assms(1,2) by (intro passes_on_accounted readable_passes_on [of s l "ms s"]) simp_all
next
  case (Handle s)
  with assms show ?thesis using handle_accounted by blast
qed

lemma accounted_trans:
  assumes "accounted l ms (l1, out)" and "\<And>ms1. \<forall>s. carries s l1 (ms1 s) \<Longrightarrow> accounted l1 ms1 (l2, out2)"
  shows "accounted l ms (l2, out @ out2)"
proof -
  from assms(1) obtain ms1 where 1: "\<forall>s. carries s l1 (ms1 s)" "sockets_sound out"
      "\<And>s. ms s @ sends_at (other s) out = received_at s out @ ms1 s"
    by (auto simp: accounted_def)
  from assms(2) [OF 1(1)] obtain ms2 where 2: "linked l2" "sockets_sound out2" "\<forall>s. carries s l2 (ms2 s)"
      "\<And>s. ms1 s @ sends_at (other s) out2 = received_at s out2 @ ms2 s"
    by (auto simp: accounted_def)
  have "ms s @ sends_at (other s) (out @ out2) = received_at s (out @ out2) @ ms2 s" for s
    using 1(3) [of s] 2(4) [of s] by (metis append_assoc at_simps(2) at_simps(7))
  with 1 2 show ?thesis by (auto simp: accounted_def)
qed

lemma run_accounted:
  assumes "linked l" and "\<forall>s. carries s l (ms s)" and "list_all plain es"
    and "stays_open (snd (run_machine link_step l es))"
  shows "accounted l ms (run_machine link_step l es)"
  using assms
proof (induction es arbitrary: l ms)
  case Nil
  then show ?case by (auto simp: accounted_def)
next
  case (Cons e es)
  let ?r = "link_step l e"
  let ?q = "run_machine link_step (fst ?r) es"
  have run: "run_machine link_step l (e # es) = (fst ?q, snd ?r @ snd ?q)"
    by (simp only: prod_eq_iff run_machine_Cons_fst run_machine_Cons_snd fst_conv snd_conv)
  from Cons.prems have stay: "stays_open (snd ?r)" "stays_open (snd ?q)" by (simp_all only: run snd_conv out_simps)
  have 1: "accounted l ms (fst ?r, snd ?r)"
    using step_accounted [OF Cons.prems(1,2) _ stay(1)] Cons.prems(3) by simp
  then have "linked (fst ?r)" by (simp add: accounted_def)
  with Cons.IH Cons.prems(3) stay(2) have "accounted (fst ?r) ms1 (fst ?q, snd ?q)"
    if "\<forall>s. carries s (fst ?r) (ms1 s)" for ms1
    using that by simp
  from accounted_trans [OF 1 this] show ?case unfolding run .
qed

text \<open>Nothing is under way to \<open>s\<close>.\<close>

definition idle :: "side \<Rightarrow> 'h link \<Rightarrow> bool" where
  "idle s l \<longleftrightarrow> h_posted (hosts l s) = [] \<and> wire l s = [] \<and> rx_op (h_transport (hosts l s)) = Reading_header \<and>
     tx_queue (h_transport (hosts l (other s))) = []"

lemma wamp_bytes_Nil [simp]: "wamp_bytes l m \<noteq> []"
proof -
  have "length (wamp_bytes l m) = 4 + length m" by (simp add: wamp_bytes_eq)
  then show ?thesis by auto
qed

lemma carries_idle: "carries s l ms \<Longrightarrow> idle s l \<Longrightarrow> ms = []"
  by (auto simp: carries_def idle_def Let_def)

lemma idle_carries:
  "idle s l \<Longrightarrow> up (h_transport (hosts l s)) \<Longrightarrow> up (h_transport (hosts l (other s))) \<Longrightarrow> carries s l []"
  by (auto simp: carries_def idle_def Let_def)

text \<open>A connection in use, between two messages\<close>

definition quiet_link :: "'h link \<Rightarrow> bool" where
  "quiet_link l \<longleftrightarrow> linked l \<and> (\<forall>s. idle s l \<and> up (h_transport (hosts l s)))"

text \<open>
  C5: whatever the users of two linked peers do, and in whatever order writes end, bytes
  arrive and posted handlers run, each peer is given exactly the buffers that the other
  handed to its transport, in order and each at most once, and all of them once nothing is under way; no
  transport is misused.  This holds until a peer closes its transport.
\<close>

theorem buffers_cross_link:
  assumes "quiet_link l" and "list_all plain es" and "run_machine link_step l es = (l', out)"
    and "stays_open out"
  shows "sockets_sound out \<and> (\<forall>s. \<exists>rest. sends_at (other s) out = received_at s out @ rest \<and>
    (idle s l' \<longrightarrow> rest = []))"
proof -
  have "\<forall>s. carries s l []" using assms(1) by (auto simp: quiet_link_def intro: idle_carries)
  with run_accounted [of l "\<lambda>s. []" es] assms have "accounted l (\<lambda>s. []) (l', out)"
    by (simp add: quiet_link_def)
  then obtain ms' where "sockets_sound out" and m: "\<And>s. carries s l' (ms' s)"
      "\<And>s. sends_at (other s) out = received_at s out @ ms' s"
    by (auto simp: accounted_def)
  moreover have "\<exists>rest. sends_at (other s) out = received_at s out @ rest \<and> (idle s l' \<longrightarrow> rest = [])" for s
    using m(2) [of s] carries_idle [OF m(1)] by blast
  ultimately show ?thesis by blast
qed

end
