(* ===== verification/Link_Requests.thy ===== *)
theory Link_Requests
  imports Peer_Link
begin

section \<open>A request and its answer, from one peer to the other\<close>

text \<open>
  One request over the connection of \<open>Peer_Link\<close>: what \<open>Peer::request\<close> encodes is what the other
  peer decodes, parses and hands to its user, and the answer calls the handler of the request.
  The codecs are parameters; that they read back what they write is what \<open>Variant_Codec\<close> shows
  of the encoders and decoders.
\<close>

subsection \<open>A message as the codec hands it over\<close>

definition as_received :: "wamp_message \<Rightarrow> wamp_message" where
  "as_received m = m\<lparr>msg_fields := map normalized (msg_fields m)\<rparr>"

lemma as_received_type [simp]: "msg_type (as_received m) = msg_type m"
  by (simp add: as_received_def)

lemma type_id_normalized: "type_id_of v \<noteq> T_uint \<Longrightarrow> type_id_of (normalized v) = type_id_of v"
  by (cases v) simp_all

lemma conforms_no_uint:
  assumes "conforms t fs"
  shows "T_uint \<notin> set (map type_id_of fs)"
proof -
  have "T_uint \<notin> set (field_types (lookup_traits t))" if "t \<in> set named_msg_types"
    by (cases t) (use that in \<open>simp_all add: lookup_named no_message_def named_code\<close>)
  with assms show ?thesis by (auto simp: conforms_def dest: in_set_takeD)
qed

lemma conforms_normalized:
  assumes "conforms t fs"
  shows "conforms t (map normalized fs)"
proof -
  have "map type_id_of (map normalized fs) = map type_id_of fs"
    using conforms_no_uint [OF assms] by (force intro!: type_id_normalized)
  with assms show ?thesis by (cases fs) (auto simp: conforms_def split: variant.splits)
qed

lemma parse_as_received:
  assumes "parse_message (msg_fields m) = Inr m"
  shows "parse_message (msg_fields (as_received m)) = Inr (as_received m)"
  using assms conforms_normalized by (simp add: parse_message_iff as_received_def)

lemma int_field_normalized:
  assumes "parse_message (msg_fields m) = Inr m"
  shows "int_field (as_received m) i = int_field m i"
proof -
  have "normalized (msg_fields m ! i) = msg_fields m ! i \<or> (\<forall>w. msg_fields m ! i \<noteq> V_int w \<and> normalized (msg_fields m ! i) \<noteq> V_int w)"
    if "i < length (msg_fields m)"
  proof -
    have "type_id_of (msg_fields m ! i) \<noteq> T_uint"
    proof -
      have "type_id_of (msg_fields m ! i) \<in> set (map type_id_of (msg_fields m))" using that by simp
      then show ?thesis
        using conforms_no_uint [of "msg_type m" "msg_fields m"] assms by (metis parse_message_iff)
    qed
    then show ?thesis by (cases "msg_fields m ! i") auto
  qed
  then show ?thesis by (auto simp: int_field_def as_received_def vec_at_def split: variant.split)
qed

lemma reply_key_as_received:
  assumes "parse_message (msg_fields m) = Inr m"
  shows "reply_key (as_received m) = reply_key m"
  using int_field_normalized [OF assms]
  by (simp add: reply_key_def message_replies_to_def request_id_of_def request_key_def Let_def)

lemma request_id_as_received:
  "parse_message (msg_fields m) = Inr m \<Longrightarrow> request_id_of (as_received m) = request_id_of m"
  by (simp add: request_id_of_def int_field_normalized Let_def)

text \<open>\<open>reads_back c d m\<close>: what \<open>c\<close> encodes of the message is decoded by \<open>d\<close>, as \<open>codec_roundtrip\<close> has it.\<close>

definition reads_back :: "codec \<Rightarrow> codec \<Rightarrow> wamp_message \<Rightarrow> bool" where
  "reads_back c d m \<longleftrightarrow> decode d (encode c (msg_fields m)) = (no_error, V_array (map normalized (msg_fields m)))"

lemma rx_as_received:
  assumes "reads_back c (p_codec q) m" and "parse_message (msg_fields m) = Inr m"
    and "is_valid_rx (lookup_traits (msg_type m)) (p_state q) (p_is_router q)"
  shows "rx_message q (encode c (msg_fields m)) = Some (as_received m)"
  using assms parse_as_received [OF assms(2)]
  by (simp add: rx_message_Some reads_back_def as_received_def)

lemma set_request_id_parses:
  assumes "parse_message (msg_fields m) = Inr m" and "has_request_id m"
  shows "parse_message (msg_fields (set_request_id i m)) = Inr (set_request_id i m)"
proof -
  let ?j = "id_position (lookup_traits (msg_type m))"
  have c: "conforms (msg_type m) (msg_fields m)" using assms(1) by (simp add: parse_message_iff)
  have j: "0 < ?j" "?j < length (msg_fields m)"
    using assms(2) id_position_in_fields [OF c] by (simp_all add: has_request_id_def)
  have "field_types (lookup_traits (msg_type m)) ! ?j = T_integer"
    using assms(2) c by (cases "msg_type m") (auto simp: has_request_id_def conforms_def lookup_named named_code)
  then have "conforms (msg_type m) ((msg_fields m)[?j := id_variant i])"
    using c j by (intro conforms_update) (simp_all add: id_variant_def)
  then show ?thesis using j by (simp add: parse_message_iff set_request_id_def Let_def)
qed

subsection \<open>What the peers do\<close>

lemma sends_quiet [simp]:
  "sends (check_that c) = []" "sends (trace_tx m p) = []" "sends (trace_rx vs p) = []"
  "sends (hand_to_transport b p) = (if p_transport p = None then [] else [b])"
  by (auto simp: sends_def check_that_def trace_tx_def trace_rx_def trace_effects_def hand_to_transport_def)

lemma no_calls_of_transport [simp]:
  "Transport_start \<notin> set (check_that c)" "Transport_close \<notin> set (check_that c)"
  "Transport_start \<notin> set (trace_tx m p)" "Transport_close \<notin> set (trace_tx m p)"
  "Transport_start \<notin> set (trace_rx vs p)" "Transport_close \<notin> set (trace_rx vs p)"
  "Transport_start \<notin> set (hand_to_transport b p)" "Transport_close \<notin> set (hand_to_transport b p)"
  by (auto simp: check_that_def trace_tx_def trace_rx_def trace_effects_def hand_to_transport_def)

lemma sends_Cons [simp]: "sends (Post_error h ec # xs) = sends xs" "sends (Call_handler h m # xs) = sends xs"
  "sends (Inbound_message m # xs) = sends xs"
  by (simp_all add: sends_def)

lemma request_sends:
  assumes "request msg h p = (i, q, xs)" and "has_request_id msg" and "p_transport p \<noteq> None"
    and "length (encode (p_codec p) (msg_fields (set_request_id i msg))) \<le> p_max_tx p"
  shows "sends xs = [encode (p_codec p) (msg_fields (set_request_id i msg))]"
    "Transport_start \<notin> set xs" "Transport_close \<notin> set xs"
proof -
  have i: "i = fst (next_request_id p)"
    using assms(1,2)
    by (auto simp: request_def request_pending_def send_request_def set_message_request_id_def Let_def
        case_prod_beta split: if_splits)
  then have sent: "set_message_request_id msg p = (i, set_request_id i msg, p\<lparr>p_next_id := i\<rparr>)"
    using assms(2) by (simp add: set_message_request_id_def case_prod_beta next_request_id_snd)
  have "sends xs = [encode (p_codec p) (msg_fields (set_request_id i msg))] \<and>
      Transport_start \<notin> set xs \<and> Transport_close \<notin> set xs"
    using assms(1,3,4)
    by (auto simp: request_def request_pending_def send_request_def sent Let_def case_prod_beta
        split: option.splits if_splits)
  then show "sends xs = [encode (p_codec p) (msg_fields (set_request_id i msg))]"
    "Transport_start \<notin> set xs" "Transport_close \<notin> set xs" by simp_all
qed

text \<open>A message as \<open>send\<close> encodes it: those that have a request ID are given the next one.\<close>

definition as_sent :: "wamp_message \<Rightarrow> 'h peer \<Rightarrow> wamp_message" where
  "as_sent m p = fst (snd (set_message_request_id m p))"

lemma as_sent_without_id [simp]: "\<not> has_request_id m \<Longrightarrow> as_sent m p = m"
  by (simp add: as_sent_def set_message_request_id_def)

text \<open>
  This includes the answers of a router that have an ID at the place where requests have it:
  the ID of the request that a RESULT answers is overwritten with the next one of the peer.
\<close>

lemma answers_renumbered:
  "as_sent \<lparr>msg_type = W_result, msg_fields = [V_int 50, V_int i, V_object ob]\<rparr> p =
     \<lparr>msg_type = W_result, msg_fields = [V_int 50, id_variant (fst (next_request_id p)), V_object ob]\<rparr>"
  by (simp add: as_sent_def set_message_request_id_def has_request_id_def lookup_named case_prod_beta
      set_request_id_def)

lemma send_sends:
  assumes "p_transport p \<noteq> None"
    and "length (encode (p_codec p) (msg_fields (as_sent m p))) \<le> p_max_tx p"
  shows "sends (snd (snd (send m p))) = [encode (p_codec p) (msg_fields (as_sent m p))]"
    "Transport_start \<notin> set (snd (snd (send m p)))" "Transport_close \<notin> set (snd (snd (send m p)))"
  using assms
  by (auto simp: send_def send_message_def set_message_request_id_def as_sent_def next_request_id_snd
      Let_def case_prod_beta split: if_splits)

subsection \<open>Across the connection\<close>

definition by_network :: "'h link_event \<Rightarrow> bool" where
  "by_network e \<longleftrightarrow> (case e of Use s x \<Rightarrow> False | _ \<Rightarrow> True)"

lemma drive_nothing: "drive s [] l = (l, [])"
  by (cases l) (simp add: drive_def)

lemma use_silent:
  assumes "sends (snd (peer_step (h_peer (hosts l s)) e)) = []"
    and "Transport_start \<notin> set (snd (peer_step (h_peer (hosts l s)) e))"
    and "Transport_close \<notin> set (snd (peer_step (h_peer (hosts l s)) e))"
  shows "use_peer s e l = (l\<lparr>hosts := (hosts l)(s := (hosts l s)\<lparr>h_peer := fst (peer_step (h_peer (hosts l s)) e)\<rparr>)\<rparr>,
      map (Peer_does s) (snd (peer_step (h_peer (hosts l s)) e)))"
  using transport_calls_open [OF assms(2,3)] assms(1)
  by (simp add: use_peer_def and_then_def drive_nothing Let_def case_prod_beta)

lemma handle_nothing: "carries s l [] \<Longrightarrow> link_step l (Handle s) = (l, [])"
  by (auto simp: carries_def Let_def)

lemma by_network_cases:
  assumes "by_network e" and "\<forall>s. \<exists>ms. carries s l ms"
  obtains "passes_on l (link_step l e)"
    | s r rs where "e = Handle s" "h_posted (hosts l s) = r # rs"
proof (cases e)
  case (Use s x)
  with assms(1) show ?thesis by (simp add: by_network_def)
next
  case (Written s)
  then show ?thesis using assms(2) moves_up written_passes_on that(1) by blast
next
  case (Readable s)
  then show ?thesis using assms(2) readable_passes_on that(1) by blast
next
  case (Handle s)
  then show ?thesis by (cases "h_posted (hosts l s)") (auto intro: that)
qed

lemma passes_onD:
  assumes "passes_on l r" and "linked l" and "\<forall>s. carries s l (ms s)"
  shows "linked (fst r)" "\<forall>s. carries s (fst r) (ms s)" "h_peer (hosts (fst r) s) = h_peer (hosts l s)"
    "peer_effects s (snd r) = []"
  using assms by (auto simp: passes_on_def)

lemma run_Cons: "run_machine step s (e # es) =
    (fst (run_machine step (fst (step s e)) es), snd (step s e) @ snd (run_machine step (fst (step s e)) es))"
  by (simp add: Let_def case_prod_beta)

text \<open>While nothing is under way, the network changes no peer and hands nothing over.\<close>

lemma quiet_network:
  assumes "linked l" and "\<forall>s. carries s l []" and "list_all by_network es"
  shows "linked (fst (run_machine link_step l es)) \<and> (\<forall>s. carries s (fst (run_machine link_step l es)) []) \<and>
    (\<forall>s. h_peer (hosts (fst (run_machine link_step l es)) s) = h_peer (hosts l s)) \<and>
    (\<forall>s. peer_effects s (snd (run_machine link_step l es)) = [])"
  using assms
proof (induction es arbitrary: l)
  case Nil
  then show ?case by simp
next
  case (Cons e es)
  let ?r = "link_step l e"
  have "passes_on l ?r"
  proof (rule by_network_cases [of e l])
    show "by_network e" "\<forall>s. \<exists>ms. carries s l ms" using Cons.prems by auto
    show "passes_on l ?r" if "e = Handle s" "h_posted (hosts l s) = r # rs" for s r rs
      using handle_pops [OF Cons.prems(2) [rule_format] that(2)] by blast
  qed
  note p = passes_onD [OF this Cons.prems(1), of "\<lambda>s. []", OF Cons.prems(2)]
  from Cons.IH [OF p(1,2)] Cons.prems(3) p(3,4) show ?case
    unfolding run_Cons fst_conv snd_conv by simp
qed

text \<open>One message is under way to \<open>s\<close>, whose peer sends nothing when it is given it.\<close>

lemma message_delivered:
  assumes "linked l" and "carries s l [b]" and "carries (other s) l []" and "list_all by_network es"
    and "idle s (fst (run_machine link_step l es))"
    and "on_transport_rx b (h_peer (hosts l s)) = (q, xs)" and "sends xs = []"
    and "Transport_start \<notin> set xs" and "Transport_close \<notin> set xs"
  shows "linked (fst (run_machine link_step l es)) \<and> (\<forall>s'. carries s' (fst (run_machine link_step l es)) []) \<and>
    h_peer (hosts (fst (run_machine link_step l es)) s) = q \<and>
    h_peer (hosts (fst (run_machine link_step l es)) (other s)) = h_peer (hosts l (other s)) \<and>
    peer_effects s (snd (run_machine link_step l es)) = xs"
  using assms
proof (induction es arbitrary: l)
  case Nil
  then show ?case using carries_idle by fastforce
next
  case (Cons e es)
  let ?r = "link_step l e"
  let ?ms = "\<lambda>s'. if s' = s then [b] else []"
  have c: "\<forall>s'. carries s' l (?ms s')" using side_cases [of _ s] Cons.prems(2,3) by auto
  have e: "by_network e" "\<forall>s'. \<exists>ms. carries s' l ms" using Cons.prems(4) c by auto
  from e show ?case
  proof (cases rule: by_network_cases)
    case 1
    note p = passes_onD [OF 1 Cons.prems(1) c]
    have "carries s (fst ?r) [b]" "carries (other s) (fst ?r) []" using spec [OF p(2), of s] spec [OF p(2), of "other s"] by simp_all
    from Cons.IH [OF p(1) this] Cons.prems(4-9) p(3,4) show ?thesis
      unfolding run_Cons fst_conv snd_conv by simp
  next
    case (2 s' r rs)
    have s': "s' = s"
      using side_cases [of s' s] handle_pops [OF c [rule_format, of s'] 2(2)] by force
    let ?l = "l\<lparr>hosts := (hosts l)(s := (hosts l s)\<lparr>h_posted := rs\<rparr>)\<rparr>"
    let ?x = "peer_step (h_peer (hosts ?l s)) (Rx b)"
    have r: "r = Inr b" using handle_pops [OF Cons.prems(2)] 2(2) s' by blast
    have x: "?x = (q, xs)" using Cons.prems(6) by simp
    have use: "use_peer s (Rx b) ?l =
        (?l\<lparr>hosts := (hosts ?l)(s := (hosts ?l s)\<lparr>h_peer := q\<rparr>)\<rparr>, map (Peer_does s) xs)"
      using use_silent [of ?l s "Rx b"] Cons.prems(7-9) x by simp
    have step: "?r = (?l\<lparr>hosts := (hosts ?l)(s := (hosts ?l s)\<lparr>h_peer := q\<rparr>)\<rparr>,
        Received s b # map (Peer_does s) xs)"
      using 2 s' r use by (simp add: and_then_def rx_event_def Let_def)
    have "accounted l ?ms ?r"
      unfolding 2(1) s' by (rule handle_accounted)
        (use Cons.prems(1,8,9) c step 2(1) s' in simp_all)
    then obtain ms' where a: "linked (fst ?r)" "\<And>s'. carries s' (fst ?r) (ms' s')"
        "\<And>s'. ?ms s' @ sends_at (other s') (snd ?r) = received_at s' (snd ?r) @ ms' s'"
      by (auto simp: accounted_def)
    have "ms' s' = []" for s'
      using a(3) [of s'] Cons.prems(7) by (cases "s' = s") (auto simp: step split: if_splits)
    with a(2) have none: "\<forall>s'. carries s' (fst ?r) []" by metis
    have "list_all by_network es" using Cons.prems(4) by simp
    from quiet_network [OF a(1) none this] show ?thesis
      unfolding run_Cons fst_conv snd_conv by (simp add: step)
  qed
qed

text \<open>What the user of a peer makes it do\<close>

lemma use_result:
  assumes "linked l" and "carries s l ms" and "carries (other s) l ns"
    and "\<forall>t c. e \<noteq> Do_open t c" and "peer_step (h_peer (hosts l s)) e = (p, xs)"
    and "Transport_start \<notin> set xs" and "Transport_close \<notin> set xs"
  shows "linked (fst (use_peer s e l)) \<and> carries s (fst (use_peer s e l)) ms \<and>
    carries (other s) (fst (use_peer s e l)) (ns @ sends xs) \<and> h_peer (hosts (fst (use_peer s e l)) s) = p \<and>
    h_peer (hosts (fst (use_peer s e l)) (other s)) = h_peer (hosts l (other s)) \<and>
    peer_effects s (snd (use_peer s e l)) = xs \<and> peer_effects (other s) (snd (use_peer s e l)) = []"
proof -
  let ?r = "use_peer s e l"
  have r: "peer_effects s (snd ?r) = xs" "peer_effects (other s) (snd ?r) = []" "h_peer (hosts (fst ?r) s) = p"
      "h_peer (hosts (fst ?r) (other s)) = h_peer (hosts l (other s))" "stays_open (snd ?r)"
    using assms(5-7) by (simp_all add: use_peer_def and_then_def drive_def Let_def case_prod_beta)
  from use_keeps [OF assms(1-4) r(5)] r(1-4) show ?thesis by (simp add: sends_at_def)
qed

lemma process_request:
  assumes "rx_message q b = Some m" and "message_replies_to m = W_none" and "has_request_id m"
    and "p_state q = Established"
  shows "on_transport_rx b q = (q, trace_rx (msg_fields m) q @ [Inbound_message m])"
proof -
  have "msg_type m \<notin> {W_hello, W_welcome, W_abort, W_challenge, W_goodbye, W_error}"
    using assms(3) by (auto simp: has_request_id_def lookup_named)
  then have "process_message m q = (q, [Inbound_message m])"
    using assms(2,4) by (cases "msg_type m") (simp_all add: process_message_def)
  then show ?thesis using on_transport_rx_accepted [OF assms(1)] by (simp add: and_then_def)
qed

lemma set_request_id_type [simp]: "msg_type (set_request_id i m) = msg_type m"
  by (simp add: set_request_id_def Let_def)

lemma request_crosses:
  assumes "linked l" "\<forall>s. carries s l []"
    and "parse_message (msg_fields msg) = Inr msg" "has_request_id msg" "message_replies_to msg = W_none"
    and "request msg h (h_peer (hosts l s)) = (i, p1, xs)"
    and "p_transport (h_peer (hosts l s)) \<noteq> None"
    and "length (encode (p_codec (h_peer (hosts l s))) (msg_fields (set_request_id i msg))) \<le> p_max_tx (h_peer (hosts l s))"
    and "reads_back (p_codec (h_peer (hosts l s))) (p_codec (h_peer (hosts l (other s)))) (set_request_id i msg)"
    and "p_state (h_peer (hosts l (other s))) = Established"
    and "is_valid_rx (lookup_traits (msg_type msg)) Established (p_is_router (h_peer (hosts l (other s))))"
    and "run_machine link_step l (Use s (Do_request msg h) # es) = (l1, out1)"
    and "list_all by_network es" and "idle (other s) l1"
  shows "linked l1 \<and> (\<forall>s. carries s l1 []) \<and> h_peer (hosts l1 s) = p1 \<and>
    h_peer (hosts l1 (other s)) = h_peer (hosts l (other s)) \<and>
    peer_effects (other s) out1 =
      trace_rx (msg_fields (as_received (set_request_id i msg))) (h_peer (hosts l (other s))) @
      [Inbound_message (as_received (set_request_id i msg))]"
proof -
  let ?m = "set_request_id i msg" and ?q = "h_peer (hosts l (other s))"
  let ?b = "encode (p_codec (h_peer (hosts l s))) (msg_fields ?m)"
  let ?r = "use_peer s (Do_request msg h) l"
  note sent = request_sends [OF assms(6,4,7,8)]
  have "rx_message ?q ?b = Some (as_received ?m)"
    using assms(10,11) by (intro rx_as_received [OF assms(9) set_request_id_parses [OF assms(3,4)]]) simp
  then have rx: "on_transport_rx ?b ?q =
      (?q, trace_rx (msg_fields (as_received ?m)) ?q @ [Inbound_message (as_received ?m)])"
    using assms(4,5,10)
    by (intro process_request) (simp_all add: message_replies_to_def has_request_id_def)
  have "peer_step (h_peer (hosts l s)) (Do_request msg h) = (p1, xs)" by (simp add: assms(6))
  from use_result [OF assms(1) _ _ _ this sent(2,3), unfolded sent(1), of "[]" "[]"] assms(2)
  have u: "linked (fst ?r)" "carries s (fst ?r) []" "carries (other s) (fst ?r) [?b]"
      "h_peer (hosts (fst ?r) s) = p1" "h_peer (hosts (fst ?r) (other s)) = ?q"
      "peer_effects (other s) (snd ?r) = []" by simp_all
  have run: "l1 = fst (run_machine link_step (fst ?r) es)"
      "out1 = snd ?r @ snd (run_machine link_step (fst ?r) es)"
    using assms(12) unfolding run_Cons by auto
  show ?thesis
    using message_delivered [OF u(1,3) _ assms(13)] u rx assms(14) by (simp add: run)
qed

lemma answer_crosses:
  assumes "linked l1" "\<forall>s. carries s l1 []"
    and "p_transport (h_peer (hosts l1 (other s))) \<noteq> None"
    and "length (encode (p_codec (h_peer (hosts l1 (other s)))) (msg_fields (as_sent reply (h_peer (hosts l1 (other s)))))) \<le> p_max_tx (h_peer (hosts l1 (other s)))"
    and "on_transport_rx (encode (p_codec (h_peer (hosts l1 (other s)))) (msg_fields (as_sent reply (h_peer (hosts l1 (other s)))))) (h_peer (hosts l1 s)) =
      (p2, trace_rx vs p1 @ [Call_handler h m])"
    and "run_machine link_step l1 (Use (other s) (Do_send reply) # es) = (l2, out2)"
    and "list_all by_network es" and "idle s l2"
  shows "h_peer (hosts l2 s) = p2 \<and> peer_effects s out2 = trace_rx vs p1 @ [Call_handler h m]"
proof -
  let ?c = "encode (p_codec (h_peer (hosts l1 (other s)))) (msg_fields (as_sent reply (h_peer (hosts l1 (other s)))))"
  let ?r = "use_peer (other s) (Do_send reply) l1"
  obtain q' ys where send: "snd (send reply (h_peer (hosts l1 (other s)))) = (q', ys)" by force
  then have step: "peer_step (h_peer (hosts l1 (other s))) (Do_send reply) = (q', ys)" by simp
  note sent = send_sends [OF assms(3,4), unfolded send fst_conv snd_conv]
  from use_result [OF assms(1) _ _ _ step sent(2,3), unfolded sent(1), of "[]" "[]"] assms(2)
  have u: "linked (fst ?r)" "carries (other s) (fst ?r) []" "carries s (fst ?r) [?c]"
      "h_peer (hosts (fst ?r) s) = h_peer (hosts l1 s)" "peer_effects s (snd ?r) = []" by simp_all
  have run: "l2 = fst (run_machine link_step (fst ?r) es)"
      "out2 = snd ?r @ snd (run_machine link_step (fst ?r) es)"
    using assms(6) unfolding run_Cons by auto
  from message_delivered [OF u(1,3,2) assms(7) _ assms(5) [folded u(4)]] assms(8)
  show ?thesis by (simp add: run u(5))
qed

text \<open>
  C6: a request that one peer makes of the other, over transports that are idle, reaches the
  user of the other as it was made, with its request ID, however the bytes arrive and the handlers run;
  the answer that this user sends for that ID reaches the handler given with the request,
  and that handler only, and the request is no longer pending.
\<close>

theorem request_answered_across_link:
  assumes "quiet_link l" and "h_peer (hosts l s) = p" and "h_peer (hosts l (other s)) = q"
    and "parse_message (msg_fields msg) = Inr msg" and "has_request_id msg"
    and "message_replies_to msg = W_none" and "request msg h p = (i, p1, xs)"
    and "p_transport p \<noteq> None" and "length (encode (p_codec p) (msg_fields (set_request_id i msg))) \<le> p_max_tx p"
    and "reads_back (p_codec p) (p_codec q) (set_request_id i msg)"
    and "p_state q = Established" and "is_valid_rx (lookup_traits (msg_type msg)) Established (p_is_router q)"
    and "run_machine link_step l (Use s (Do_request msg h) # es) = (l1, out1)"
    and "list_all by_network es" and "idle (other s) l1"
    and "as_sent answer q = reply" and "parse_message (msg_fields reply) = Inr reply"
    and "reply_key reply = Some (msg_type msg, i)"
    and "p_transport q \<noteq> None" and "length (encode (p_codec q) (msg_fields reply)) \<le> p_max_tx q"
    and "reads_back (p_codec q) (p_codec p) reply"
    and "is_valid_rx (lookup_traits (msg_type reply)) (p_state p) (p_is_router p)"
    and "run_machine link_step l1 (Use (other s) (Do_send answer) # es') = (l2, out2)"
    and "list_all by_network es'" and "idle s l2"
  shows "peer_effects (other s) out1 =
      trace_rx (msg_fields (as_received (set_request_id i msg))) q @
      [Inbound_message (as_received (set_request_id i msg))] \<and>
    peer_effects s out2 = trace_rx (msg_fields (as_received reply)) p1 @ [Call_handler h (as_received reply)] \<and>
    p_one_shot (h_peer (hosts l2 s)) = omap_erase (msg_type msg, i) (p_one_shot p)"
proof -
  have l: "linked l" "\<forall>s. carries s l []"
    using assms(1) by (auto simp: quiet_link_def intro: idle_carries)
  have 1: "linked l1" "\<forall>s. carries s l1 []" "h_peer (hosts l1 s) = p1" "h_peer (hosts l1 (other s)) = q"
      "peer_effects (other s) out1 = trace_rx (msg_fields (as_received (set_request_id i msg))) q @
        [Inbound_message (as_received (set_request_id i msg))]"
    using request_crosses [where s = s, OF l, unfolded assms(2,3), OF assms(4-15)] by simp_all
  have "id_in_range p" using l(1) assms(2) by (auto simp: linked_def suits_def)
  moreover have "reply_key (as_received reply) = Some (msg_type msg, i)"
    using reply_key_as_received [OF assms(17)] assms(18) by simp
  ultimately obtain p2 where
    2: "on_transport_rx (encode (p_codec q) (msg_fields reply)) p1 =
        (p2, trace_rx (msg_fields (as_received reply)) p1 @ [Call_handler h (as_received reply)])"
      "p_one_shot p2 = omap_erase (msg_type msg, i) (p_one_shot p)"
    using request_reply [OF assms(7) _ assms(4,5,9) rx_as_received [OF assms(21,17,22)]] by blast
  have "h_peer (hosts l2 s) = p2 \<and> peer_effects s out2 =
      trace_rx (msg_fields (as_received reply)) p1 @ [Call_handler h (as_received reply)]"
    by (rule answer_crosses [where s = s, OF 1(1,2), unfolded 1(3,4), where reply = answer, unfolded assms(16), OF assms(19,20) 2(1) assms(23-25)])
  with 1(5) 2(2) show ?thesis by simp
qed

subsection \<open>Witnesses\<close>

definition list_codec :: "varray list \<Rightarrow> codec" where
  "list_codec ms = \<lparr>encode = \<lambda>fs. [of_nat (length (takeWhile (\<lambda>g. g \<noteq> fs) ms))],
     decode = \<lambda>b. case b of [n] \<Rightarrow> (no_error, V_array (ms ! unat n)) | _ \<Rightarrow> (decoding_ec DE_failure, V_null)\<rparr>"

definition demo_link :: "varray list \<Rightarrow> nat link" where
  "demo_link ms =
    (let p = (init_peer True (list_codec ms))\<lparr>p_state := Established, p_max_tx := 512,
           p_transport := Some \<lparr>tr_started = True, tr_max_tx = 512\<rparr>\<rparr>
     in \<lparr>hosts = (\<lambda>s. \<lparr>h_peer = p\<lparr>p_is_router := (s = Far)\<rparr>,
           h_transport = quiet_listener\<lparr>little_endian := (s = Near)\<rparr>, h_posted = []\<rparr>),
         wire = (\<lambda>s. [])\<rparr>)"

definition demo_messages :: "varray list" where
  "demo_messages = [[V_int 48, V_int 1, V_object [], V_string ''f''],
     [V_int 50, V_int 1, V_object []]]"

lemma quiet_demo: "quiet_link (demo_link ms)"
proof -
  have "up (quiet_listener\<lparr>little_endian := b\<rparr>) \<and> rx_op quiet_listener = Reading_header" for b
    by (simp add: up_def sending_def quiet_listener_def transport_start_def transport_create_def receive_def)
  then show ?thesis
    by (auto simp: quiet_link_def linked_def suits_def idle_def demo_link_def Let_def quiet_listener_eq
        id_in_range_def init_peer_def max_request_id_def list_codec_def)
qed

definition demo_network :: "side \<Rightarrow> 'h link_event list" where
  "demo_network s = [Readable s, Written (other s), Readable s, Handle s]"

definition demo_request :: wamp_message where
  "demo_request = \<lparr>msg_type = W_call, msg_fields = [V_int 48, V_int 0, V_object [], V_string ''f'']\<rparr>"

definition demo_reply :: wamp_message where
  "demo_reply = \<lparr>msg_type = W_result, msg_fields = [V_int 50, V_int 1, V_object []]\<rparr>"

definition demo_answer :: wamp_message where
  "demo_answer = set_request_id 0 demo_reply"

definition demo_run :: "nat link \<times> nat link_effect list" where
  "demo_run = run_machine link_step (demo_link demo_messages)
     (Use Near (Do_request demo_request 7) # demo_network Far)"

definition demo_run2 :: "nat link \<times> nat link_effect list" where
  "demo_run2 = run_machine link_step (fst demo_run) (Use Far (Do_send demo_answer) # demo_network Near)"

lemma demo_facts:
  "idle Far (fst demo_run)" "idle Near (fst demo_run2)"
  "fst (request demo_request (7::nat) (h_peer (hosts (demo_link demo_messages) Near))) = 1"
  by code_simp+

lemma demo_effects:
  "peer_effects Near (snd demo_run) = [Transport_send [0]]"
  "peer_effects Far (snd demo_run) = [Inbound_message (set_request_id 1 demo_request)]"
  "sends_at Near (snd demo_run) = [[0]]" "received_at Far (snd demo_run) = [[0]]"
  by code_simp+

lemma demo_levels:
  "current_log_level (h_peer (hosts (demo_link demo_messages) Far)) = Log_off"
  "current_log_level (fst (snd (request demo_request (7::nat) (h_peer (hosts (demo_link demo_messages) Near))))) = Log_off"
  by code_simp+

lemma stays_open_effects:
  "stays_open out \<longleftrightarrow> (\<forall>s. Transport_start \<notin> set (peer_effects s out) \<and> Transport_close \<notin> set (peer_effects s out))"
  by (auto simp: stays_open_def peer_effects_def split: link_effect.splits if_splits)

lemma demo_stays_open: "stays_open (snd demo_run)"
proof -
  have "Transport_start \<notin> set (peer_effects s (snd demo_run)) \<and>
      Transport_close \<notin> set (peer_effects s (snd demo_run))" for s
    by (cases s) (simp_all add: demo_effects)
  then show ?thesis by (simp add: stays_open_effects)
qed

theorem buffers_cross_link_witness:
  "sockets_sound (snd demo_run) \<and> (\<exists>rest. sends_at Near (snd demo_run) = received_at Far (snd demo_run) @ rest) \<and>
    sends_at Near (snd demo_run) = [[0]] \<and> received_at Far (snd demo_run) = [[0]]"
proof -
  have "sockets_sound (snd demo_run) \<and> (\<forall>s. \<exists>rest. sends_at (other s) (snd demo_run) =
      received_at s (snd demo_run) @ rest \<and> (idle s (fst demo_run) \<longrightarrow> rest = []))"
  proof (rule buffers_cross_link [OF quiet_demo])
    show "list_all plain (Use Near (Do_request demo_request (7::nat)) # demo_network Far)"
      by (simp add: plain_def demo_network_def)
    show "run_machine link_step (demo_link demo_messages)
        (Use Near (Do_request demo_request 7) # demo_network Far) = (fst demo_run, snd demo_run)"
      by (simp only: demo_run_def prod.collapse)
    show "stays_open (snd demo_run)" by (rule demo_stays_open)
  qed
  then show ?thesis using demo_effects(3,4) by auto
qed

theorem request_answered_across_link_witness:
  "peer_effects Far (snd demo_run) = [Inbound_message (set_request_id 1 demo_request)] \<and>
   peer_effects Near (snd demo_run2) = [Call_handler 7 demo_reply]"
proof -
  let ?l = "demo_link demo_messages"
  let ?p = "h_peer (hosts ?l Near)" and ?q = "h_peer (hosts ?l Far)"
  let ?r = "request demo_request 7 ?p"
  let ?m = "set_request_id 1 demo_request"
  have parse: "parse_message (msg_fields demo_request) = Inr demo_request"
      "parse_message (msg_fields demo_reply) = Inr demo_reply"
    by (simp_all add: parse_message_iff demo_request_def demo_reply_def conforms_def named_code lookup_named)
  have types: "has_request_id demo_request" "message_replies_to demo_request = W_none" 
      "reply_key demo_reply = Some (msg_type demo_request, 1)"
    by (simp_all add: has_request_id_def message_replies_to_def reply_key_def request_id_of_def int_field_def
        vec_at_def demo_request_def demo_reply_def lookup_named)
  have peers: "p_transport ?p \<noteq> None" "p_transport ?q \<noteq> None" "p_state ?p = Established" "p_state ?q = Established"
      "\<not> p_is_router ?p" "p_is_router ?q" "p_max_tx ?p = 512" "p_max_tx ?q = 512"
      "p_codec ?p = list_codec demo_messages" "p_codec ?q = list_codec demo_messages"
    by (simp_all add: demo_link_def Let_def init_peer_def)
  have codec: "reads_back (list_codec demo_messages) (list_codec demo_messages) ?m"
      "reads_back (list_codec demo_messages) (list_codec demo_messages) demo_reply"
    by (simp_all add: reads_back_def list_codec_def demo_messages_def demo_request_def demo_reply_def
        set_request_id_def lookup_named id_variant_def)
  have rx: "is_valid_rx (lookup_traits (msg_type demo_request)) Established True"
      "is_valid_rx (lookup_traits (msg_type demo_reply)) Established False"
    by (simp_all add: is_valid_rx_def demo_request_def demo_reply_def lookup_named)
  have answer: "as_sent demo_answer ?q = demo_reply"
    by (simp add: as_sent_def set_message_request_id_def next_request_id_def demo_answer_def demo_reply_def
        set_request_id_def has_request_id_def lookup_named id_variant_def demo_link_def init_peer_def
        max_request_id_def Let_def)
  have len: "length (encode (list_codec demo_messages) fs) = 1" for fs by (simp add: list_codec_def)
  have "peer_effects (other Near) (snd demo_run) = trace_rx (msg_fields (as_received ?m)) ?q @ [Inbound_message (as_received ?m)] \<and>
      peer_effects Near (snd demo_run2) = trace_rx (msg_fields (as_received demo_reply)) (fst (snd ?r)) @
        [Call_handler 7 (as_received demo_reply)] \<and>
      p_one_shot (h_peer (hosts (fst demo_run2) Near)) = omap_erase (msg_type demo_request, 1) (p_one_shot ?p)"
  proof (rule request_answered_across_link [OF quiet_demo refl _ parse(1) types(1,2) _ peers(1)])
    show "request demo_request 7 ?p = (1, fst (snd ?r), snd (snd ?r))"
      using demo_facts(3) by (simp add: prod_eq_iff)
    show "run_machine link_step ?l (Use Near (Do_request demo_request 7) # demo_network Far) = (fst demo_run, snd demo_run)"
      by (simp only: demo_run_def prod.collapse)
    show "run_machine link_step (fst demo_run) (Use (other Near) (Do_send demo_answer) # demo_network Near) =
        (fst demo_run2, snd demo_run2)"
      by (simp only: demo_run2_def other.simps prod.collapse)
  qed (use answer parse types peers codec rx len demo_facts in \<open>simp_all add: demo_network_def by_network_def\<close>)
  moreover have "as_received ?m = ?m" "as_received demo_reply = demo_reply"
    by (simp_all add: as_received_def demo_request_def demo_reply_def set_request_id_def lookup_named id_variant_def)
  moreover have "trace_rx fs ?q = []" "trace_rx fs (fst (snd ?r)) = []" for fs
    by (simp_all add: trace_rx_def trace_effects_def demo_levels log_level_order)
  ultimately show ?thesis by simp
qed

end
