(* ===== verification/Codec_Front.thy ===== *)
theory Codec_Front
  imports Connection_Wish Link_Requests
begin

section \<open>Encoders and decoders by format, sink and source\<close>

text \<open>
  The front ends of the codecs: \<open>codec.hpp\<close>, \<open>json.hpp\<close>, \<open>cbor.hpp\<close>, \<open>msgpack.hpp\<close> and their
  \<open>.ipp\<close> files, \<open>GenericEncoder\<close> and \<open>GenericDecoder\<close>, and the printing of variants in
  \<open>internal/variant.ipp\<close>.  The encoders and parsers of jsoncons are parameters: the bytes that
  an encoder writes for the calls made of it, the calls and the error that a parser makes of
  bytes, and what it leaves in a stream.
\<close>

subsection \<open>Sinks and sources\<close>

record istream =
  is_rest :: bytes
  is_failed :: bool

record ostream =
  os_written :: bytes
  os_failed :: bool

datatype output_data = Out_string string | Out_buffer bytes | Out_stream ostream

datatype input_data = In_string string | In_buffer bytes | In_stream istream

definition sink_append :: "bytes \<Rightarrow> output_data \<Rightarrow> output_data" where
  "sink_append b out = (case out of
     Out_string s \<Rightarrow> Out_string (s @ string_of_bytes b)
   | Out_buffer c \<Rightarrow> Out_buffer (c @ b)
   | Out_stream s \<Rightarrow> Out_stream (if os_failed s then s else s\<lparr>os_written := os_written s @ b\<rparr>))"

record serializer =
  sz_write :: "codec_format \<Rightarrow> json_output list \<Rightarrow> bytes"
  sz_parse :: "codec_format \<Rightarrow> bytes \<Rightarrow> codec_event list \<times> error_code"
  sz_leave :: "codec_format \<Rightarrow> istream \<Rightarrow> istream"

subsection \<open>Encoding\<close>

definition generic_encode :: "serializer \<Rightarrow> codec_format \<Rightarrow> variant \<Rightarrow> output_data \<Rightarrow> output_data" where
  "generic_encode S f v out = sink_append (sz_write S f (map Encoder_call (encode_events v))) out"

definition json_encoder_encode :: "serializer \<Rightarrow> variant \<Rightarrow> output_data \<Rightarrow> output_data" where
  "json_encoder_encode S v out = sink_append (sz_write S Json (json_encode_variant v)) out"

definition json_sink_encode :: "serializer \<Rightarrow> variant \<Rightarrow> output_data \<Rightarrow> output_data" where
  "json_sink_encode S v out = json_encoder_encode S v out"

definition msgpack_sink_encode :: "serializer \<Rightarrow> variant \<Rightarrow> output_data \<Rightarrow> output_data" where
  "msgpack_sink_encode S v out = generic_encode S Msgpack v out"

definition cbor_sink_encode :: "serializer \<Rightarrow> variant \<Rightarrow> output_data \<Rightarrow> output_data" where
  "cbor_sink_encode S v out = generic_encode S Cbor v out"

text \<open>\<open>wamp::encode\<close> with a format\<close>

primrec encode_format :: "serializer \<Rightarrow> codec_format \<Rightarrow> variant \<Rightarrow> output_data \<Rightarrow> output_data" where
  "encode_format S Json v out = json_sink_encode S v out"
| "encode_format S Msgpack v out = msgpack_sink_encode S v out"
| "encode_format S Cbor v out = cbor_sink_encode S v out"

subsection \<open>Decoding\<close>

text \<open>\<open>std::istream::read\<close>: what it puts in the buffer, whether the stream is good afterwards\<close>

definition stream_read :: "nat \<Rightarrow> istream \<Rightarrow> bytes \<times> bool \<times> istream" where
  "stream_read n s =
    (if is_failed s then ([], False, s)
     else if n \<le> length (is_rest s) then
       (take n (is_rest s), True, s\<lparr>is_rest := drop n (is_rest s)\<rparr>)
     else (is_rest s, False, s\<lparr>is_rest := [], is_failed := True\<rparr>))"

function read_stream :: "istream \<Rightarrow> bytes \<Rightarrow> bytes \<times> istream" where
  "read_stream s acc =
    (let (chunk, good, s') = stream_read 4096 s
     in if good then read_stream s' (acc @ chunk) else (acc @ chunk, s'))"
  by pat_completeness auto

termination
  by (relation "measure (\<lambda>(s, acc). length (is_rest s))")
    (auto simp: stream_read_def split: if_splits)

declare read_stream.simps [simp del]

text \<open>
  A decoder keeps a visitor, which it resets before and after each use, and the JSON decoder for
  streams keeps the bytes that it reads.  The results are the error, the variant, what is left
  of the input and the decoder.
\<close>

record source_decoder =
  sd_visitor :: decoder
  sd_bytes :: bytes

type_synonym decoding = "(error_code \<times> variant \<times> input_data \<times> source_decoder) option"

definition new_decoder :: source_decoder where
  "new_decoder = \<lparr>sd_visitor = decoder_reset, sd_bytes = []\<rparr>"

definition json_decode_bytes :: "serializer \<Rightarrow> bytes \<Rightarrow> input_data \<Rightarrow> variant \<Rightarrow> source_decoder \<Rightarrow> decoding" where
  "json_decode_bytes S b left v sd =
    (let (es, parse_ec) = sz_parse S Json b
     in map_option (\<lambda>(ec, w). (ec, w, left, sd\<lparr>sd_visitor := decoder_reset\<rparr>)) (decode_json es parse_ec v))"

definition json_decode_stream :: "serializer \<Rightarrow> istream \<Rightarrow> variant \<Rightarrow> source_decoder \<Rightarrow> decoding" where
  "json_decode_stream S s v sd =
    (let (b, s') = read_stream s []
     in map_option (\<lambda>(ec, w, left, sd'). (ec, w, left, sd'\<lparr>sd_bytes := []\<rparr>))
          (json_decode_bytes S b (In_stream s') v (sd\<lparr>sd_bytes := b\<rparr>)))"

definition generic_decode :: "serializer \<Rightarrow> codec_format \<Rightarrow> input_data \<Rightarrow> variant \<Rightarrow> source_decoder \<Rightarrow> decoding" where
  "generic_decode S f input v sd =
    (let (b, left) = (case input of
           In_string s \<Rightarrow> (bytes_of_string s, input)
         | In_buffer b \<Rightarrow> (b, input)
         | In_stream s \<Rightarrow> (is_rest s, In_stream (sz_leave S f s)));
         (es, parse_ec) = sz_parse S f b
     in map_option (\<lambda>(ec, w). (ec, w, left, sd\<lparr>sd_visitor := decoder_reset\<rparr>)) (decode_generic es parse_ec v))"

definition json_source_decode :: "serializer \<Rightarrow> input_data \<Rightarrow> variant \<Rightarrow> source_decoder \<Rightarrow> decoding" where
  "json_source_decode S input v sd =
    (case input of
       In_string s \<Rightarrow> json_decode_bytes S (bytes_of_string s) input v sd
     | In_buffer b \<Rightarrow> json_decode_bytes S b input v sd
     | In_stream s \<Rightarrow> json_decode_stream S s v sd)"

definition msgpack_source_decode :: "serializer \<Rightarrow> input_data \<Rightarrow> variant \<Rightarrow> source_decoder \<Rightarrow> decoding" where
  "msgpack_source_decode S input v sd = generic_decode S Msgpack input v sd"

definition cbor_source_decode :: "serializer \<Rightarrow> input_data \<Rightarrow> variant \<Rightarrow> source_decoder \<Rightarrow> decoding" where
  "cbor_source_decode S input v sd = generic_decode S Cbor input v sd"

primrec source_decode :: "serializer \<Rightarrow> codec_format \<Rightarrow> input_data \<Rightarrow> variant \<Rightarrow> source_decoder \<Rightarrow> decoding" where
  "source_decode S Json input v sd = json_source_decode S input v sd"
| "source_decode S Msgpack input v sd = msgpack_source_decode S input v sd"
| "source_decode S Cbor input v sd = cbor_source_decode S input v sd"

text \<open>\<open>wamp::decode\<close> uses a decoder once.\<close>

definition decode_format :: "serializer \<Rightarrow> codec_format \<Rightarrow> input_data \<Rightarrow> variant \<Rightarrow> (error_code \<times> variant) option" where
  "decode_format S f input v =
    map_option (\<lambda>(ec, w, left, sd). (ec, w)) (source_decode S f input v new_decoder)"

text \<open>\<open>Codec\<close> and \<open>PolymorphicCodec\<close>\<close>

record format_codec =
  fc_format :: codec_format
  fc_decoder :: source_decoder

definition new_codec :: "codec_format \<Rightarrow> format_codec" where
  "new_codec f = \<lparr>fc_format = f, fc_decoder = new_decoder\<rparr>"

definition codec_encode :: "serializer \<Rightarrow> variant \<Rightarrow> output_data \<Rightarrow> format_codec \<Rightarrow> output_data" where
  "codec_encode S v out c = encode_format S (fc_format c) v out"

definition codec_decode ::
    "serializer \<Rightarrow> input_data \<Rightarrow> variant \<Rightarrow> format_codec \<Rightarrow> (error_code \<times> variant \<times> format_codec) option" where
  "codec_decode S input v c =
    map_option (\<lambda>(ec, w, left, sd). (ec, w, c\<lparr>fc_decoder := sd\<rparr>))
      (source_decode S (fc_format c) input v (fc_decoder c))"

subsection \<open>Printing\<close>

definition char_byte :: "char \<Rightarrow> bytes" where
  "char_byte c = bytes_of_string [c]"

definition variant_stream :: "serializer \<Rightarrow> variant \<Rightarrow> output_data \<Rightarrow> output_data" where
  "variant_stream S v out = json_encoder_encode S v out"

text \<open>The loops over the elements; \<open>begin\<close> tells whether the iterator is at the first one.\<close>

fun elements_stream :: "serializer \<Rightarrow> bool \<Rightarrow> varray \<Rightarrow> output_data \<Rightarrow> output_data" where
  "elements_stream S first [] out = out"
| "elements_stream S first (v # vs) out =
    elements_stream S False vs
      (json_encoder_encode S v (if first then out else sink_append (char_byte CHR '','') out))"

definition array_stream :: "serializer \<Rightarrow> varray \<Rightarrow> output_data \<Rightarrow> output_data" where
  "array_stream S a out =
    sink_append (char_byte CHR '']'') (elements_stream S True a (sink_append (char_byte CHR ''['') out))"

fun members_stream :: "serializer \<Rightarrow> bool \<Rightarrow> vobject \<Rightarrow> output_data \<Rightarrow> output_data" where
  "members_stream S first [] out = out"
| "members_stream S first ((k, v) # kvs) out =
    members_stream S False kvs
      (json_encoder_encode S v (sink_append (char_byte CHR '':'')
        (json_encoder_encode S (V_string k) (if first then out else sink_append (char_byte CHR '','') out))))"

definition object_stream :: "serializer \<Rightarrow> vobject \<Rightarrow> output_data \<Rightarrow> output_data" where
  "object_stream S ob out =
    sink_append (char_byte CHR 0x7D) (members_stream S True ob (sink_append (char_byte CHR 0x7B) out))"

definition string_output :: "output_data \<Rightarrow> string" where
  "string_output out = (case out of Out_string s \<Rightarrow> s | _ \<Rightarrow> '''')"

definition variant_to_string :: "serializer \<Rightarrow> variant \<Rightarrow> string" where
  "variant_to_string S v = string_output (json_encoder_encode S v (Out_string ''''))"

definition array_to_string :: "serializer \<Rightarrow> varray \<Rightarrow> string" where
  "array_to_string S a = string_output (array_stream S a (Out_string ''''))"

definition object_to_string :: "serializer \<Rightarrow> vobject \<Rightarrow> string" where
  "object_to_string S ob = string_output (object_stream S ob (Out_string ''''))"

definition blob_stream :: "bytes \<Rightarrow> output_data \<Rightarrow> output_data" where
  "blob_stream b out = sink_append (base64_encode b) out"

subsection \<open>What is read back\<close>

definition contents :: "output_data \<Rightarrow> input_data" where
  "contents out = (case out of
     Out_string s \<Rightarrow> In_string s
   | Out_buffer b \<Rightarrow> In_buffer b
   | Out_stream s \<Rightarrow> In_stream \<lparr>is_rest = os_written s, is_failed = False\<rparr>)"

definition cleared :: "output_data \<Rightarrow> bool" where
  "cleared out = (case out of
     Out_string s \<Rightarrow> s = '''' | Out_buffer b \<Rightarrow> b = [] | Out_stream s \<Rightarrow> os_written s = [] \<and> \<not> os_failed s)"

text \<open>The calls that the visitors make of an encoder, and a parser that reports them\<close>

definition encoder_calls :: "codec_format \<Rightarrow> variant \<Rightarrow> json_output list" where
  "encoder_calls f v = (if f = Json then json_encode_variant v else map Encoder_call (encode_events v))"

lemma encode_format_calls: "encode_format S f v out = sink_append (sz_write S f (encoder_calls f v)) out"
  by (cases f) (simp_all add: encoder_calls_def json_sink_encode_def json_encoder_encode_def
      msgpack_sink_encode_def cbor_sink_encode_def generic_encode_def)

definition faithful :: "serializer \<Rightarrow> codec_format \<Rightarrow> variant \<Rightarrow> bool" where
  "faithful S f v \<longleftrightarrow>
    (let (es, ec) = sz_parse S f (sz_write S f (encoder_calls f v))
     in ec = no_error \<and> list_all2 (reads_as (f = Json)) (encode_events v) es)"

lemma read_stream_all:
  "\<not> is_failed s \<Longrightarrow> read_stream s acc = (acc @ is_rest s, s\<lparr>is_rest := [], is_failed := True\<rparr>)"
proof (induction "length (is_rest s)" arbitrary: s acc rule: less_induct)
  case less
  show ?case
  proof (cases "4096 \<le> length (is_rest s)")
    case True
    let ?s = "s\<lparr>is_rest := drop 4096 (is_rest s)\<rparr>"
    have "read_stream ?s (acc @ take 4096 (is_rest s)) =
        ((acc @ take 4096 (is_rest s)) @ drop 4096 (is_rest s), s\<lparr>is_rest := [], is_failed := True\<rparr>)"
      using less.hyps [of ?s] less.prems True by simp
    with True less.prems show ?thesis
      by (subst read_stream.simps) (simp add: stream_read_def)
  next
    case False
    with less.prems show ?thesis by (subst read_stream.simps) (simp add: stream_read_def)
  qed
qed

lemma append_append [simp]: "sink_append b (sink_append a out) = sink_append (a @ b) out"
  by (simp add: sink_append_def string_of_bytes_def split: output_data.split)

lemma append_nothing [simp]: "sink_append [] out = out"
  by (simp add: sink_append_def string_of_bytes_def split: output_data.split)

text \<open>The bytes that a decoder gets of an output\<close>

definition written_bytes :: "output_data \<Rightarrow> bytes" where
  "written_bytes out = (case out of
     Out_string s \<Rightarrow> bytes_of_string s | Out_buffer b \<Rightarrow> b | Out_stream s \<Rightarrow> os_written s)"

lemma decode_contents:
  assumes "sz_parse S f (written_bytes out) = (es, parse_ec)"
    and "(if f = Json then decode_json else decode_generic) es parse_ec v = Some (ec, w)"
  shows "\<exists>left sd'. source_decode S f (contents out) v sd = Some (ec, w, left, sd')"
  using assms
  by (cases f; cases out)
    (auto simp: json_source_decode_def json_decode_bytes_def json_decode_stream_def msgpack_source_decode_def
      cbor_source_decode_def generic_decode_def contents_def written_bytes_def read_stream_all)

lemma written_cleared: "cleared out \<Longrightarrow> written_bytes (sink_append b out) = b"
  by (auto simp: cleared_def written_bytes_def sink_append_def split: output_data.splits)

lemma faithful_decodes:
  assumes "decodable (f = Json) v" and "faithful S f v"
    and "written_bytes out = sz_write S f (encoder_calls f v)"
  shows "\<exists>left sd'. source_decode S f (contents out) old sd = Some (no_error, normalized v, left, sd')"
proof -
  obtain es where es: "sz_parse S f (written_bytes out) = (es, no_error)"
      "list_all2 (reads_as (f = Json)) (encode_events v) es"
    using assms(2,3) by (auto simp: faithful_def)
  then show ?thesis
    using codec_roundtrip [OF assms(1) es(2), of old] by (intro decode_contents [OF es(1)]) simp
qed


text \<open>Encoding appends, as it is documented to.\<close>

lemma encode_appends:
  "encode_format S f v (encode_format S f' w out) =
    sink_append (sz_write S f' (encoder_calls f' w) @ sz_write S f (encoder_calls f v)) out"
  by (simp add: encode_format_calls)

subsection \<open>The codecs of peers\<close>

text \<open>\<open>c\<close> does for the fields of a message what the front ends do with a \<open>MessageBuffer\<close>.\<close>

definition serves :: "serializer \<Rightarrow> codec_format \<Rightarrow> codec \<Rightarrow> bool" where
  "serves S f c \<longleftrightarrow>
    (\<forall>fs. encode_format S f (V_array fs) (Out_buffer []) = Out_buffer (encode c fs)) \<and>
    (\<forall>b r. decode_format S f (In_buffer b) V_null = Some r \<longrightarrow> decode c b = r)"

lemma serves_reads_back:
  assumes "serves S f c" and "serves S f d" and "decodable (f = Json) (V_array (msg_fields m))"
    and "faithful S f (V_array (msg_fields m))"
  shows "reads_back c d m"
proof -
  let ?out = "Out_buffer (encode c (msg_fields m))" and ?v = "V_array (msg_fields m)"
  have "written_bytes (encode_format S f ?v (Out_buffer [])) = sz_write S f (encoder_calls f ?v)"
    by (simp add: encode_format_calls written_cleared cleared_def)
  moreover have "encode_format S f ?v (Out_buffer []) = ?out" using assms(1) by (simp add: serves_def)
  ultimately have "written_bytes ?out = sz_write S f (encoder_calls f ?v)" by (simp only:)
  from faithful_decodes [OF assms(3,4) this, of V_null new_decoder]
  have "decode_format S f (In_buffer (encode c (msg_fields m))) V_null = Some (no_error, normalized ?v)"
    by (auto simp: decode_format_def contents_def)
  then have "decode d (encode c (msg_fields m)) = (no_error, normalized ?v)"
    using assms(2) by (simp add: serves_def)
  then show ?thesis by (simp add: reads_back_def)
qed

subsection \<open>What printing gives\<close>

definition joined :: "bytes \<Rightarrow> bytes list \<Rightarrow> bytes" where
  "joined sep bs = (case bs of [] \<Rightarrow> [] | b # cs \<Rightarrow> b @ concat (map (\<lambda>c. sep @ c) cs))"

abbreviation json_bytes :: "serializer \<Rightarrow> variant \<Rightarrow> bytes" where
  "json_bytes S v \<equiv> sz_write S Json (json_encode_variant v)"

lemma elements_stream_rest:
  "elements_stream S False vs out = sink_append (concat (map (\<lambda>v. char_byte CHR '','' @ json_bytes S v) vs)) out"
  by (induction vs arbitrary: out) (simp_all add: json_encoder_encode_def)

lemma array_stream_joined:
  "array_stream S a out = sink_append (char_byte CHR ''['' @
     joined (char_byte CHR '','') (map (json_bytes S) a) @ char_byte CHR '']'') out"
  by (cases a) (simp_all add: array_stream_def elements_stream_rest json_encoder_encode_def joined_def comp_def)

lemma members_stream_rest:
  "members_stream S False ob out = sink_append (concat (map (\<lambda>kv. char_byte CHR '','' @
     json_bytes S (V_string (fst kv)) @ char_byte CHR '':'' @ json_bytes S (snd kv)) ob)) out"
  by (induction ob arbitrary: out) (auto simp: json_encoder_encode_def)

lemma object_stream_joined:
  "object_stream S ob out = sink_append (char_byte CHR 0x7B @
     joined (char_byte CHR '','') (map (\<lambda>kv. json_bytes S (V_string (fst kv)) @ char_byte CHR '':'' @
       json_bytes S (snd kv)) ob) @ char_byte CHR 0x7D) out"
  by (cases ob) (auto simp: object_stream_def members_stream_rest json_encoder_encode_def joined_def comp_def)

subsection \<open>Witnesses\<close>

definition demo_variant :: variant where
  "demo_variant = V_array [V_int 7, V_object [(''k'', V_uint 3)], V_string ''s'']"

definition demo_serializer :: serializer where
  "demo_serializer = \<lparr>sz_write = \<lambda>f out. [1, 2], sz_parse = \<lambda>f b.
     if b = [1, 2] then
       ([Ev_begin_array None, Ev_uint 7, Ev_begin_object 1, Ev_key ''k'', Ev_uint 3, Ev_end_object,
         Ev_string ''s'', Ev_end_array], no_error)
     else ([], decoding_ec DE_failure), sz_leave = \<lambda>f s. s\<rparr>"


end
