(* ===== verification/Spec2Isabelle.thy ===== *)
theory Spec2Isabelle
  imports Ordered_Map Errors Rawsock_Connect Variant_Codec Caller_Timeout Logging Peer_Refinement Peer_Data Client_Invocations Client_Outcomes Session
    Variant_Convert Variant_Storage Payload Error_Or Endpoint Thread_Safe Coro_Session Any_Handler Connection_Wish Link_Requests Codec_Front
begin

text \<open>
  CppWAMP is a C++ implementation of the client side of WAMP, the Web Application Messaging
  Protocol: publish and subscribe, and routed remote procedure calls, over raw sockets.  This library
  models its core, the headers and \<open>.ipp\<close> files under \<open>src/cppwamp/include/cppwamp\<close>; file names
  below are relative to that directory.

  \<^bold>\<open>The program.\<close>  A \<open>Session\<close> gives the user a \<open>Client\<close>.  The client keeps the tables of local
  subscriptions and registrations and turns user operations into messages.  It owns a \<open>Peer\<close>, the
  session state machine that clients and routers share: it numbers requests, remembers their handlers,
  encodes messages with the codec, passes them to the transport, and matches what it receives to the
  requests that are pending.  The transport frames messages on a raw socket; connectors and listeners
  agree with the other end on codec and frame lengths first.  A message is an array of variants, the
  dynamic values of \<open>variant.hpp\<close>, which the codecs write and read through the events of the jsoncons
  library.  A scheduler with one timer watches the deadlines of calls.

  \<^bold>\<open>Conventions.\<close>  A component with state is a record of its members and a step function from a state
  and an event (a method called from outside, or the completion of something asynchronous) to the next
  state and the effects on the outside, in the order of the code.  \<open>run_machine\<close> of \<open>Prelude\<close> iterates
  it; the locales there (\<open>machine_invariant\<close>, \<open>machine_outputs\<close>, \<open>machine_conservation\<close>) carry the
  inductions over runs, and each machine interprets them with its own preservation lemma.  Errors and
  exceptions are values, failed assertions are effects.  \<open>std::map\<close> is the list of its entries in key
  order (\<open>Ordered_Map\<close>, with the contract \<open>keyed_store\<close>).  Integers keep their width where it matters.
  Loops that are bounded by data are recursive functions; there is no fuel in the library.

  \<^bold>\<open>The theories\<close>, each with the files that it models:

  \<^item> \<open>Errors\<close>: \<open>error.hpp\<close>, \<open>internal/error.ipp\<close>.  Error enumerations, categories, the table of error URIs.
  \<^item> \<open>Rawsock_Header\<close>: \<open>internal/endian.hpp\<close>, \<open>rawsockheader.hpp\<close>, \<open>rawsockhandshake.hpp\<close>.  The words on the
    wire as 32-bit words; round trips and what overflows.
  \<^item> \<open>Rawsock_Transport\<close>: \<open>internal/rawsocktransport.hpp\<close>.  Framing, transmit queue, pings: messages arrive
    whole and in order, reads stay within the agreed length, an error is the last thing reported.
  \<^item> \<open>Rawsock_Connect\<close>: \<open>internal/rawsockconnector.hpp\<close>, \<open>rawsocklistener.hpp\<close>.  The handshake from both
    sides: what they agree on, one call for each handler.
  \<^item> \<open>Base64\<close>: \<open>internal/base64.hpp\<close>.  Encoding and decoding, and their round trip.
  \<^item> \<open>Variant_Model\<close>, \<open>Variant_Codec\<close>: \<open>variant.hpp\<close> and what encodes and decodes variants.  Equality and
    order, the codec visitors as a machine over parser events, their round trip.
  \<^item> \<open>Wamp_Message\<close>: \<open>internal/messagetraits.hpp\<close>, \<open>internal/wampmessage.hpp\<close>.  Message types, the table of
    their fields, parsing.
  \<^item> \<open>Caller_Timeout\<close>: \<open>internal/callertimeout.hpp\<close>.  The deadlines and when they are attended to or lost.
  \<^item> \<open>Logging\<close>: \<open>logging.hpp\<close>, \<open>internal/logging.ipp\<close>, \<open>internal/consolelogger.ipp\<close>.
  \<^item> \<open>Peer\<close>: \<open>internal/peer.hpp\<close>.  Then \<open>Peer_Handlers\<close> (every request handler is kept or disposed of once),
    \<open>Peer_Limits\<close> (message length, request IDs), \<open>Peer_Session\<close> (replies reach the handler of their request,
    invalid input ends the session), \<open>Peer_Refinement\<close> (the peer simulates the session of the WAMP
    specification) and \<open>Peer_Replies\<close> (which replies which kinds of handlers can get).
  \<^item> \<open>Peer_Data\<close>: \<open>peerdata.hpp\<close>, \<open>options.hpp\<close>, \<open>payload.hpp\<close>.  What users hand over and get: options, timeouts,
    features, outcomes.
  \<^item> \<open>Client\<close>: \<open>internal/client.hpp\<close>, \<open>internal/version.ipp\<close>.  Then \<open>Client_Handlers\<close> (every completion
    handler is called, dropped or forgotten once; assertions), \<open>Client_Behaviour\<close> (states, events,
    subscriptions as one map), \<open>Client_Invocations\<close> (interruptions), \<open>Client_Outcomes\<close> (connecting ends;
    timeouts).
  \<^item> \<open>Session\<close>: \<open>session.hpp\<close>, \<open>internal/session.ipp\<close>, \<open>subscription.ipp\<close>, \<open>registration.ipp\<close>, \<open>chits.ipp\<close>.
    Calls from any thread as a queue, argument checks, scoped handles.
  \<^item> \<open>Thread_Safe\<close>: the \<open>safe\<dots>\<close> operations of \<open>internal/client.hpp\<close> and the handles of \<open>internal/peerdata.ipp\<close>
    that refer to the client weakly.  The strand as a queue of tasks with their promises: no promise is
    set twice, and none is left once the queue has run.
  \<^item> \<open>Variant_Storage\<close>: the union inside \<open>variant.hpp\<close> over an explicit heap.  Construction, assignment and
    swap refine the datatype of \<open>Variant_Model\<close>, leak nothing and free nothing twice.
  \<^item> \<open>Variant_Convert\<close>: \<open>conversion.hpp\<close>, \<open>internal/varianttraits.hpp\<close>, \<open>variantvisitors.hpp\<close>, \<open>types\<close>.
    Conversion from and to C++ types and comparison with them, over a datatype of the types.
  \<^item> \<open>Payload\<close>: \<open>payload.hpp\<close>, \<open>unpacker.hpp\<close>, \<open>corounpacker.hpp\<close>.  Positional arguments as C++ values and the
    wrappers that call a slot with them, at once or in a coroutine.
  \<^item> \<open>Error_Or\<close>: \<open>erroror.hpp\<close>.  The class refines a sum.
  \<^item> \<open>Endpoint\<close>: hosts, paths and socket options (\<open>tcphost.hpp\<close>, \<open>udspath.hpp\<close>, \<open>internal/socketoptions.hpp\<close>, \<dots>),
    \<open>internal/tcpopener.hpp\<close>, \<open>udsopener.hpp\<close>, \<open>tcpacceptor.hpp\<close>, \<open>udsacceptor.hpp\<close>, and the connectors with
    their openers: each attempt ends in one call of its handler, if the system accepts the options.
  \<^item> \<open>Coro_Session\<close>: \<open>coro/corosession.hpp\<close>.  Sessions for coroutines: errors are thrown before an operation
    starts, and a coroutine is resumed once.
  \<^item> \<open>Any_Handler\<close>: \<open>anyhandler.hpp\<close>.  Reusable handlers and where their targets run.
  \<^item> \<open>Connection_Wish\<close>: \<open>connector.hpp\<close>, \<open>codec.hpp\<close>.  Wishes with the connectors and codecs they make; client,
    connectors and routers together: the first wish that is served is the one that connects.
  \<^item> \<open>Peer_Link\<close>, \<open>Link_Requests\<close>: two peers, their transports and the bytes between them as one machine.
    Each peer is given what the other sent, once and in order, on every schedule; a request and its answer
    cross the connection.
  \<^item> \<open>Codec_Front\<close>: \<open>codec.hpp\<close>, \<open>internal/json.ipp\<close>, \<open>cbor.ipp\<close>, \<open>msgpack.ipp\<close>.  Encoders and decoders by
    format and by kind of sink and source, and the printing of variants.  What a codec writes it reads back,
    given that jsoncons does; this is what the theorems on linked peers assume of their codecs.

  \<^bold>\<open>Parameters.\<close>  The serializer is a pair of functions, since it wraps jsoncons; Asio's sockets, timers
  and executors are the effects and events of the machines.  Hypotheses about them are named in the
  theorems.

  \<^bold>\<open>Not modelled.\<close>
  The encoders and parsers of jsoncons; so the bytes of MessagePack and CBOR and the text of JSON numbers
  and strings.  The network, executors, completion tokens and cancellation signals of Asio, and the copies
  of Boost.Asio under \<open>bundled\<close>.  How times and error codes print in a log.  What is computed by
  the compiler only (traits, tags, \<open>visitor.hpp\<close>, the abstract classes).  Memory is explicit in
  \<open>Variant_Storage\<close> only; elsewhere values are moved by being used once.
\<close>

end
